(* ===== verification/Prelude.thy ===== *)
theory Prelude
  imports Main "HOL-Library.Char_ord" "HOL-Library.List_Lexorder" "HOL-Library.Monad_Syntax"
begin

text \<open>
  The prelude of the RuleHawk development: the named collections of simplification rules the
  component theories fill, and the facts on lists, options and maps that several components use.
  Nothing here models code; everything that does is in the theories named after a Go package.
\<close>

section \<open>Collections\<close>

named_theorems go_simps \<open>evaluation and normal forms of the Go standard library model\<close>
named_theorems cover_simps \<open>unfolding of the coverage predicates of package fwrule\<close>
named_theorems store_simps \<open>laws of the stores\<close>

section \<open>Lists\<close>

text \<open>Go's \<open>for ... append\<close> loops with an early \<open>continue\<close> are \<open>concat (map f xs)\<close> or
  \<open>List.map_filter\<close>; these facts relate them to \<open>filter\<close> and \<open>set\<close>.\<close>

lemma concat_map_opt_set:
  "set (concat (map (\<lambda>x. case f x of None \<Rightarrow> [] | Some y \<Rightarrow> [y]) xs))
     = {y. \<exists>x \<in> set xs. f x = Some y}"
  by (induction xs) (auto split: option.splits)

lemma dropWhile_idem [simp]: "dropWhile P (dropWhile P xs) = dropWhile P xs"
  by (induction xs) auto

lemma dropWhile_eq_self: "(xs = [] \<or> \<not> P (hd xs)) \<Longrightarrow> dropWhile P xs = xs"
  by (cases xs) auto

lemma dropWhile_rev_keeps_head:
  assumes "xs = [] \<or> \<not> P (hd xs)"
  shows "rev (dropWhile P (rev xs)) = [] \<or> \<not> P (hd (rev (dropWhile P (rev xs))))"
proof (cases "xs = [] \<or> rev (dropWhile P (rev xs)) = []")
  case False
  then obtain y ys where xs: "xs = y # ys" by (cases xs) auto
  with assms have y: "\<not> P y" by simp
  have split: "rev xs = takeWhile P (rev xs) @ dropWhile P (rev xs)" by simp
  then have "xs = rev (dropWhile P (rev xs)) @ rev (takeWhile P (rev xs))"
    by (metis rev_append rev_rev_ident)
  with False xs have "hd (rev (dropWhile P (rev xs))) = y"
    by (metis hd_append2 list.sel(1))
  with y show ?thesis by simp
qed (use assms in auto)

lemma dropWhile_map_comp: "dropWhile P (map f xs) = map f (dropWhile (\<lambda>x. P (f x)) xs)"
  by (induction xs) auto

lemma sorted_wrt_snoc:
  "sorted_wrt R (xs @ [x]) \<longleftrightarrow> sorted_wrt R xs \<and> (\<forall>y \<in> set xs. R y x)"
  by (auto simp: sorted_wrt_append)

lemma list_all2_map_same: "list_all2 P (map f xs) (map g xs) \<longleftrightarrow> (\<forall>x \<in> set xs. P (f x) (g x))"
  by (induction xs) auto

lemma fold_invariant_index:
  assumes "I 0 s"
    and "\<And>i s. i < length xs \<Longrightarrow> I i s \<Longrightarrow> I (Suc i) (f (xs ! i) s)"
  shows "I (length xs) (fold f xs s)"
  using assms
proof (induction xs arbitrary: s rule: rev_induct)
  case Nil
  then show ?case by simp
next
  case (snoc x xs)
  have "I (length xs) (fold f xs s)"
    by (rule snoc.IH [OF snoc.prems(1)])
      (metis snoc.prems(2) length_append_singleton less_SucI nth_append)
  with snoc.prems(2) [of "length xs" "fold f xs s"] show ?case by (simp add: nth_append)
qed

section \<open>Maps with a zero value\<close>

text \<open>
  Reading a missing key of a Go map gives the zero value of the element type. A map that the code
  only reads this way is a total function; \<open>upd\<close> of it is function update.
\<close>

type_synonym ('k, 'v) zmap = "'k \<Rightarrow> 'v"

lemma map_of_upd_dom: "dom (m(k \<mapsto> v)) = insert k (dom m)"
  by simp

lemma find_Some_in: "List.find P xs = Some x \<Longrightarrow> x \<in> set xs \<and> P x"
  by (metis find_Some_iff nth_mem)

section \<open>Switches\<close>

text \<open>Facts about a chain of cases that answers an option, without looking at the conditions.\<close>

lemma if_Some_None: "(if c then Some a else x) = None \<longleftrightarrow> \<not> c \<and> x = None"
  by simp

lemma if_SomeE: "(if c then Some a else x) = Some y \<Longrightarrow> (a = y \<Longrightarrow> Q) \<Longrightarrow> (x = Some y \<Longrightarrow> Q) \<Longrightarrow> Q"
  by (simp split: if_splits)

end
