(* ===== verification/GoStrings.thy ===== *)
theory GoStrings
  imports Prelude
begin

text \<open>
  The part of Go's standard library for text that the source uses: packages \<open>strings\<close>,
  \<open>strconv\<close> and the \<open>%d\<close> verb of \<open>fmt\<close>. A Go string is a sequence of bytes, which is what
  \<open>string\<close> (a list of 8-bit characters) is; UTF-8 text is its bytes. Case mapping and white
  space are those of the ASCII range: a byte of 128 and above has no case and is not a space,
  so text with non-ASCII capitals or the Unicode spaces is outside the model.
\<close>

section \<open>Characters\<close>

definition is_space :: "char \<Rightarrow> bool" where
  "is_space c \<longleftrightarrow> c = CHR '' '' \<or> (CHR 0x09 \<le> c \<and> c \<le> CHR 0x0D)"

definition lower_char :: "char \<Rightarrow> char" where
  "lower_char c = (if CHR ''A'' \<le> c \<and> c \<le> CHR ''Z'' then char_of (of_char c + (32 :: nat)) else c)"

definition upper_char :: "char \<Rightarrow> char" where
  "upper_char c = (if CHR ''a'' \<le> c \<and> c \<le> CHR ''z'' then char_of (of_char c - (32 :: nat)) else c)"

lemma of_char_lower_char:
  "(of_char (lower_char c) :: nat) =
     (if 65 \<le> (of_char c :: nat) \<and> (of_char c :: nat) \<le> 90 then of_char c + 32 else of_char c)"
  by (simp add: lower_char_def less_eq_char_def)

lemma char_eq_nat: "c = d \<longleftrightarrow> (of_char c :: nat) = of_char d"
  by simp

lemma lower_char_idem [simp]: "lower_char (lower_char c) = lower_char c"
  unfolding char_eq_nat [of "lower_char (lower_char c)"] of_char_lower_char by simp

lemma is_space_nat:
  "is_space c \<longleftrightarrow> (of_char c :: nat) = 32 \<or> (9 \<le> (of_char c :: nat) \<and> (of_char c :: nat) \<le> 13)"
  by (simp add: is_space_def less_eq_char_def char_eq_nat del: of_char_eq_iff)

lemma is_space_lower_char [simp]: "is_space (lower_char c) = is_space c"
  by (simp add: is_space_nat of_char_lower_char)

section \<open>Package strings\<close>

definition ToLower :: "string \<Rightarrow> string" where
  "ToLower s = map lower_char s"

definition ToUpper :: "string \<Rightarrow> string" where
  "ToUpper s = map upper_char s"

definition EqualFold :: "string \<Rightarrow> string \<Rightarrow> bool" where
  "EqualFold s t \<longleftrightarrow> ToLower s = ToLower t"

definition trim_by :: "(char \<Rightarrow> bool) \<Rightarrow> string \<Rightarrow> string" where
  "trim_by P s = rev (dropWhile P (rev (dropWhile P s)))"

definition TrimSpace :: "string \<Rightarrow> string" where
  "TrimSpace s = trim_by is_space s"

definition Trim :: "string \<Rightarrow> string \<Rightarrow> string" where
  "Trim s cutset = trim_by (\<lambda>c. c \<in> set cutset) s"

definition TrimRight :: "string \<Rightarrow> string \<Rightarrow> string" where
  "TrimRight s cutset = rev (dropWhile (\<lambda>c. c \<in> set cutset) (rev s))"

definition HasPrefix :: "string \<Rightarrow> string \<Rightarrow> bool" where
  "HasPrefix s p \<longleftrightarrow> take (length p) s = p"

definition TrimPrefix :: "string \<Rightarrow> string \<Rightarrow> string" where
  "TrimPrefix s p = (if HasPrefix s p then drop (length p) s else s)"

definition HasSuffix :: "string \<Rightarrow> string \<Rightarrow> bool" where
  "HasSuffix s p \<longleftrightarrow> HasPrefix (rev s) (rev p)"

definition TrimSuffix :: "string \<Rightarrow> string \<Rightarrow> string" where
  "TrimSuffix s p = (if HasSuffix s p then take (length s - length p) s else s)"

text \<open>\<open>strings.Index\<close> and \<open>strings.Contains\<close>: the first position of a substring.\<close>

fun Index_from :: "nat \<Rightarrow> string \<Rightarrow> string \<Rightarrow> nat option" where
  "Index_from i [] p = (if p = [] then Some i else None)"
| "Index_from i (c # s) p = (if HasPrefix (c # s) p then Some i else Index_from (Suc i) s p)"

definition IndexStr :: "string \<Rightarrow> string \<Rightarrow> nat option" where
  "IndexStr s p = Index_from 0 s p"

definition Contains :: "string \<Rightarrow> string \<Rightarrow> bool" where
  "Contains s p \<longleftrightarrow> IndexStr s p \<noteq> None"

text \<open>\<open>strings.IndexAny\<close> and \<open>strings.LastIndex\<close> of one-byte patterns.\<close>

fun find_index :: "('a \<Rightarrow> bool) \<Rightarrow> 'a list \<Rightarrow> nat option" where
  "find_index P [] = None"
| "find_index P (x # xs) = (if P x then Some 0 else map_option Suc (find_index P xs))"

definition IndexAny :: "string \<Rightarrow> string \<Rightarrow> nat option" where
  "IndexAny s chars = find_index (\<lambda>c. c \<in> set chars) s"

definition LastIndexByte :: "string \<Rightarrow> char \<Rightarrow> nat option" where
  "LastIndexByte s c = map_option (\<lambda>k. length s - 1 - k) (find_index (\<lambda>d. d = c) (rev s))"

text \<open>\<open>strings.Split\<close> with a one-byte separator; \<open>strings.Fields\<close>; \<open>strings.Cut\<close>.\<close>

primrec split_by :: "(char \<Rightarrow> bool) \<Rightarrow> string \<Rightarrow> string list" where
  "split_by P [] = [[]]"
| "split_by P (c # s) =
     (if P c then [] # split_by P s
      else (case split_by P s of [] \<Rightarrow> [[c]] | w # ws \<Rightarrow> (c # w) # ws))"

definition Split :: "string \<Rightarrow> char \<Rightarrow> string list" where
  "Split s sep = split_by (\<lambda>c. c = sep) s"

definition Fields :: "string \<Rightarrow> string list" where
  "Fields s = filter (\<lambda>w. w \<noteq> []) (split_by is_space s)"

definition Cut :: "string \<Rightarrow> char \<Rightarrow> (string \<times> string) option" where
  "Cut s sep = (case find_index (\<lambda>c. c = sep) s of
     None \<Rightarrow> None
   | Some i \<Rightarrow> Some (take i s, drop (Suc i) s))"

fun Join :: "string list \<Rightarrow> string \<Rightarrow> string" where
  "Join [] sep = []"
| "Join [w] sep = w"
| "Join (w # ws) sep = w @ sep @ Join ws sep"

text \<open>\<open>strings.ReplaceAll\<close> with one-byte old and new strings.\<close>

definition ReplaceByte :: "string \<Rightarrow> char \<Rightarrow> char \<Rightarrow> string" where
  "ReplaceByte s old new = map (\<lambda>c. if c = old then new else c) s"

section \<open>Package strconv\<close>

definition digit_val :: "char \<Rightarrow> nat option" where
  "digit_val c = (if CHR ''0'' \<le> c \<and> c \<le> CHR ''9'' then Some (of_char c - 48) else None)"

fun digits_val :: "nat \<Rightarrow> string \<Rightarrow> nat option" where
  "digits_val acc [] = Some acc"
| "digits_val acc (c # s) =
     (case digit_val c of None \<Rightarrow> None | Some d \<Rightarrow> digits_val (10 * acc + d) s)"

text \<open>\<open>strconv.Atoi\<close>: an optional sign, then at least one digit; a value outside the 64-bit
  \<open>int\<close> is an error.\<close>

definition Atoi :: "string \<Rightarrow> int option" where
  "Atoi s =
     (let neg = (s \<noteq> [] \<and> hd s = CHR ''-'');
          ds = (if s \<noteq> [] \<and> (hd s = CHR ''-'' \<or> hd s = CHR ''+'') then tl s else s)
      in if ds = [] then None
         else (case digits_val 0 ds of
             None \<Rightarrow> None
           | Some n \<Rightarrow>
               (let v = (if neg then - int n else int n)
                in if - (2 ^ 63) \<le> v \<and> v < 2 ^ 63 then Some v else None)))"

fun nat_str :: "nat \<Rightarrow> string" where
  "nat_str n = (if n < 10 then [char_of (48 + n)] else nat_str (n div 10) @ [char_of (48 + n mod 10)])"

declare nat_str.simps [simp del]

text \<open>\<open>strconv.Itoa\<close> and \<open>%d\<close>.\<close>

definition Itoa :: "int \<Rightarrow> string" where
  "Itoa i = (if i < 0 then CHR ''-'' # nat_str (nat (- i)) else nat_str (nat i))"

section \<open>Facts\<close>

lemma ToLower_idem [simp]: "ToLower (ToLower s) = ToLower s"
  by (simp add: ToLower_def)

lemma ToLower_Nil [simp]: "ToLower [] = []" and ToLower_eq_Nil [simp]: "ToLower s = [] \<longleftrightarrow> s = []"
  by (simp_all add: ToLower_def)

lemma trim_by_idem [simp]: "trim_by P (trim_by P s) = trim_by P s"
proof -
  let ?d = "dropWhile P s"
  have "?d = [] \<or> \<not> P (hd ?d)" by (metis hd_dropWhile)
  then have h: "trim_by P s = [] \<or> \<not> P (hd (trim_by P s))"
    unfolding trim_by_def by (rule dropWhile_rev_keeps_head)
  then have "dropWhile P (trim_by P s) = trim_by P s" by (rule dropWhile_eq_self)
  then show ?thesis by (simp add: trim_by_def)
qed

lemma TrimSpace_idem [simp]: "TrimSpace (TrimSpace s) = TrimSpace s"
  by (simp add: TrimSpace_def)

lemma TrimSpace_Nil [simp]: "TrimSpace [] = []"
  by (simp add: TrimSpace_def trim_by_def)

lemma TrimSpace_no_space: "\<forall>c \<in> set s. \<not> is_space c \<Longrightarrow> TrimSpace s = s"
proof -
  have "\<forall>c \<in> set s. \<not> is_space c \<Longrightarrow> dropWhile is_space s = s" for s by (cases s) auto
  from this [of s] this [of "rev s"] show "\<forall>c \<in> set s. \<not> is_space c \<Longrightarrow> ?thesis"
    by (simp add: TrimSpace_def trim_by_def)
qed

lemma TrimSpace_ToLower: "TrimSpace (ToLower s) = ToLower (TrimSpace s)"
  by (simp add: TrimSpace_def trim_by_def ToLower_def dropWhile_map_comp rev_map)

lemma HasPrefix_append [simp]: "HasPrefix (p @ s) p"
  by (simp add: HasPrefix_def)

lemma HasPrefix_iff: "HasPrefix s p \<longleftrightarrow> (\<exists>t. s = p @ t)"
  unfolding HasPrefix_def by (metis append_eq_conv_conj append_take_drop_id)

lemma split_by_not_Nil [simp]: "split_by P s \<noteq> []"
  by (induction s) (auto split: list.splits)

lemma Split_not_Nil [simp]: "Split s c \<noteq> []"
  by (simp add: Split_def)

lemma split_by_none: "\<forall>c \<in> set s. \<not> P c \<Longrightarrow> split_by P s = [s]"
  by (induction s) auto

lemma split_by_append_sep:
  "\<forall>c \<in> set u. \<not> P c \<Longrightarrow> P c \<Longrightarrow> split_by P (u @ c # v) = u # split_by P v"
  by (induction u) auto

text \<open>Splitting what was joined gives the parts back.\<close>

lemma Split_Join:
  "ws \<noteq> [] \<Longrightarrow> \<forall>w \<in> set ws. sep \<notin> set w \<Longrightarrow> Split (Join ws [sep]) sep = ws"
proof (induction ws rule: induct_list012)
  case (3 w x xs)
  then show ?case
    unfolding Split_def by (subst Join.simps, subst append_Cons, subst append_Nil)
      (subst split_by_append_sep, auto)
qed (auto simp: Split_def intro!: split_by_none)

lemma split_by_parts: "w \<in> set (split_by P s) \<Longrightarrow> c \<in> set w \<Longrightarrow> c \<in> set s \<and> \<not> P c"
proof (induction s arbitrary: w)
  case (Cons a s)
  then obtain v vs where v: "split_by P s = v # vs" by (cases "split_by P s") auto
  with Cons show ?case by (fastforce split: if_splits)
qed simp

lemma Fields_not_Nil: "w \<in> set (Fields s) \<Longrightarrow> w \<noteq> []"
  by (simp add: Fields_def)

lemma Fields_no_space: "w \<in> set (Fields s) \<Longrightarrow> c \<in> set w \<Longrightarrow> \<not> is_space c"
  by (auto simp: Fields_def dest: split_by_parts)

lemma find_index_Some:
  "find_index P xs = Some i \<Longrightarrow> i < length xs \<and> P (xs ! i) \<and> (\<forall>j < i. \<not> P (xs ! j))"
proof (induction xs arbitrary: i)
  case (Cons x xs)
  then show ?case by (auto split: if_splits simp: less_Suc_eq_0_disj)
qed simp

lemma find_index_None: "find_index P xs = None \<longleftrightarrow> (\<forall>x \<in> set xs. \<not> P x)"
  by (induction xs) auto

lemma digit_val_char_of: "d < 10 \<Longrightarrow> digit_val (char_of (48 + d)) = Some d"
  by (simp add: digit_val_def less_eq_char_def)

lemma digits_val_append:
  "digits_val acc (s @ t) = (case digits_val acc s of None \<Rightarrow> None | Some n \<Rightarrow> digits_val n t)"
  by (induction s arbitrary: acc) (auto split: option.splits)

lemma nat_str_not_Nil [simp]: "nat_str n \<noteq> []"
  by (subst nat_str.simps) simp

lemma digits_val_nat_str: "digits_val 0 (nat_str n) = Some n"
proof (induction n rule: nat_str.induct)
  case (1 n)
  show ?case
  proof (cases "n < 10")
    case True
    then show ?thesis by (subst nat_str.simps) (simp add: digit_val_char_of)
  next
    case False
    then have "digits_val 0 (nat_str (n div 10)) = Some (n div 10)" by (rule 1)
    with False show ?thesis
      by (subst nat_str.simps) (simp add: digits_val_append digit_val_char_of)
  qed
qed

lemma digits_val_digits: "digits_val acc s = Some n \<Longrightarrow> c \<in> set s \<Longrightarrow> digit_val c \<noteq> None"
  by (induction s arbitrary: acc) (auto split: option.splits)

lemma digit_val_not_sign: "digit_val c \<noteq> None \<Longrightarrow> c \<noteq> CHR ''-'' \<and> c \<noteq> CHR ''+''"
  by (auto simp: digit_val_def)

lemma nat_str_hd: "hd (nat_str n) \<noteq> CHR ''-'' \<and> hd (nat_str n) \<noteq> CHR ''+''"
  by (rule digit_val_not_sign) (rule digits_val_digits [OF digits_val_nat_str [of n]], simp)

text \<open>Reading back a printed number gives the number.\<close>

lemma Atoi_Itoa: "- (2 ^ 63) \<le> i \<Longrightarrow> i < 2 ^ 63 \<Longrightarrow> Atoi (Itoa i) = Some i"
  using nat_str_hd [of "nat i"]
  by (auto simp: Atoi_def Itoa_def digits_val_nat_str Let_def)

lemma Itoa_inj: "Itoa i = Itoa j \<Longrightarrow> i = j"
proof -
  assume eq: "Itoa i = Itoa j"
  have nn: "nat_str a = nat_str b \<Longrightarrow> a = b" for a b
    by (metis digits_val_nat_str option.inject)
  from eq show "i = j"
    using nat_str_hd [of "nat i"] nat_str_hd [of "nat j"]
    by (auto simp: Itoa_def split: if_splits dest!: nn) (metis list.sel(1))+
qed

end
