(* ===== verification/NetIP.thy ===== *)
theory NetIP
  imports GoStrings "HOL-Library.Word"
begin

unbundle bit_operations_syntax

text \<open>
  The part of Go's package \<open>net\<close> (and \<open>net/netip\<close>, which parses for it) that the source
  uses: IP addresses and masks of 4 and 16 bytes, \<open>ParseIP\<close>, \<open>ParseCIDR\<close>, \<open>IPMask.Size\<close>,
  \<open>IP.To4\<close>, \<open>IP.Mask\<close>, \<open>IPNet.Contains\<close> and \<open>IP.String\<close>. Addresses are big-endian words, so
  the byte-wise AND of Go is the AND of words. An address with a zone is an error for both
  parsers, so \<open>ParseAddr\<close> refuses it here.
\<close>

section \<open>Addresses and masks\<close>

text \<open>A \<open>net.IP\<close> of 4 bytes or of 16, and a \<open>net.IPMask\<close> of either length.\<close>

datatype ip = IP4 "32 word" | IP16 "128 word"

datatype ipmask = Mask4 "32 word" | Mask16 "128 word"

record ipnet =
  net_ip :: ip
  net_mask :: ipmask

definition cidr_mask :: "nat \<Rightarrow> 'a::len word" where
  "cidr_mask n = NOT (mask (LENGTH('a) - n))"

definition v4_in_v6 :: "32 word \<Rightarrow> 128 word" where
  "v4_in_v6 w = push_bit 32 0xFFFF OR ucast w"

fun To4 :: "ip \<Rightarrow> 32 word option" where
  "To4 (IP4 w) = Some w"
| "To4 (IP16 w) = (if drop_bit 32 w = 0xFFFF then Some (ucast w) else None)"

fun To16 :: "ip \<Rightarrow> 128 word" where
  "To16 (IP4 w) = v4_in_v6 w"
| "To16 (IP16 w) = w"

text \<open>\<open>IPMask.Size\<close>: the number of leading ones and of bits, or (0, 0) for a mask whose ones
  are not all leading.\<close>

definition leading_ones :: "'a::len word \<Rightarrow> nat" where
  "leading_ones m = length (takeWhile (bit m) (rev [0..<LENGTH('a)]))"

definition simple_mask_length :: "'a::len word \<Rightarrow> nat option" where
  "simple_mask_length m =
     (let n = leading_ones m in if m = cidr_mask n then Some n else None)"

fun Size :: "ipmask \<Rightarrow> nat \<times> nat" where
  "Size (Mask4 m) = (case simple_mask_length m of Some n \<Rightarrow> (n, 32) | None \<Rightarrow> (0, 0))"
| "Size (Mask16 m) = (case simple_mask_length m of Some n \<Rightarrow> (n, 128) | None \<Rightarrow> (0, 0))"

text \<open>\<open>IP.Mask\<close>; \<open>None\<close> is the nil address of mismatched lengths.\<close>

fun ip_mask :: "ip \<Rightarrow> ipmask \<Rightarrow> ip option" where
  "ip_mask (IP4 w) (Mask4 m) = Some (IP4 (w AND m))"
| "ip_mask (IP16 w) (Mask16 m) = Some (IP16 (w AND m))"
| "ip_mask (IP16 w) (Mask4 m) = (case To4 (IP16 w) of Some v \<Rightarrow> Some (IP4 (v AND m)) | None \<Rightarrow> None)"
| "ip_mask (IP4 w) (Mask16 m) =
     (if drop_bit 32 m = mask 96 then Some (IP4 (w AND ucast m)) else None)"

text \<open>\<open>networkNumberAndMask\<close>: the two lengths of the answer are the two sides of the sum, the
  nil answer is \<open>None\<close>.\<close>

definition network_number_and_mask ::
  "ipnet \<Rightarrow> (32 word \<times> 32 word + 128 word \<times> 128 word) option" where
  "network_number_and_mask n =
     (case To4 (net_ip n) of
        Some v \<Rightarrow> (case net_mask n of Mask4 m \<Rightarrow> Some (Inl (v, m)) | Mask16 m \<Rightarrow> Some (Inl (v, ucast m)))
      | None \<Rightarrow> (case net_mask n of Mask4 m \<Rightarrow> None | Mask16 m \<Rightarrow> Some (Inr (To16 (net_ip n), m))))"

definition net_has :: "ipnet \<Rightarrow> ip \<Rightarrow> bool" where
  "net_has n ip =
     (case network_number_and_mask n of
        None \<Rightarrow> False
      | Some (Inl (a, m)) \<Rightarrow> (case To4 ip of Some x \<Rightarrow> a AND m = x AND m | None \<Rightarrow> False)
      | Some (Inr (a, m)) \<Rightarrow> (case To4 ip of Some _ \<Rightarrow> False | None \<Rightarrow> a AND m = To16 ip AND m))"

section \<open>Parsing\<close>

text \<open>\<open>netip.Addr\<close> without a zone: an IPv4 address is not the IPv6 address that maps it.\<close>

datatype addr = A4 "32 word" | A6 "128 word"

definition parse_octet :: "string \<Rightarrow> nat option" where
  "parse_octet s =
     (if s = [] \<or> (length s > 1 \<and> hd s = CHR ''0'') then None
      else (case digits_val 0 s of Some n \<Rightarrow> if n \<le> 255 then Some n else None | None \<Rightarrow> None))"

definition parse_v4 :: "string \<Rightarrow> 32 word option" where
  "parse_v4 s =
     (case those (map parse_octet (Split s (CHR ''.''))) of
        Some [a, b, c, d] \<Rightarrow> Some (word_of_nat (((a * 256 + b) * 256 + c) * 256 + d))
      | _ \<Rightarrow> None)"

definition hex_val :: "char \<Rightarrow> nat option" where
  "hex_val c =
     (if CHR ''0'' \<le> c \<and> c \<le> CHR ''9'' then Some (of_char c - 48)
      else if CHR ''a'' \<le> c \<and> c \<le> CHR ''f'' then Some (of_char c - 87)
      else if CHR ''A'' \<le> c \<and> c \<le> CHR ''F'' then Some (of_char c - 55)
      else None)"

definition hex_num :: "string \<Rightarrow> nat" where
  "hex_num s = foldl (\<lambda>acc c. acc * 16 + (case hex_val c of Some d \<Rightarrow> d | None \<Rightarrow> 0)) 0 s"

text \<open>The loop of \<open>parseIPv6\<close>: the 16-bit groups read so far, the group index of the ellipsis,
  the rest of the text. At most eight rounds, as each adds a group.\<close>

function parse_v6_groups :: "nat list \<Rightarrow> nat option \<Rightarrow> string \<Rightarrow> (nat list \<times> nat option) option" where
  "parse_v6_groups gs ell s =
     (if length gs \<ge> 8 then (if s = [] then Some (gs, ell) else None)
      else
        let h = takeWhile (\<lambda>c. hex_val c \<noteq> None) s; rest = drop (length h) s in
        if h = [] \<or> length h > 4 then None
        else if rest \<noteq> [] \<and> hd rest = CHR ''.'' then
          (if (ell = None \<and> length gs \<noteq> 6) \<or> length gs + 2 > 8 then None
           else (case parse_v4 s of
               None \<Rightarrow> None
             | Some w \<Rightarrow> Some (gs @ [unat w div 65536, unat w mod 65536], ell)))
        else
          let gs' = gs @ [hex_num h] in
          if rest = [] then Some (gs', ell)
          else if hd rest \<noteq> CHR '':'' \<or> length rest = 1 then None
          else if hd (tl rest) = CHR '':'' then
            (if ell \<noteq> None then None
             else if tl (tl rest) = [] then Some (gs', Some (length gs'))
             else parse_v6_groups gs' (Some (length gs')) (tl (tl rest)))
          else parse_v6_groups gs' ell (tl rest))"
  by pat_completeness auto
termination
  by (relation "measure (\<lambda>(gs, ell, s). 8 - length gs)") auto

declare parse_v6_groups.simps [simp del]

definition expand_ellipsis :: "nat list \<Rightarrow> nat option \<Rightarrow> nat list option" where
  "expand_ellipsis gs ell =
     (case ell of
        None \<Rightarrow> if length gs < 8 then None else Some gs
      | Some e \<Rightarrow> if length gs < 8 then Some (take e gs @ replicate (8 - length gs) 0 @ drop e gs) else None)"

definition groups_word :: "nat list \<Rightarrow> 128 word" where
  "groups_word gs = word_of_nat (foldl (\<lambda>acc g. acc * 65536 + g) 0 gs)"

definition parse_v6 :: "string \<Rightarrow> 128 word option" where
  "parse_v6 s =
     (let lead = HasPrefix s ''::''; t = (if lead then drop 2 s else s);
          ell = (if lead then Some 0 else None)
      in if lead \<and> t = [] then Some 0
         else (case parse_v6_groups [] ell t of
             None \<Rightarrow> None
           | Some (gs, e) \<Rightarrow> map_option groups_word (expand_ellipsis gs e)))"

definition ParseAddr :: "string \<Rightarrow> addr option" where
  "ParseAddr s =
     (if CHR 0x25 \<in> set s then None
      else (case find_index (\<lambda>c. c = CHR ''.'' \<or> c = CHR '':'') s of
          None \<Rightarrow> None
        | Some i \<Rightarrow> if s ! i = CHR ''.'' then map_option A4 (parse_v4 s) else map_option A6 (parse_v6 s)))"

fun As16 :: "addr \<Rightarrow> 128 word" where
  "As16 (A4 w) = v4_in_v6 w"
| "As16 (A6 w) = w"

definition ParseIP :: "string \<Rightarrow> ip option" where
  "ParseIP s = map_option (\<lambda>a. IP16 (As16 a)) (ParseAddr s)"

text \<open>The network of \<open>ParseCIDR\<close> (its other result, the address as written, is not used by the
  source). \<open>dtoi\<close> reads all of the prefix length, which must be digits.\<close>

definition ParseCIDR :: "string \<Rightarrow> ipnet option" where
  "ParseCIDR s =
     (case Cut s (CHR ''/'') of
        None \<Rightarrow> None
      | Some (a, m) \<Rightarrow>
          (case (ParseAddr a, if m = [] then None else digits_val 0 m) of
             (Some (A4 w), Some n) \<Rightarrow>
               if n \<le> 32 then Some \<lparr>net_ip = IP4 (w AND cidr_mask n), net_mask = Mask4 (cidr_mask n)\<rparr> else None
           | (Some (A6 w), Some n) \<Rightarrow>
               if n \<le> 128 then Some \<lparr>net_ip = IP16 (w AND cidr_mask n), net_mask = Mask16 (cidr_mask n)\<rparr> else None
           | _ \<Rightarrow> None))"

section \<open>Printing\<close>

definition hex_digit :: "nat \<Rightarrow> char" where
  "hex_digit d = (if d < 10 then char_of (48 + d) else char_of (87 + d))"

fun hex_str :: "nat \<Rightarrow> string" where
  "hex_str n = (if n < 16 then [hex_digit n] else hex_str (n div 16) @ [hex_digit (n mod 16)])"

declare hex_str.simps [simp del]

definition v4_str :: "32 word \<Rightarrow> string" where
  "v4_str w =
     (let n = unat w in
      Join (map nat_str [n div 16777216, n div 65536 mod 256, n div 256 mod 256, n mod 256]) ''.'')"

definition groups_of :: "128 word \<Rightarrow> nat list" where
  "groups_of w = map (\<lambda>i. unat (drop_bit (112 - 16 * i) w AND 0xFFFF)) [0..<8]"

text \<open>The longest run of two or more zero groups, the first of equals: its start and length.\<close>

definition zero_run :: "nat list \<Rightarrow> nat \<times> nat" where
  "zero_run gs =
     foldl (\<lambda>(s, l) i. let r = length (takeWhile (\<lambda>g. g = 0) (drop i gs))
                        in if r \<ge> 2 \<and> r > l then (i, r) else (s, l)) (0, 0) [0..<8]"

definition v6_str :: "128 word \<Rightarrow> string" where
  "v6_str w =
     (let gs = groups_of w; (s, l) = zero_run gs in
      if l = 0 then Join (map hex_str gs) '':''
      else Join (map hex_str (take s gs)) '':'' @ ''::'' @ Join (map hex_str (drop (s + l) gs)) '':'')"

definition ip_str :: "ip \<Rightarrow> string" where
  "ip_str ip = (case To4 ip of Some w \<Rightarrow> v4_str w | None \<Rightarrow> v6_str (To16 ip))"

section \<open>Masks and prefixes\<close>

lemma bit_cidr_mask:
  "bit (cidr_mask n :: 'a::len word) i \<longleftrightarrow> LENGTH('a) - n \<le> i \<and> i < LENGTH('a)"
  by (auto simp: cidr_mask_def bit_simps)

lemma takeWhile_ge_rev_upt: "k \<le> n \<Longrightarrow> takeWhile (\<lambda>i. k \<le> i) (rev [0..<n]) = rev [k..<n]"
  by (induction n) (auto simp: le_Suc_eq)

lemma leading_ones_cidr_mask:
  assumes "n \<le> LENGTH('a)"
  shows "leading_ones (cidr_mask n :: 'a::len word) = n"
proof -
  have "takeWhile (bit (cidr_mask n :: 'a word)) (rev [0..<LENGTH('a)]) =
        takeWhile (\<lambda>i. LENGTH('a) - n \<le> i) (rev [0..<LENGTH('a)])"
    by (rule takeWhile_cong) (auto simp: bit_cidr_mask)
  then show ?thesis using assms by (simp add: leading_ones_def takeWhile_ge_rev_upt)
qed

lemma simple_mask_length_cidr_mask [simp]:
  "n \<le> LENGTH('a) \<Longrightarrow> simple_mask_length (cidr_mask n :: 'a::len word) = Some n"
  by (simp add: simple_mask_length_def leading_ones_cidr_mask)

lemma Size_cidr_mask [simp]:
  "n \<le> 32 \<Longrightarrow> Size (Mask4 (cidr_mask n)) = (n, 32)"
  "n \<le> 128 \<Longrightarrow> Size (Mask16 (cidr_mask n)) = (n, 128)"
  by simp_all

text \<open>A shorter prefix of a prefix is the shorter prefix.\<close>

lemma and_cidr_mask:
  "k \<le> n \<Longrightarrow> (w AND cidr_mask n) AND cidr_mask k = w AND (cidr_mask k :: 'a::len word)"
  by (auto intro!: bit_word_eqI simp: bit_and_iff bit_cidr_mask)

lemma cidr_mask_mono_eq:
  assumes "a AND cidr_mask n = b AND (cidr_mask n :: 'a::len word)" and "k \<le> n"
  shows "a AND cidr_mask k = b AND cidr_mask k"
  using assms and_cidr_mask [of k n a] and_cidr_mask [of k n b] by metis

lemma cidr_mask_0 [simp]: "cidr_mask 0 = (0 :: 'a::len word)"
  by (auto intro!: bit_word_eqI simp: bit_cidr_mask)

lemma cidr_mask_idem [simp]: "w AND cidr_mask n AND cidr_mask n = w AND (cidr_mask n :: 'a::len word)"
  by (simp add: and.assoc)

text \<open>The mask of a mapped network, seen from its IPv4 address.\<close>

lemma ucast_cidr_mask:
  "96 \<le> n \<Longrightarrow> n \<le> 128 \<Longrightarrow> (ucast (cidr_mask n :: 128 word) :: 32 word) = cidr_mask (n - 96)"
  by (auto intro!: bit_word_eqI simp: bit_cidr_mask bit_simps)

lemma drop_bit_FFFF_bits:
  assumes "drop_bit 32 (w :: 128 word) = 0xFFFF"
  shows "32 \<le> i \<Longrightarrow> bit w i \<longleftrightarrow> i < 48"
proof -
  assume i: "32 \<le> i"
  have "(0xFFFF :: 128 word) = mask 16" by (simp add: mask_eq_exp_minus_1)
  with assms have "bit (drop_bit 32 w) (i - 32) = bit (mask 16 :: 128 word) (i - 32)" by simp
  with i show ?thesis by (auto simp: bit_drop_bit_eq bit_simps)
qed

text \<open>A network whose masked address is a mapped one has a prefix of 96 bits at least.\<close>

lemma mapped_prefix_len:
  assumes "drop_bit 32 (w AND cidr_mask n :: 128 word) = 0xFFFF" and "n \<le> 128"
  shows "96 \<le> n"
proof -
  have "bit (w AND cidr_mask n) 32" using drop_bit_FFFF_bits [OF assms(1), of 32] by simp
  then show ?thesis using assms(2) by (auto simp: bit_and_iff bit_cidr_mask)
qed

section \<open>Networks as read from text\<close>

inductive wf_net :: "ipnet \<Rightarrow> bool" where
  wf4: "n \<le> 32 \<Longrightarrow> wf_net \<lparr>net_ip = IP4 (w AND cidr_mask n), net_mask = Mask4 (cidr_mask n)\<rparr>"
| wf16: "n \<le> 128 \<Longrightarrow> wf_net \<lparr>net_ip = IP16 (w AND cidr_mask n), net_mask = Mask16 (cidr_mask n)\<rparr>"

lemma ParseCIDR_wf: "ParseCIDR s = Some n \<Longrightarrow> wf_net n"
  by (auto simp: ParseCIDR_def split: option.splits addr.splits if_splits intro: wf_net.intros)

section \<open>Reading is case-insensitive\<close>

lemma digit_val_lower [simp]: "digit_val (lower_char c) = digit_val c"
  by (auto simp: digit_val_def less_eq_char_def of_char_lower_char)

lemma hex_val_lower [simp]: "hex_val (lower_char c) = hex_val c"
  by (auto simp: hex_val_def less_eq_char_def of_char_lower_char)

lemma lower_char_eq_caseless:
  "\<not> (CHR ''A'' \<le> d \<and> d \<le> CHR ''Z'') \<Longrightarrow> \<not> (CHR ''a'' \<le> d \<and> d \<le> CHR ''z'') \<Longrightarrow>
     lower_char c = d \<longleftrightarrow> c = d"
  by (auto simp: char_eq_nat of_char_lower_char less_eq_char_def simp del: of_char_eq_iff split: if_splits)

lemma lower_char_punct [simp]:
  "lower_char c = CHR ''.'' \<longleftrightarrow> c = CHR ''.''"
  "lower_char c = CHR '':'' \<longleftrightarrow> c = CHR '':''"
  "lower_char c = CHR ''/'' \<longleftrightarrow> c = CHR ''/''"
  "lower_char c = CHR ''-'' \<longleftrightarrow> c = CHR ''-''"
  "lower_char c = CHR ''+'' \<longleftrightarrow> c = CHR ''+''"
  "lower_char c = CHR ''0'' \<longleftrightarrow> c = CHR ''0''"
  "lower_char c = CHR 0x25 \<longleftrightarrow> c = CHR 0x25"
  by (rule lower_char_eq_caseless; simp)+

lemma find_index_map: "find_index P (map f s) = find_index (\<lambda>c. P (f c)) s"
  by (induction s) auto

lemma split_by_map: "split_by P (map f s) = map (map f) (split_by (\<lambda>c. P (f c)) s)"
  by (induction s) (auto split: list.splits)

lemma digits_val_lower [simp]: "digits_val acc (map lower_char s) = digits_val acc s"
  by (induction s arbitrary: acc) (auto split: option.splits)

lemma parse_octet_lower [simp]: "parse_octet (map lower_char s) = parse_octet s"
  by (cases "s = []") (simp_all add: parse_octet_def hd_map)

lemma parse_v4_lower [simp]: "parse_v4 (map lower_char s) = parse_v4 s"
  by (simp add: parse_v4_def Split_def split_by_map comp_def)

lemma hex_num_lower [simp]: "hex_num (map lower_char s) = hex_num s"
proof -
  have "foldl f acc (map lower_char s) = foldl f acc s"
    if "f = (\<lambda>acc c. acc * 16 + (case hex_val c of Some d \<Rightarrow> d | None \<Rightarrow> (0::nat)))" for f acc
    unfolding that by (induction s arbitrary: acc) auto
  then show ?thesis by (simp add: hex_num_def)
qed

lemma parse_v6_groups_lower [simp]:
  "parse_v6_groups gs ell (map lower_char s) = parse_v6_groups gs ell s"
proof (induction gs ell s rule: parse_v6_groups.induct)
  case (1 gs ell s)
  show ?case
  proof (cases "length gs \<ge> 8")
    case True
    then show ?thesis by (simp add: parse_v6_groups.simps [of gs ell])
  next
    case False
    define h where "h = takeWhile (\<lambda>c. hex_val c \<noteq> None) s"
    define rest where "rest = drop (length h) s"
    have hl: "takeWhile (\<lambda>c. hex_val c \<noteq> None) (map lower_char s) = map lower_char h"
      by (simp add: h_def takeWhile_map comp_def)
    have rl: "drop (length h) (map lower_char s) = map lower_char rest"
      by (simp add: rest_def drop_map)
    note IH = 1 [OF False h_def rest_def]
    show ?thesis
      unfolding parse_v6_groups.simps [of gs ell "map lower_char s"] parse_v6_groups.simps [of gs ell s]
        hl h_def [symmetric] Let_def length_map rl rest_def [symmetric]
      using False
      apply (cases rest)
       apply simp
      subgoal for c cs
        using IH by (cases cs) (auto simp: map_tl [symmetric] split: option.splits)
      done
  qed
qed

lemma HasPrefix_colons_lower [simp]: "HasPrefix (map lower_char s) ''::'' = HasPrefix s ''::''"
  by (cases s; cases "tl s") (auto simp: HasPrefix_def)

lemma parse_v6_lower [simp]: "parse_v6 (map lower_char s) = parse_v6 s"
  unfolding parse_v6_def Let_def by (cases "HasPrefix s ''::''") (simp_all add: drop_map)

lemma percent_lower [simp]: "CHR 0x25 \<in> lower_char ` set s \<longleftrightarrow> CHR 0x25 \<in> set s"
  using lower_char_punct(7) by (metis (no_types, lifting) image_iff)

lemma ParseAddr_lower [simp]: "ParseAddr (map lower_char s) = ParseAddr s"
proof (cases "find_index (\<lambda>c. c = CHR ''.'' \<or> c = CHR '':'') s")
  case (Some i)
  then have "i < length s" by (blast dest: find_index_Some)
  with Some show ?thesis by (simp add: ParseAddr_def find_index_map)
qed (simp add: ParseAddr_def find_index_map)

lemma ParseIP_ToLower [simp]: "ParseIP (ToLower s) = ParseIP s"
  by (simp add: ParseIP_def ToLower_def)

lemma ParseCIDR_ToLower [simp]: "ParseCIDR (ToLower s) = ParseCIDR s"
proof (cases "find_index (\<lambda>c. c = CHR ''/'') s")
  case (Some i)
  then show ?thesis
    by (cases "drop (Suc i) s = []")
      (simp_all add: ParseCIDR_def Cut_def ToLower_def find_index_map take_map drop_map
         del: drop_eq_Nil split: option.splits addr.splits)
qed (simp add: ParseCIDR_def Cut_def ToLower_def find_index_map)

end
