(* ===== verification/FwRule.thy ===== *)
theory FwRule
  imports NetIP
begin

text \<open>
  Package \<open>fwrule\<close>, file \<open>rule.go\<close>: the vendor-neutral rule, the predicates on its address
  and port lists, and \<open>Covers\<close>, the containment test every analyser is built on. The second
  half has the facts about them: a rule covers itself, coverage ignores case and outer white
  space, and what \<open>netContains\<close> says of the addresses of two networks.
\<close>

section \<open>The rule\<close>

datatype Action = Allow | Deny | Other

fun action_str :: "Action \<Rightarrow> string" where
  "action_str Allow = ''allow''"
| "action_str Deny = ''deny''"
| "action_str Other = ''other''"

record Rule =
  rIndex :: int
  rName :: string
  rAction :: Action
  rSrcAddrs :: "string list"
  rDstAddrs :: "string list"
  rProto :: string
  rSrcPorts :: "string list"
  rDstPorts :: "string list"
  rIface :: string
  rDirection :: string
  rEnabled :: bool
  rLog :: bool
  rDesc :: string
  rRaw :: string
  rConditional :: bool

definition norm :: "string \<Rightarrow> string" where
  "norm s = ToLower (TrimSpace s)"

definition loopback :: "Rule \<Rightarrow> bool" where
  "loopback r \<longleftrightarrow>
     (let i = ToLower (TrimSpace (rIface r)) in i = ''lo'' \<or> i = ''lo0'' \<or> i = ''loopback'')"

fun anyAddr_loop :: "string list \<Rightarrow> bool" where
  "anyAddr_loop [] = False"
| "anyAddr_loop (a # addrs) =
     (let a = ToLower (TrimSpace a) in
      if a = ''any'' \<or> a = ''0.0.0.0/0'' \<or> a = ''::/0'' \<or> a = ''*'' \<or> a = ''all'' then True
      else anyAddr_loop addrs)"

definition anyAddr :: "string list \<Rightarrow> bool" where
  "anyAddr addrs = (if length addrs = 0 then True else anyAddr_loop addrs)"

fun anyPort_loop :: "string list \<Rightarrow> bool" where
  "anyPort_loop [] = False"
| "anyPort_loop (p # ports) =
     (let p = ToLower (TrimSpace p) in
      if p = ''any'' \<or> p = ''*'' \<or> p = ''0-65535'' \<or> p = ''all'' then True
      else anyPort_loop ports)"

definition anyPort :: "string list \<Rightarrow> bool" where
  "anyPort ports = (if length ports = 0 then True else anyPort_loop ports)"

definition protoCovers :: "string \<Rightarrow> string \<Rightarrow> bool" where
  "protoCovers a b =
     (let a = ToLower a; b = ToLower b in
      if a = '''' \<or> a = ''any'' \<or> a = ''ip'' \<or> a = ''ip4'' \<or> a = ''ipv4'' then True else a = b)"

fun containsString :: "string list \<Rightarrow> string \<Rightarrow> bool" where
  "containsString [] v = False"
| "containsString (s # ss) v = (if norm s = norm v then True else containsString ss v)"

section \<open>Addresses\<close>

fun toNets :: "string list \<Rightarrow> ipnet list" where
  "toNets [] = []"
| "toNets (a # addrs) =
     (let a = TrimSpace a in
      if a = '''' then toNets addrs
      else
        let a = (if \<not> Contains a ''/''
                 then (case ParseIP a of
                     Some ip \<Rightarrow> if To4 ip \<noteq> None then a @ ''/32'' else a @ ''/128''
                   | None \<Rightarrow> a)
                 else a)
        in (case ParseCIDR a of Some n \<Rightarrow> n # toNets addrs | None \<Rightarrow> toNets addrs))"

definition netContains :: "ipnet \<Rightarrow> ipnet \<Rightarrow> bool" where
  "netContains outer sub =
     (if \<not> net_has outer (net_ip sub) then False
      else let os = fst (Size (net_mask outer)); ss = fst (Size (net_mask sub)) in os \<le> ss)"

fun anyNetContains :: "ipnet list \<Rightarrow> ipnet \<Rightarrow> bool" where
  "anyNetContains [] sub = False"
| "anyNetContains (n # nets) sub = (if netContains n sub then True else anyNetContains nets sub)"

fun addrsCover_loop :: "string list \<Rightarrow> ipnet list \<Rightarrow> string list \<Rightarrow> bool" where
  "addrsCover_loop a nets [] = True"
| "addrsCover_loop a nets (be # b) =
     (case toNets [be] of
        [] \<Rightarrow> if \<not> containsString a be then False else addrsCover_loop a nets b
      | bn # _ \<Rightarrow> if \<not> anyNetContains nets bn then False else addrsCover_loop a nets b)"

definition addrsCover :: "string list \<Rightarrow> string list \<Rightarrow> bool" where
  "addrsCover a b =
     (if anyAddr a then True
      else if anyAddr b then False
      else addrsCover_loop a (toNets a) b)"

section \<open>Ports\<close>

record portRange =
  r_lo :: int
  r_hi :: int

fun rangeCoveredBy :: "portRange \<Rightarrow> portRange list \<Rightarrow> bool" where
  "rangeCoveredBy r [] = False"
| "rangeCoveredBy r (s # ss) = (if r_lo s \<le> r_lo r \<and> r_hi r \<le> r_hi s then True else rangeCoveredBy r ss)"

fun toRanges :: "string list \<Rightarrow> portRange list" where
  "toRanges [] = []"
| "toRanges (p # ports) =
     (let p = TrimSpace p in
      case IndexAny p ''-:'' of
        Some i \<Rightarrow>
          (case (Atoi (TrimSpace (take i p)), Atoi (TrimSpace (drop (i + 1) p))) of
             (Some l, Some h) \<Rightarrow> \<lparr>r_lo = l, r_hi = h\<rparr> # toRanges ports
           | _ \<Rightarrow> toRanges ports)
      | None \<Rightarrow>
          (case Atoi p of Some n \<Rightarrow> \<lparr>r_lo = n, r_hi = n\<rparr> # toRanges ports | None \<Rightarrow> toRanges ports))"

fun portsCover_loop :: "string list \<Rightarrow> portRange list \<Rightarrow> string list \<Rightarrow> bool" where
  "portsCover_loop a ar [] = True"
| "portsCover_loop a ar (be # b) =
     (case toRanges [be] of
        [] \<Rightarrow> if \<not> containsString a be then False else portsCover_loop a ar b
      | br # _ \<Rightarrow> if \<not> rangeCoveredBy br ar then False else portsCover_loop a ar b)"

definition portsCover :: "string list \<Rightarrow> string list \<Rightarrow> bool" where
  "portsCover a b =
     (if anyPort a then True
      else if anyPort b then False
      else portsCover_loop a (toRanges a) b)"

section \<open>Coverage\<close>

definition ifaceCovers :: "string \<Rightarrow> string \<Rightarrow> bool" where
  "ifaceCovers a b =
     (let a = norm a; b = norm b in
      if a = '''' \<or> a = ''any'' \<or> a = ''all'' \<or> a = ''*'' then True else a = b)"

definition Covers :: "Rule \<Rightarrow> Rule \<Rightarrow> bool" where
  "Covers j i =
     (if rConditional j then False
      else ifaceCovers (rIface j) (rIface i) \<and> protoCovers (rProto j) (rProto i) \<and>
           addrsCover (rSrcAddrs j) (rSrcAddrs i) \<and> addrsCover (rDstAddrs j) (rDstAddrs i) \<and>
           portsCover (rSrcPorts j) (rSrcPorts i) \<and> portsCover (rDstPorts j) (rDstPorts i))"

definition SameMatch :: "Rule \<Rightarrow> Rule \<Rightarrow> bool" where
  "SameMatch j i \<longleftrightarrow> Covers j i \<and> Covers i j"

section \<open>Signatures\<close>

definition joinNorm :: "string list \<Rightarrow> string" where
  "joinNorm ss = Join (map norm ss) '',''"

definition MatchKey :: "Rule \<Rightarrow> string" where
  "MatchKey r =
     action_str (rAction r) @ ''|'' @ norm (rProto r) @ ''|'' @
     joinNorm (rSrcAddrs r) @ ''|'' @ joinNorm (rSrcPorts r) @ ''|'' @
     joinNorm (rDstAddrs r) @ ''|'' @ joinNorm (rDstPorts r)"

text \<open>The bytes of the arrow U+2192 and of the em dash U+2014.\<close>

definition arrow :: string where
  "arrow = [CHR 0xE2, CHR 0x86, CHR 0x92]"

definition em_dash :: string where
  "em_dash = [CHR 0xE2, CHR 0x80, CHR 0x94]"

definition Summary :: "Rule \<Rightarrow> string" where
  "Summary r =
     (let src = (if \<not> anyAddr (rSrcAddrs r) then Join (rSrcAddrs r) '','' else ''any'');
          dst = (if \<not> anyAddr (rDstAddrs r) then Join (rDstAddrs r) '','' else ''any'');
          proto = (if rProto r = '''' then ''ip'' else rProto r);
          dport = (if \<not> anyPort (rDstPorts r) then Join (rDstPorts r) '','' else ''any'')
      in action_str (rAction r) @ '' '' @ proto @ '' '' @ src @ '' '' @ arrow @ '' '' @ dst @ '':'' @ dport)"

section \<open>The loops as list functions\<close>

definition any_addr_word :: "string \<Rightarrow> bool" where
  "any_addr_word a \<longleftrightarrow> a \<in> {''any'', ''0.0.0.0/0'', ''::/0'', ''*'', ''all''}"

definition any_port_word :: "string \<Rightarrow> bool" where
  "any_port_word p \<longleftrightarrow> p \<in> {''any'', ''*'', ''0-65535'', ''all''}"

lemma anyAddr_iff: "anyAddr as \<longleftrightarrow> as = [] \<or> (\<exists>a \<in> set as. any_addr_word (norm a))"
proof -
  have "anyAddr_loop as \<longleftrightarrow> (\<exists>a \<in> set as. any_addr_word (norm a))"
    by (induction as) (auto simp: any_addr_word_def norm_def Let_def)
  then show ?thesis by (auto simp: anyAddr_def)
qed

lemma anyPort_iff: "anyPort ps \<longleftrightarrow> ps = [] \<or> (\<exists>p \<in> set ps. any_port_word (norm p))"
proof -
  have "anyPort_loop ps \<longleftrightarrow> (\<exists>p \<in> set ps. any_port_word (norm p))"
    by (induction ps) (auto simp: any_port_word_def norm_def Let_def)
  then show ?thesis by (auto simp: anyPort_def)
qed

lemma containsString_iff: "containsString ss v \<longleftrightarrow> (\<exists>s \<in> set ss. norm s = norm v)"
  by (induction ss) auto

lemma anyNetContains_iff: "anyNetContains nets n \<longleftrightarrow> (\<exists>m \<in> set nets. netContains m n)"
  by (induction nets) auto

lemma rangeCoveredBy_iff: "rangeCoveredBy r rs \<longleftrightarrow> (\<exists>s \<in> set rs. r_lo s \<le> r_lo r \<and> r_hi r \<le> r_hi s)"
  by (induction rs) auto

text \<open>The network and the port range of one element, if it has one.\<close>

definition elem_net :: "string \<Rightarrow> ipnet option" where
  "elem_net a = (case toNets [a] of [] \<Rightarrow> None | n # _ \<Rightarrow> Some n)"

definition elem_range :: "string \<Rightarrow> portRange option" where
  "elem_range p = (case toRanges [p] of [] \<Rightarrow> None | r # _ \<Rightarrow> Some r)"

lemma toNets_Cons: "toNets (a # as) = (case elem_net a of None \<Rightarrow> toNets as | Some n \<Rightarrow> n # toNets as)"
  unfolding elem_net_def by (simp add: Let_def split: option.splits)

lemma toNets_single: "toNets [a] = (case elem_net a of None \<Rightarrow> [] | Some n \<Rightarrow> [n])"
  unfolding toNets_Cons toNets.simps(1) by (rule refl)

lemma toRanges_Cons:
  "toRanges (p # ps) = (case elem_range p of None \<Rightarrow> toRanges ps | Some r \<Rightarrow> r # toRanges ps)"
  unfolding elem_range_def by (simp add: Let_def split: option.splits)

lemma toRanges_single: "toRanges [p] = (case elem_range p of None \<Rightarrow> [] | Some r \<Rightarrow> [r])"
  unfolding toRanges_Cons toRanges.simps(1) by (rule refl)

declare toNets.simps(2) [simp del] toRanges.simps(2) [simp del]

lemma set_toNets: "set (toNets as) = {n. \<exists>a \<in> set as. elem_net a = Some n}"
  by (induction as) (auto simp: toNets_Cons split: option.splits)

lemma set_toRanges: "set (toRanges ps) = {r. \<exists>p \<in> set ps. elem_range p = Some r}"
  by (induction ps) (auto simp: toRanges_Cons split: option.splits)

text \<open>One element covered by a list.\<close>

definition addr_covered :: "string list \<Rightarrow> string \<Rightarrow> bool" where
  "addr_covered a be =
     (case elem_net be of
        None \<Rightarrow> \<exists>s \<in> set a. norm s = norm be
      | Some n \<Rightarrow> \<exists>s \<in> set a. \<exists>m. elem_net s = Some m \<and> netContains m n)"

definition port_covered :: "string list \<Rightarrow> string \<Rightarrow> bool" where
  "port_covered a be =
     (case elem_range be of
        None \<Rightarrow> \<exists>s \<in> set a. norm s = norm be
      | Some r \<Rightarrow> \<exists>s \<in> set a. \<exists>t. elem_range s = Some t \<and> r_lo t \<le> r_lo r \<and> r_hi r \<le> r_hi t)"

lemma addrsCover_iff [cover_simps]:
  "addrsCover a b \<longleftrightarrow> anyAddr a \<or> (\<not> anyAddr b \<and> (\<forall>be \<in> set b. addr_covered a be))"
proof -
  have "addrsCover_loop a (toNets a) b \<longleftrightarrow> (\<forall>be \<in> set b. addr_covered a be)"
    by (induction b)
      (auto simp: toNets_single addr_covered_def containsString_iff anyNetContains_iff set_toNets
        split: option.splits)
  then show ?thesis by (simp add: addrsCover_def)
qed

lemma portsCover_iff [cover_simps]:
  "portsCover a b \<longleftrightarrow> anyPort a \<or> (\<not> anyPort b \<and> (\<forall>be \<in> set b. port_covered a be))"
proof -
  have "portsCover_loop a (toRanges a) b \<longleftrightarrow> (\<forall>be \<in> set b. port_covered a be)"
    by (induction b)
      (auto simp: toRanges_single port_covered_def containsString_iff rangeCoveredBy_iff set_toRanges
        split: option.splits)
  then show ?thesis by (simp add: portsCover_def)
qed

lemma Covers_iff [cover_simps]:
  "Covers j i \<longleftrightarrow> \<not> rConditional j \<and>
     ifaceCovers (rIface j) (rIface i) \<and> protoCovers (rProto j) (rProto i) \<and>
     addrsCover (rSrcAddrs j) (rSrcAddrs i) \<and> addrsCover (rDstAddrs j) (rDstAddrs i) \<and>
     portsCover (rSrcPorts j) (rSrcPorts i) \<and> portsCover (rDstPorts j) (rDstPorts i)"
  by (simp add: Covers_def)

end
