(* ===== verification/NetContain.thy ===== *)
theory NetContain
  imports FwRule
begin

text \<open>
  What \<open>netContains\<close> (\<open>rule.go\<close>) says of the addresses of two networks, what \<open>normCIDR\<close>
  (\<open>coverindex.go\<close>) reduces a network to, and the class of networks on which the two disagree:
  an IPv6 network of IPv4-mapped addresses (such as \<open>::ffff:10.0.0.0/104\<close>), whose prefix
  length counts 96 bits that the address comparison drops.
\<close>

section \<open>Networks reduced to address, prefix length and family\<close>

text \<open>\<open>normCIDR\<close>; the family is 0 for IPv4 and 1 for IPv6. \<open>None\<close> is \<open>ok = false\<close>.\<close>

definition normCIDR :: "ipnet \<Rightarrow> (ip \<times> nat \<times> nat) option" where
  "normCIDR n =
     (let (ones, bits) = Size (net_mask n) in
      if bits = 0 then None
      else (case To4 (net_ip n) of
          Some v4 \<Rightarrow>
            (let ones = (if bits = 128 then int ones - 96 else int ones) in
             if ones < 0 then None else Some (IP4 v4, nat ones, 0))
        | None \<Rightarrow> Some (IP16 (To16 (net_ip n)), ones, 1)))"

definition cidrKey :: "ip \<Rightarrow> nat \<Rightarrow> nat \<Rightarrow> string" where
  "cidrKey ip ones fam =
     (let m = (if fam = 1 then Mask16 (cidr_mask ones) else Mask4 (cidr_mask ones))
      in (case ip_mask ip m of Some masked \<Rightarrow> ip_str masked | None \<Rightarrow> ''<nil>'') @ ''/'' @ Itoa (int ones))"

section \<open>Mapped networks\<close>

definition is_mapped :: "ipnet \<Rightarrow> bool" where
  "is_mapped n \<longleftrightarrow>
     (case net_mask n of Mask4 _ \<Rightarrow> False | Mask16 _ \<Rightarrow> To4 (net_ip n) \<noteq> None)"

text \<open>The three shapes of a network read from text.\<close>

inductive net_shape :: "ipnet \<Rightarrow> bool" where
  plain4: "n \<le> 32 \<Longrightarrow> net_shape \<lparr>net_ip = IP4 (w AND cidr_mask n), net_mask = Mask4 (cidr_mask n)\<rparr>"
| mapped: "96 \<le> n \<Longrightarrow> n \<le> 128 \<Longrightarrow> To4 (IP16 (w AND cidr_mask n)) = Some v \<Longrightarrow> v AND cidr_mask (n - 96) = v \<Longrightarrow>
    net_shape \<lparr>net_ip = IP16 (w AND cidr_mask n), net_mask = Mask16 (cidr_mask n)\<rparr>"
| plain6: "n \<le> 128 \<Longrightarrow> To4 (IP16 (w AND cidr_mask n)) = None \<Longrightarrow>
    net_shape \<lparr>net_ip = IP16 (w AND cidr_mask n), net_mask = Mask16 (cidr_mask n)\<rparr>"

lemma ucast_and_cidr_mask:
  assumes "96 \<le> n" and "n \<le> 128"
  shows "(ucast (w AND cidr_mask n :: 128 word) :: 32 word) AND cidr_mask (n - 96) =
         ucast (w AND cidr_mask n)"
proof -
  have "(ucast (w AND cidr_mask n :: 128 word) :: 32 word) = ucast w AND ucast (cidr_mask n :: 128 word)"
    by (rule bit_word_eqI) (simp add: bit_simps)
  then show ?thesis using assms by (simp add: ucast_cidr_mask and.assoc)
qed

lemma wf_net_shape: "wf_net n \<Longrightarrow> net_shape n"
proof (induction rule: wf_net.induct)
  case (wf4 n w)
  then show ?case by (rule net_shape.plain4)
next
  case (wf16 n w)
  show ?case
  proof (cases "drop_bit 32 (w AND cidr_mask n) = 0xFFFF")
    case True
    then have "96 \<le> n" using wf16 by (rule mapped_prefix_len)
    then show ?thesis
      using True wf16 ucast_and_cidr_mask [of n w]
      by (intro net_shape.mapped [where v = "ucast (w AND cidr_mask n)"]) simp_all
  next
    case False
    with wf16 show ?thesis by (intro net_shape.plain6) simp_all
  qed
qed

lemma elem_net_wf: "elem_net a = Some n \<Longrightarrow> wf_net n"
  by (auto simp: elem_net_def toNets.simps(2) Let_def dest: ParseCIDR_wf split: option.splits if_splits)

lemma elem_net_shape: "elem_net a = Some n \<Longrightarrow> net_shape n"
  by (rule wf_net_shape [OF elem_net_wf])

section \<open>Normal forms\<close>

text \<open>The prefix a network stands for: an address of the family, a length of at most its bits.\<close>

datatype prefix = P4 "32 word" nat | P6 "128 word" nat

definition prefix_of :: "ipnet \<Rightarrow> prefix" where
  "prefix_of n =
     (case To4 (net_ip n) of
        Some v \<Rightarrow> P4 v (case net_mask n of Mask4 _ \<Rightarrow> fst (Size (net_mask n)) | Mask16 _ \<Rightarrow> fst (Size (net_mask n)) - 96)
      | None \<Rightarrow> P6 (To16 (net_ip n)) (fst (Size (net_mask n))))"

fun prefix_len :: "prefix \<Rightarrow> nat" where
  "prefix_len (P4 _ n) = n"
| "prefix_len (P6 _ n) = n"

text \<open>An address in the network of a prefix.\<close>

fun in_prefix :: "prefix \<Rightarrow> ip \<Rightarrow> bool" where
  "in_prefix (P4 a n) x = (case To4 x of Some v \<Rightarrow> v AND cidr_mask n = a AND cidr_mask n | None \<Rightarrow> False)"
| "in_prefix (P6 a n) x = (case To4 x of Some _ \<Rightarrow> False | None \<Rightarrow> To16 x AND cidr_mask n = a AND cidr_mask n)"

lemma net_has_in_prefix: "net_shape n \<Longrightarrow> net_has n x \<longleftrightarrow> in_prefix (prefix_of n) x"
proof (induction rule: net_shape.induct)
  case (mapped n w v)
  then show ?case
    by (auto simp: net_has_def network_number_and_mask_def prefix_of_def ucast_cidr_mask
        simp del: To4.simps(2) split: option.splits)
qed (auto simp: net_has_def network_number_and_mask_def prefix_of_def simp del: To4.simps(2) split: option.splits)

lemma normCIDR_prefix:
  assumes "net_shape n"
  shows "normCIDR n = (case prefix_of n of P4 a k \<Rightarrow> Some (IP4 a, k, 0) | P6 a k \<Rightarrow> Some (IP16 a, k, 1))"
  using assms
  by (induction rule: net_shape.induct)
    (auto simp: normCIDR_def prefix_of_def simp del: To4.simps(2))

lemma prefix_len_bound:
  "net_shape n \<Longrightarrow> (case prefix_of n of P4 a k \<Rightarrow> k \<le> 32 | P6 a k \<Rightarrow> k \<le> 128)"
  by (induction rule: net_shape.induct) (auto simp: prefix_of_def simp del: To4.simps(2))

lemma raw_len:
  "net_shape n \<Longrightarrow> fst (Size (net_mask n)) = prefix_len (prefix_of n) + (if is_mapped n then 96 else 0)"
  by (induction rule: net_shape.induct) (auto simp: prefix_of_def is_mapped_def simp del: To4.simps(2))

text \<open>Containment of prefixes: a longer prefix that agrees on the shorter length.\<close>

fun prefix_le :: "prefix \<Rightarrow> prefix \<Rightarrow> bool" where
  "prefix_le (P4 a n) (P4 b k) \<longleftrightarrow> n \<le> k \<and> b AND cidr_mask n = a AND cidr_mask n"
| "prefix_le (P6 a n) (P6 b k) \<longleftrightarrow> n \<le> k \<and> b AND cidr_mask n = a AND cidr_mask n"
| "prefix_le _ _ = False"

lemma prefix_le_in: "prefix_le p q \<Longrightarrow> in_prefix q x \<Longrightarrow> in_prefix p x"
  by (induction p q rule: prefix_le.induct)
    (auto split: option.splits dest: cidr_mask_mono_eq)

lemma prefix_le_trans: "prefix_le p q \<Longrightarrow> prefix_le q r \<Longrightarrow> prefix_le p r"
  by (cases p; cases q; cases r) (auto dest: cidr_mask_mono_eq)

lemma prefix_le_refl [simp]: "prefix_le p p"
  by (cases p) auto

lemma To4_prefix_addr:
  "net_shape n \<Longrightarrow> prefix_of n = P4 a k \<Longrightarrow> To4 (net_ip n) = Some a"
  "net_shape n \<Longrightarrow> prefix_of n = P6 b k \<Longrightarrow> To4 (net_ip n) = None \<and> To16 (net_ip n) = b"
  by (auto simp: prefix_of_def split: option.splits)

text \<open>
  \<open>netContains\<close> compares the prefix lengths as written. Unless the inner network is a mapped
  one, that is at least as strong as containment of the prefixes.
\<close>

lemma netContains_prefix_le:
  assumes "net_shape outer" and "net_shape sub" and "\<not> is_mapped sub" and "netContains outer sub"
  shows "prefix_le (prefix_of outer) (prefix_of sub)"
proof -
  have has: "in_prefix (prefix_of outer) (net_ip sub)"
    and len: "fst (Size (net_mask outer)) \<le> fst (Size (net_mask sub))"
    using assms(4) net_has_in_prefix [OF assms(1)] by (auto simp: netContains_def Let_def split: if_splits)
  from len have len': "prefix_len (prefix_of outer) \<le> prefix_len (prefix_of sub)"
    using assms(3) raw_len [OF assms(1)] raw_len [OF assms(2)] by simp
  show ?thesis
    using has len' To4_prefix_addr [OF assms(2)]
    by (cases "prefix_of outer"; cases "prefix_of sub") auto
qed

text \<open>When neither network is mapped, it is exactly that.\<close>

lemma netContains_iff_prefix_le:
  assumes "net_shape outer" and "net_shape sub" and "\<not> is_mapped sub" and "\<not> is_mapped outer"
  shows "netContains outer sub \<longleftrightarrow> prefix_le (prefix_of outer) (prefix_of sub)"
proof
  assume le: "prefix_le (prefix_of outer) (prefix_of sub)"
  then have "in_prefix (prefix_of outer) (net_ip sub)"
    using To4_prefix_addr [OF assms(2)]
    by (cases "prefix_of outer"; cases "prefix_of sub") auto
  moreover have "prefix_len (prefix_of outer) \<le> prefix_len (prefix_of sub)"
    using le by (cases "prefix_of outer"; cases "prefix_of sub") auto
  ultimately show "netContains outer sub"
    using assms raw_len [OF assms(1)] raw_len [OF assms(2)] net_has_in_prefix [OF assms(1)]
    by (simp add: netContains_def Let_def)
qed (rule netContains_prefix_le [OF assms(1,2,3)])

lemma netContains_refl: "net_shape n \<Longrightarrow> netContains n n"
proof -
  assume n: "net_shape n"
  have "in_prefix (prefix_of n) (net_ip n)"
    using To4_prefix_addr [OF n] by (cases "prefix_of n") auto
  then show ?thesis using net_has_in_prefix [OF n] by (simp add: netContains_def)
qed

section \<open>Keys of the index\<close>

text \<open>Networks of one prefix chain have one key at each length.\<close>

lemma cidrKey_cong4: "b AND cidr_mask n = a AND cidr_mask n \<Longrightarrow> cidrKey (IP4 b) n 0 = cidrKey (IP4 a) n 0"
  by (simp add: cidrKey_def)

lemma cidrKey_cong6: "b AND cidr_mask n = a AND cidr_mask n \<Longrightarrow> cidrKey (IP16 b) n 1 = cidrKey (IP16 a) n 1"
  by (simp add: cidrKey_def)

section \<open>Elements up to case and outer white space\<close>

lemma norm_idem [simp]: "norm (norm s) = norm s"
  by (simp add: norm_def TrimSpace_ToLower)

lemma norm_Nil [simp]: "norm [] = []"
  by (simp add: norm_def)

lemma Contains_slash: "Contains s ''/'' \<longleftrightarrow> CHR ''/'' \<in> set s"
proof -
  have "Index_from i s ''/'' \<noteq> None \<longleftrightarrow> CHR ''/'' \<in> set s" for i
    by (induction s arbitrary: i) (auto simp: HasPrefix_def)
  then show ?thesis by (simp add: Contains_def IndexStr_def)
qed

text \<open>The network of an element depends on its normal form only.\<close>

definition norm_net :: "string \<Rightarrow> ipnet option" where
  "norm_net a =
     (if a = '''' then None
      else ParseCIDR (if CHR ''/'' \<notin> set a
        then (case ParseIP a of
            Some ip \<Rightarrow> if To4 ip \<noteq> None then a @ ''/32'' else a @ ''/128''
          | None \<Rightarrow> a)
        else a))"

lemma elem_net_norm_net: "elem_net a = norm_net (TrimSpace a)"
  by (auto simp: elem_net_def norm_net_def toNets.simps(2) Let_def Contains_slash split: option.splits)

lemma slash_ToLower: "CHR ''/'' \<in> set (ToLower a) \<longleftrightarrow> CHR ''/'' \<in> set a"
  unfolding ToLower_def by (metis (no_types, lifting) image_iff list.set_map lower_char_punct(3))

lemma ToLower_suffix: "ToLower a @ ''/32'' = ToLower (a @ ''/32'')" "ToLower a @ ''/128'' = ToLower (a @ ''/128'')"
  by (simp_all add: ToLower_def lower_char_def less_eq_char_def)

lemma norm_net_ToLower: "norm_net (ToLower a) = norm_net a"
  unfolding norm_net_def ParseIP_ToLower slash_ToLower ToLower_suffix ToLower_eq_Nil
  by (auto split: option.splits)

lemma elem_net_norm: "norm a = norm b \<Longrightarrow> elem_net a = elem_net b"
  unfolding elem_net_norm_net norm_def by (metis norm_net_ToLower)

section \<open>Evaluation\<close>

text \<open>Rewrite rules that evaluate the text functions on literals.\<close>

lemmas str_eval = norm_def TrimSpace_def Trim_def trim_by_def is_space_def ToLower_def lower_char_def
  less_eq_char_def HasPrefix_def

lemmas net_eval = elem_net_norm_net norm_net_def ParseCIDR_def Cut_def ParseIP_def ParseAddr_def parse_v4_def
  Split_def parse_octet_def digit_val_def v4_in_v6_def

lemmas port_eval = elem_range_def toRanges.simps(2) IndexAny_def Atoi_def digit_val_def

end
