(* ===== verification/CoverIndex.thy ===== *)
theory CoverIndex
  imports NetContain
begin

text \<open>
  Package \<open>fwrule\<close>, file \<open>coverindex.go\<close>: the index that finds the earliest earlier rule
  covering a given one. A posting list is a list of rule positions; the code keeps them as
  \<open>int32\<close>, which holds every position of a list of fewer than \<open>2 ^ 31\<close> rules. Maps that the
  code reads with a missing key giving the nil list are total functions; the slice of
  segment-tree nodes is a function on node numbers (\<open>insertRange_nodes\<close> shows that only numbers of
  the slice are written). The search of the postings, the leapfrog join and the panic of an
  index outside the rule list are modelled as written.
\<close>

section \<open>Data\<close>

type_synonym postings = "nat list"

record addrDim =
  ad_any :: postings
  ad_net :: "(string, postings) zmap"
  ad_str :: "(string, postings) zmap"
  ad_lens :: "bool list list"

record portDim =
  pd_any :: postings
  pd_weird :: postings
  pd_str :: "(string, postings) zmap"
  pd_tree :: "(nat, postings) zmap"

record coverIndex =
  ifaceWild :: postings
  ifaceEq :: "(string, postings) zmap"
  protoWild :: postings
  protoEq :: "(string, postings) zmap"
  ci_src :: addrDim
  ci_dst :: addrDim
  ci_sport :: portDim
  ci_dport :: portDim

definition addrDim_init :: addrDim where
  "addrDim_init = \<lparr>ad_any = [], ad_net = (\<lambda>_. []), ad_str = (\<lambda>_. []),
     ad_lens = [replicate 33 False, replicate 129 False]\<rparr>"

definition portDim_init :: portDim where
  "portDim_init = \<lparr>pd_any = [], pd_weird = [], pd_str = (\<lambda>_. []), pd_tree = (\<lambda>_. [])\<rparr>"

definition newCoverIndex :: coverIndex where
  "newCoverIndex = \<lparr>ifaceWild = [], ifaceEq = (\<lambda>_. []), protoWild = [], protoEq = (\<lambda>_. []),
     ci_src = addrDim_init, ci_dst = addrDim_init, ci_sport = portDim_init, ci_dport = portDim_init\<rparr>"

definition protoWildcard :: "string \<Rightarrow> bool" where
  "protoWildcard p \<longleftrightarrow> norm p \<in> {'''', ''any'', ''ip'', ''ip4'', ''ipv4''}"

definition ifaceWildcard :: "string \<Rightarrow> bool" where
  "ifaceWildcard a \<longleftrightarrow> norm a \<in> {'''', ''any'', ''all'', ''*''}"

definition pair :: "postings \<Rightarrow> postings \<Rightarrow> postings list" where
  "pair a b = (if length a > 0 then [a] else []) @ (if length b > 0 then [b] else [])"

definition dedupTail :: "postings \<Rightarrow> nat \<Rightarrow> postings" where
  "dedupTail l idx = (if length l > 0 \<and> last l = idx then butlast l else l)"

section \<open>The address dimension\<close>

fun addrDim_add_loop :: "nat \<Rightarrow> string list \<Rightarrow> addrDim \<Rightarrow> addrDim" where
  "addrDim_add_loop idx [] d = d"
| "addrDim_add_loop idx (a # addrs) d =
     (let s = norm a;
          d = d\<lparr>ad_str := (ad_str d)(s := dedupTail (ad_str d s) idx @ [idx])\<rparr>
      in case toNets [a] of
           [] \<Rightarrow> addrDim_add_loop idx addrs d
         | n # _ \<Rightarrow>
             (case normCIDR n of
                None \<Rightarrow> addrDim_add_loop idx addrs d
              | Some (ip, ones, fam) \<Rightarrow>
                  (let k = cidrKey ip ones fam;
                       d = d\<lparr>ad_net := (ad_net d)(k := dedupTail (ad_net d k) idx @ [idx])\<rparr>;
                       d = d\<lparr>ad_lens := (ad_lens d)[fam := (ad_lens d ! fam)[ones := True]]\<rparr>
                   in addrDim_add_loop idx addrs d)))"

definition addrDim_add :: "nat \<Rightarrow> string list \<Rightarrow> addrDim \<Rightarrow> addrDim" where
  "addrDim_add idx addrs d =
     (if anyAddr addrs then d\<lparr>ad_any := ad_any d @ [idx]\<rparr> else addrDim_add_loop idx addrs d)"

definition addrDim_query :: "addrDim \<Rightarrow> string list \<Rightarrow> postings list" where
  "addrDim_query d addrs =
     (if anyAddr addrs then pair (ad_any d) []
      else
        let be = hd addrs in
        case toNets [be] of
          [] \<Rightarrow> pair (ad_any d) (ad_str d (norm be))
        | n # _ \<Rightarrow>
            (case normCIDR n of
               None \<Rightarrow> pair (ad_any d) (ad_str d (norm be))
             | Some (ip, ones, fam) \<Rightarrow>
                 (if length (ad_any d) > 0 then [ad_any d] else []) @
                 concat (map (\<lambda>l.
                   if \<not> ad_lens d ! fam ! l then []
                   else let p = ad_net d (cidrKey ip l fam) in if length p > 0 then [p] else [])
                   [0..<ones + 1])))"

section \<open>The port dimension\<close>

definition portSpace :: nat where
  "portSpace = 65536"

text \<open>The loop of \<open>insertRange\<close>, on the half-open node interval it narrows level by level.\<close>

function insertRange_loop :: "nat \<Rightarrow> nat \<Rightarrow> nat \<Rightarrow> (nat, postings) zmap \<Rightarrow> (nat, postings) zmap" where
  "insertRange_loop idx lo hi tree =
     (if lo < hi then
        let (tree, lo) = (if odd lo then (tree(lo := dedupTail (tree lo) idx @ [idx]), lo + 1) else (tree, lo));
            (tree, hi) = (if odd hi then (tree(hi - 1 := dedupTail (tree (hi - 1)) idx @ [idx]), hi - 1) else (tree, hi))
        in insertRange_loop idx (lo div 2) (hi div 2) tree
      else tree)"
  by pat_completeness auto
termination
  by (relation "measure (\<lambda>(idx, lo, hi, tree). hi)") (auto split: if_splits)

declare insertRange_loop.simps [simp del]

definition insertRange :: "nat \<Rightarrow> int \<Rightarrow> int \<Rightarrow> portDim \<Rightarrow> portDim" where
  "insertRange idx l h d =
     d\<lparr>pd_tree := insertRange_loop idx (nat l + portSpace) (nat h + portSpace + 1) (pd_tree d)\<rparr>"

fun portDim_add_loop :: "nat \<Rightarrow> bool \<Rightarrow> string list \<Rightarrow> portDim \<Rightarrow> portDim" where
  "portDim_add_loop idx inWeird [] d = d"
| "portDim_add_loop idx inWeird (p # ports) d =
     (let s = norm p;
          d = d\<lparr>pd_str := (pd_str d)(s := dedupTail (pd_str d s) idx @ [idx])\<rparr>
      in case toRanges [p] of
           [] \<Rightarrow> portDim_add_loop idx inWeird ports d
         | r # _ \<Rightarrow>
             if r_lo r < 0 \<or> r_hi r \<ge> int portSpace \<or> r_lo r > r_hi r then
               (if \<not> inWeird then portDim_add_loop idx True ports (d\<lparr>pd_weird := pd_weird d @ [idx]\<rparr>)
                else portDim_add_loop idx inWeird ports d)
             else portDim_add_loop idx inWeird ports (insertRange idx (r_lo r) (r_hi r) d))"

definition portDim_add :: "nat \<Rightarrow> string list \<Rightarrow> portDim \<Rightarrow> portDim" where
  "portDim_add idx ports d =
     (if anyPort ports then d\<lparr>pd_any := pd_any d @ [idx]\<rparr> else portDim_add_loop idx False ports d)"

text \<open>The nodes from a leaf up to the root.\<close>

function node_path :: "nat \<Rightarrow> nat list" where
  "node_path node = (if node \<ge> 1 then node # node_path (node div 2) else [])"
  by pat_completeness auto
termination
  by (relation "measure id") auto

declare node_path.simps [simp del]

text \<open>\<open>None\<close> is \<open>constrained = false\<close>.\<close>

definition portDim_query :: "portDim \<Rightarrow> string list \<Rightarrow> postings list option" where
  "portDim_query d ports =
     (if anyPort ports then Some (pair (pd_any d) [])
      else
        let be = hd ports in
        case toRanges [be] of
          [] \<Rightarrow> Some (pair (pd_any d) (pd_str d (norm be)))
        | r # _ \<Rightarrow>
            if r_lo r > r_hi r then None
            else
              Some ((if length (pd_any d) > 0 then [pd_any d] else []) @
                    (if length (pd_weird d) > 0 then [pd_weird d] else []) @
                    (if r_lo r \<ge> 0 \<and> r_lo r < int portSpace then
                       concat (map (\<lambda>node. let l = pd_tree d node in if length l > 0 then [l] else [])
                         (node_path (portSpace + nat (r_lo r))))
                     else [])))"

section \<open>The index\<close>

definition coverIndex_add :: "nat \<Rightarrow> Rule \<Rightarrow> coverIndex \<Rightarrow> coverIndex" where
  "coverIndex_add idx r ix =
     (let ix = (if ifaceWildcard (rIface r) then ix\<lparr>ifaceWild := ifaceWild ix @ [idx]\<rparr>
                else let k = norm (rIface r) in ix\<lparr>ifaceEq := (ifaceEq ix)(k := ifaceEq ix k @ [idx])\<rparr>);
          ix = (if protoWildcard (rProto r) then ix\<lparr>protoWild := protoWild ix @ [idx]\<rparr>
                else let k = norm (rProto r) in ix\<lparr>protoEq := (protoEq ix)(k := protoEq ix k @ [idx])\<rparr>)
      in ix\<lparr>ci_src := addrDim_add idx (rSrcAddrs r) (ci_src ix),
            ci_dst := addrDim_add idx (rDstAddrs r) (ci_dst ix),
            ci_sport := portDim_add idx (rSrcPorts r) (ci_sport ix),
            ci_dport := portDim_add idx (rDstPorts r) (ci_dport ix)\<rparr>)"

text \<open>The binary search of \<open>sort.Search\<close>.\<close>

function search_loop :: "(nat \<Rightarrow> bool) \<Rightarrow> nat \<Rightarrow> nat \<Rightarrow> nat" where
  "search_loop f i j =
     (if i < j then
        let h = (i + j) div 2 in if \<not> f h then search_loop f (h + 1) j else search_loop f i h
      else i)"
  by pat_completeness auto
termination
  by (relation "measure (\<lambda>(f, i, j). j - i)") auto

declare search_loop.simps [simp del]

definition sort_Search :: "nat \<Rightarrow> (nat \<Rightarrow> bool) \<Rightarrow> nat" where
  "sort_Search n f = search_loop f 0 n"

fun seekDim_loop :: "postings list \<Rightarrow> nat \<Rightarrow> nat option \<Rightarrow> nat option" where
  "seekDim_loop [] x best = best"
| "seekDim_loop (l # ls) x best =
     (let k = sort_Search (length l) (\<lambda>i. l ! i \<ge> x) in
      if k < length l \<and> (case best of None \<Rightarrow> True | Some b \<Rightarrow> l ! k < b)
      then seekDim_loop ls x (Some (l ! k))
      else seekDim_loop ls x best)"

definition seekDim :: "postings list \<Rightarrow> nat \<Rightarrow> nat option" where
  "seekDim ls x = seekDim_loop ls x None"

text \<open>One round of the join over the dimensions: one has no posting left, one is ahead of \<open>x\<close>
  (the later ones are not asked), or all hold \<open>x\<close>.\<close>

datatype seek = Exhausted | Ahead nat | Aligned

fun seek_dims :: "postings list list \<Rightarrow> nat \<Rightarrow> seek" where
  "seek_dims [] x = Aligned"
| "seek_dims (d # dims) x =
     (case seekDim d x of
        None \<Rightarrow> Exhausted
      | Some v \<Rightarrow> if v > x then Ahead v else seek_dims dims x)"

text \<open>The answer of \<open>firstCoverer\<close>: a position, \<open>-1\<close>, or the panic of reading a rule out of range.\<close>

datatype coverer = Coverer nat | NoCoverer | IndexPanic

lemma search_loop_bounds: "i \<le> j \<Longrightarrow> i \<le> search_loop f i j \<and> search_loop f i j \<le> j"
proof (induction f i j rule: search_loop.induct)
  case (1 f i j)
  show ?case
  proof (cases "i < j")
    case True
    then have "i \<le> (i + j) div 2" "(i + j) div 2 < j" by auto
    then show ?thesis
      using True 1(1) [OF True refl] 1(2) [OF True refl]
      by (subst (1 2) search_loop.simps) (auto simp: Let_def)
  next
    case False
    with "1.prems" show ?thesis by (subst (1 2) search_loop.simps) simp
  qed
qed

lemma search_loop_sound: "i \<le> j \<Longrightarrow> search_loop f i j < j \<Longrightarrow> f (search_loop f i j)"
proof (induction f i j rule: search_loop.induct)
  case (1 f i j)
  define h where "h = (i + j) div 2"
  from 1(3,4) have lt: "i < j" by (cases "i = j") (auto simp: search_loop.simps [of f j j])
  then have h: "i \<le> h" "h < j" by (auto simp: h_def)
  have eq: "search_loop f i j = (if f h then search_loop f i h else search_loop f (h + 1) j)"
    using lt by (subst search_loop.simps) (simp add: h_def Let_def)
  show ?case
  proof (cases "f h")
    case True
    then show ?thesis
      using 1(2) [OF lt h_def] h eq search_loop_bounds [OF h(1), of f]
      by (cases "search_loop f i h = h") auto
  next
    case False
    then show ?thesis using 1(1) [OF lt h_def] "1.prems"(2) h eq by simp
  qed
qed

text \<open>For a predicate that stays true, nothing before the answer satisfies it.\<close>

lemma search_loop_before:
  assumes "\<And>a b. a \<le> b \<Longrightarrow> b < n \<Longrightarrow> f a \<Longrightarrow> f b"
  shows "i \<le> j \<Longrightarrow> j \<le> n \<Longrightarrow> i \<le> k \<Longrightarrow> k < search_loop f i j \<Longrightarrow> \<not> f k"
  using assms
proof (induction f i j rule: search_loop.induct)
  case (1 f i j)
  define h where "h = (i + j) div 2"
  from 1(3,5,6) have lt: "i < j" by (cases "i = j") (auto simp: search_loop.simps [of f j j])
  then have h: "i \<le> h" "h < j" by (auto simp: h_def)
  have eq: "search_loop f i j = (if f h then search_loop f i h else search_loop f (h + 1) j)"
    using lt by (subst search_loop.simps) (simp add: h_def Let_def)
  show ?case
  proof (cases "f h")
    case True
    then show ?thesis using 1(2) [OF lt h_def] h eq "1.prems" by simp
  next
    case False
    show ?thesis
    proof (cases "k \<le> h")
      case True
      then show ?thesis using False h "1.prems"(2,5) by (meson order.strict_trans2)
    next
      case g: False
      then show ?thesis using False 1(1) [OF lt h_def] h eq "1.prems" by simp
    qed
  qed
qed

lemma seekDim_loop_in:
  "seekDim_loop ls x best = Some v \<Longrightarrow> best = Some v \<or> (v \<ge> x \<and> (\<exists>l \<in> set ls. v \<in> set l))"
proof (induction ls arbitrary: best)
  case (Cons l ls)
  have "sort_Search (length l) (\<lambda>i. x \<le> l ! i) < length l \<Longrightarrow>
      x \<le> l ! sort_Search (length l) (\<lambda>i. x \<le> l ! i)"
    unfolding sort_Search_def by (rule search_loop_sound) simp
  with Cons show ?case by (fastforce simp: Let_def split: if_splits)
qed simp

lemma seek_dims_Ahead: "seek_dims dims x = Ahead v \<Longrightarrow> x < v \<and> v \<in> set (concat (concat dims))"
proof (induction dims)
  case (Cons d dims)
  then show ?case
    by (auto simp: seekDim_def split: option.splits if_splits dest!: seekDim_loop_in)
qed simp

text \<open>
  The leapfrog join. Every round either answers or raises the floor \<open>x\<close>, which stays below
  the largest posting and the number of rules.
\<close>

function leapfrog :: "postings list list \<Rightarrow> Rule list \<Rightarrow> Rule \<Rightarrow> nat \<Rightarrow> coverer" where
  "leapfrog dims rules ri x =
     (case seek_dims dims x of
        Exhausted \<Rightarrow> NoCoverer
      | Ahead v \<Rightarrow> leapfrog dims rules ri v
      | Aligned \<Rightarrow>
          if x < length rules then
            (if Covers (rules ! x) ri then Coverer x else leapfrog dims rules ri (x + 1))
          else IndexPanic)"
  by pat_completeness auto
termination
proof (relation "measure (\<lambda>(dims, rules, ri, x).
    Suc (length rules + sum_list (concat (concat dims))) - x)", goal_cases)
  case (2 dims rules ri x v)
  then have "x < v" and "v \<in> set (concat (concat dims))" by (auto dest: seek_dims_Ahead)
  then have "v \<le> sum_list (concat (concat dims))" by (simp add: member_le_sum_list)
  with \<open>x < v\<close> show ?case by simp
qed auto

declare leapfrog.simps [simp del]

definition dims_of :: "coverIndex \<Rightarrow> Rule \<Rightarrow> postings list list" where
  "dims_of ix ri =
     [pair (ifaceWild ix) (ifaceEq ix (norm (rIface ri))),
      pair (protoWild ix) (protoEq ix (norm (rProto ri))),
      addrDim_query (ci_src ix) (rSrcAddrs ri),
      addrDim_query (ci_dst ix) (rDstAddrs ri)] @
     (case portDim_query (ci_sport ix) (rSrcPorts ri) of Some l \<Rightarrow> [l] | None \<Rightarrow> []) @
     (case portDim_query (ci_dport ix) (rDstPorts ri) of Some l \<Rightarrow> [l] | None \<Rightarrow> [])"

definition firstCoverer :: "coverIndex \<Rightarrow> Rule list \<Rightarrow> Rule \<Rightarrow> coverer" where
  "firstCoverer ix rules ri =
     (let dims = dims_of ix ri in
      if \<exists>d \<in> set dims. length d = 0 then NoCoverer else leapfrog dims rules ri 0)"

end
