(* ===== verification/PostingDim.thy ===== *)
theory PostingDim
  imports CoverIndex
begin

text \<open>
  The interface between the cover index and its six dimensions, as a locale: what adding a rule
  does to the posting lists of a dimension, and that a query's lists hold every true coverer.
  The laws are proved for the model of each dimension: interface and protocol names, address
  lists, port lists. The first part is the correctness of the search and of the leapfrog join.
\<close>

section \<open>Lists of postings\<close>

definition in_dim :: "postings list \<Rightarrow> nat \<Rightarrow> bool" where
  "in_dim ls v \<longleftrightarrow> (\<exists>l \<in> set ls. v \<in> set l)"

definition sorted_dim :: "postings list \<Rightarrow> bool" where
  "sorted_dim ls \<longleftrightarrow> (\<forall>l \<in> set ls. sorted l)"

lemma in_dim_simps [simp]:
  "\<not> in_dim [] v" "in_dim (l # ls) v \<longleftrightarrow> v \<in> set l \<or> in_dim ls v"
  "in_dim (ls @ ms) v \<longleftrightarrow> in_dim ls v \<or> in_dim ms v"
  by (auto simp: in_dim_def)

lemma sorted_dim_simps [simp]: "sorted_dim []" "sorted_dim (l # ls) \<longleftrightarrow> sorted l \<and> sorted_dim ls"
  by (auto simp: sorted_dim_def)

lemma in_dim_concat [simp]: "in_dim (concat lss) v \<longleftrightarrow> (\<exists>ls \<in> set lss. in_dim ls v)"
  by (auto simp: in_dim_def)

lemma in_dim_if_pos [simp]: "in_dim (if l \<noteq> [] then [l] else []) v \<longleftrightarrow> v \<in> set l"
  by auto

lemma in_dim_pair [simp]: "in_dim (pair a b) v \<longleftrightarrow> v \<in> set a \<or> v \<in> set b"
  by (auto simp: pair_def)

lemma in_dim_not_Nil: "in_dim ls v \<Longrightarrow> ls \<noteq> []"
  by auto

section \<open>Seeking\<close>

lemma search_sorted:
  fixes l :: postings and x :: nat
  assumes "sorted l"
  defines "k \<equiv> sort_Search (length l) (\<lambda>i. l ! i \<ge> x)"
  shows "k < length l \<Longrightarrow> x \<le> l ! k \<and> (\<forall>w \<in> set l. x \<le> w \<longrightarrow> l ! k \<le> w)"
    and "\<not> k < length l \<Longrightarrow> \<forall>w \<in> set l. w < x"
proof -
  have kb: "k \<le> length l"
    using search_loop_bounds [of 0 "length l"] by (simp add: k_def sort_Search_def)
  have before: "l ! i < x" if "i < k" for i
  proof -
    have mono: "x \<le> l ! b" if "a \<le> b" "b < length l" "x \<le> l ! a" for a b
      using sorted_nth_mono [OF assms(1) that(1,2)] that(3) by simp
    have "\<not> x \<le> l ! i"
      by (rule search_loop_before [of "length l" "\<lambda>i. x \<le> l ! i" 0 "length l" i])
        (use that mono in \<open>auto simp: k_def sort_Search_def\<close>)
    then show ?thesis by simp
  qed
  {
    assume k: "k < length l"
    then have "x \<le> l ! k"
      using search_loop_sound [of 0 "length l" "\<lambda>i. x \<le> l ! i"]
      by (simp add: k_def sort_Search_def)
    moreover have "l ! k \<le> w" if w: "w \<in> set l" "x \<le> w" for w
    proof -
      from w obtain i where i: "i < length l" "w = l ! i" by (auto simp: in_set_conv_nth)
      with before w have "k \<le> i" by (meson not_le)
      then show ?thesis using sorted_nth_mono [OF assms(1)] i by auto
    qed
    ultimately show "x \<le> l ! k \<and> (\<forall>w \<in> set l. x \<le> w \<longrightarrow> l ! k \<le> w)" by blast
  }
  assume "\<not> k < length l"
  with kb before show "\<forall>w \<in> set l. w < x" by (auto simp: in_set_conv_nth)
qed

lemma seekDim_loop_spec:
  assumes "sorted_dim ls"
  shows "(seekDim_loop ls x best = None \<longrightarrow> best = None \<and> (\<forall>w. in_dim ls w \<longrightarrow> w < x)) \<and>
    (\<forall>m. seekDim_loop ls x best = Some m \<longrightarrow>
       (best = Some m \<or> x \<le> m \<and> in_dim ls m) \<and> (\<forall>b. best = Some b \<longrightarrow> m \<le> b) \<and>
       (\<forall>w. in_dim ls w \<longrightarrow> x \<le> w \<longrightarrow> m \<le> w))"
  using assms
proof (induction ls arbitrary: best)
  case (Cons l ls)
  define k where "k = sort_Search (length l) (\<lambda>i. l ! i \<ge> x)"
  from Cons.prems have sl: "sorted l" and sd: "sorted_dim ls" by auto
  note s = search_sorted [OF sl, of x, folded k_def]
  note IH = Cons.IH [OF sd]
  show ?case
  proof (cases "k < length l \<and> (case best of None \<Rightarrow> True | Some b \<Rightarrow> l ! k < b)")
    case True
    then have eq: "seekDim_loop (l # ls) x best = seekDim_loop ls x (Some (l ! k))"
      unfolding seekDim_loop.simps Let_def k_def [symmetric] by (rule if_P)
    have "l ! k \<in> set l" using True by simp
    with True s(1) IH [of "Some (l ! k)"] show ?thesis
      unfolding eq by (fastforce split: option.splits)
  next
    case False
    then have eq: "seekDim_loop (l # ls) x best = seekDim_loop ls x best"
      unfolding seekDim_loop.simps Let_def k_def [symmetric] by (rule if_not_P)
    show ?thesis
    proof (cases "k < length l")
      case True
      with False obtain b where b: "best = Some b" "b \<le> l ! k" by (auto split: option.splits)
      with True s(1) have "\<forall>w \<in> set l. x \<le> w \<longrightarrow> b \<le> w" by (meson order_trans)
      with b IH [of best] show ?thesis
        unfolding eq by (cases "seekDim_loop ls x best") (auto intro: order_trans)
    next
      case kl: False
      with s(2) IH [of best] show ?thesis unfolding eq by force
    qed
  qed
qed simp

lemma seekDim_spec:
  assumes "sorted_dim ls"
  shows "seekDim ls x = None \<Longrightarrow> in_dim ls w \<Longrightarrow> w < x"
    and "seekDim ls x = Some m \<Longrightarrow> x \<le> m \<and> in_dim ls m"
    and "seekDim ls x = Some m \<Longrightarrow> in_dim ls w \<Longrightarrow> x \<le> w \<Longrightarrow> m \<le> w"
  using seekDim_loop_spec [OF assms, of x None] unfolding seekDim_def by auto

section \<open>The join\<close>

definition in_all :: "postings list list \<Rightarrow> nat \<Rightarrow> bool" where
  "in_all dims v \<longleftrightarrow> (\<forall>d \<in> set dims. in_dim d v)"

lemma seek_dims_spec:
  assumes "\<forall>d \<in> set dims. sorted_dim d"
  shows "(seek_dims dims x = Exhausted \<longrightarrow> (\<forall>w \<ge> x. \<not> in_all dims w)) \<and>
    (\<forall>v. seek_dims dims x = Ahead v \<longrightarrow> (\<forall>w. x \<le> w \<longrightarrow> w < v \<longrightarrow> \<not> in_all dims w)) \<and>
    (seek_dims dims x = Aligned \<longrightarrow> in_all dims x)"
  using assms
proof (induction dims)
  case (Cons d dims)
  from Cons.prems(1) have sd: "sorted_dim d" "\<forall>d \<in> set dims. sorted_dim d" by auto
  note sp = seekDim_spec [OF sd(1), of x]
  have eq: "in_all (d # dims) w \<longleftrightarrow> in_dim d w \<and> in_all dims w" for w by (simp add: in_all_def)
  show ?case (is "?A \<and> ?B \<and> ?C")
  proof (cases "seekDim d x")
    case None
    then show ?thesis using sp(1) unfolding eq by fastforce
  next
    case (Some m)
    show ?thesis
    proof (cases "m > x")
      case True
      then show ?thesis using Some sp(3) [OF Some] unfolding eq by fastforce
    next
      case False
      with Some sp(2) have "m = x" "in_dim d x" by fastforce+
      then show ?thesis using Some Cons.IH [OF sd(2)] unfolding eq by simp
    qed
  qed
qed (simp add: in_all_def)

text \<open>The answer of the join: the least common posting from \<open>x\<close> on that passes the check.\<close>

definition least_coverer :: "(nat \<Rightarrow> bool) \<Rightarrow> nat \<Rightarrow> coverer \<Rightarrow> bool" where
  "least_coverer P x res \<longleftrightarrow>
     (case res of
        Coverer j \<Rightarrow> x \<le> j \<and> P j \<and> (\<forall>k. x \<le> k \<longrightarrow> k < j \<longrightarrow> \<not> P k)
      | NoCoverer \<Rightarrow> (\<forall>k \<ge> x. \<not> P k)
      | IndexPanic \<Rightarrow> False)"

lemma least_coverer_lower:
  assumes "least_coverer P v res" and "x \<le> v" and "\<And>w. x \<le> w \<Longrightarrow> w < v \<Longrightarrow> \<not> P w"
  shows "least_coverer P x res"
proof (cases res)
  case (Coverer j)
  with assms show ?thesis unfolding least_coverer_def by simp (meson leI order_trans)
next
  case NoCoverer
  with assms show ?thesis unfolding least_coverer_def by simp (meson leI)
next
  case IndexPanic
  with assms(1) show ?thesis by (simp add: least_coverer_def)
qed

lemma leapfrog_spec:
  assumes "\<forall>d \<in> set dims. sorted_dim d" and "dims \<noteq> []"
    and "\<And>v. in_all dims v \<Longrightarrow> v < length rules"
  shows "least_coverer (\<lambda>k. in_all dims k \<and> Covers (rules ! k) ri) x (leapfrog dims rules ri x)"
  using assms
proof (induction dims rules ri x rule: leapfrog.induct)
  case (1 dims rules ri x)
  note s = seek_dims_spec [OF "1.prems"(1), of x]
  let ?P = "least_coverer (\<lambda>k. in_all dims k \<and> Covers (rules ! k) ri)"
  show ?case
  proof (cases "seek_dims dims x")
    case Exhausted
    then show ?thesis using s by (subst leapfrog.simps) (auto simp: least_coverer_def)
  next
    case (Ahead v)
    then have "x < v" by (simp add: seek_dims_Ahead)
    have "?P v (leapfrog dims rules ri v)"
      using 1(1) [OF Ahead "1.prems"(1,2)] "1.prems"(3) by blast
    then have "?P x (leapfrog dims rules ri v)"
      by (rule least_coverer_lower) (use \<open>x < v\<close> s Ahead in auto)
    with Ahead show ?thesis by (subst leapfrog.simps) simp
  next
    case Aligned
    with s have all: "in_all dims x" by simp
    then have xl: "x < length rules" by (rule "1.prems"(3))
    show ?thesis
    proof (cases "Covers (rules ! x) ri")
      case True
      with all Aligned xl show ?thesis by (subst leapfrog.simps) (simp add: least_coverer_def)
    next
      case False
      have "?P (x + 1) (leapfrog dims rules ri (x + 1))"
        using 1(2) [OF Aligned xl False "1.prems"(1,2)] "1.prems"(3) by blast
      then have "?P x (leapfrog dims rules ri (x + 1))"
        by (rule least_coverer_lower) (use False le_neq_implies_less in \<open>auto simp: le_less_Suc_eq\<close>)
      with False Aligned xl show ?thesis by (subst leapfrog.simps) simp
    qed
  qed
qed

section \<open>The interface of a dimension\<close>

text \<open>
  A dimension keeps posting lists (\<open>posts\<close>). Adding the rule position \<open>idx\<close> with key \<open>k\<close>
  appends \<open>idx\<close> to some of them and changes no other; a query of a key answers some of them,
  or does not constrain. \<open>cov k q\<close> is the conjunct of \<open>Covers\<close> the dimension stands for, on the
  queries \<open>good q\<close>.
\<close>

locale posting_dim =
  fixes empty :: 'd
    and add :: "nat \<Rightarrow> 'k \<Rightarrow> 'd \<Rightarrow> 'd"
    and query :: "'d \<Rightarrow> 'k \<Rightarrow> postings list option"
    and posts :: "'d \<Rightarrow> postings set"
    and inv :: "'d \<Rightarrow> bool"
    and cov :: "'k \<Rightarrow> 'k \<Rightarrow> bool"
    and good :: "'k \<Rightarrow> bool"
  assumes inv_empty: "inv empty"
    and inv_add: "inv d \<Longrightarrow> inv (add i k d)"
    and posts_empty: "l \<in> posts empty \<Longrightarrow> l = []"
    and posts_add: "inv d \<Longrightarrow> \<forall>l0 \<in> posts d. i \<notin> set l0 \<Longrightarrow> l \<in> posts (add i k d) \<Longrightarrow>
      \<exists>l0 \<in> posts d. l = l0 \<or> l = l0 @ [i]"
    and query_posts: "query d q = Some ls \<Longrightarrow> set ls \<subseteq> posts d"
    and query_constrains: "query (add i k d) q = None \<longleftrightarrow> query d q = None"
    and add_found: "inv d \<Longrightarrow> cov k q \<Longrightarrow> good q \<Longrightarrow> query (add i k d) q = Some ls \<Longrightarrow> in_dim ls i"
    and add_keeps: "inv d \<Longrightarrow> query d q = Some ls \<Longrightarrow> in_dim ls j \<Longrightarrow>
      query (add i k d) q = Some ls' \<Longrightarrow> in_dim ls' j"
begin

text \<open>The dimension after adding a sequence of positions with their keys.\<close>

definition built :: "(nat \<times> 'k) list \<Rightarrow> 'd" where
  "built xs = fold (\<lambda>(i, k) d. add i k d) xs empty"

lemma built_simps [simp]: "built [] = empty" "built (xs @ [(i, k)]) = add i k (built xs)"
  by (simp_all add: built_def)

lemma built_inv: "inv (built xs)"
  by (induction xs rule: rev_induct) (auto intro: inv_empty inv_add)

lemma built_posts:
  assumes "sorted_wrt (<) (map fst xs)" and "l \<in> posts (built xs)"
  shows "sorted l \<and> set l \<subseteq> set (map fst xs)"
  using assms
proof (induction xs arbitrary: l rule: rev_induct)
  case Nil
  then show ?case using posts_empty by fastforce
next
  case (snoc x xs)
  obtain i k where x: "x = (i, k)" by (cases x)
  from snoc.prems(1) x have sx: "sorted_wrt (<) (map fst xs)" and lt: "\<forall>j \<in> set (map fst xs). j < i"
    by (auto simp: sorted_wrt_append)
  note IH = snoc.IH [OF sx]
  have "\<forall>l0 \<in> posts (built xs). i \<notin> set l0"
  proof (intro ballI notI)
    fix l0 assume l0: "l0 \<in> posts (built xs)" and "i \<in> set l0"
    with IH [OF l0] have "i \<in> set (map fst xs)" by (meson subsetD)
    with lt show False by blast
  qed
  moreover have "l \<in> posts (add i k (built xs))" using snoc.prems(2) x by simp
  ultimately obtain l0 where l0: "l0 \<in> posts (built xs)" "l = l0 \<or> l = l0 @ [i]"
    using posts_add [OF built_inv] by blast
  from IH [OF l0(1)] lt have "sorted (l0 @ [i])" by (auto simp: sorted_append intro: less_imp_le)
  with l0(2) IH [OF l0(1)] x show ?case by auto
qed

lemma built_query:
  assumes "sorted_wrt (<) (map fst xs)" and "query (built xs) q = Some ls"
  shows "sorted_dim ls" and "in_dim ls v \<Longrightarrow> v \<in> set (map fst xs)"
  using built_posts [OF assms(1)] query_posts [OF assms(2)]
  unfolding sorted_dim_def in_dim_def by blast+

lemma built_constrains: "query (built xs) q = None \<longleftrightarrow> query (built ys) q = None"
proof -
  have "query (built xs) q = None \<longleftrightarrow> query empty q = None" for xs
    by (induction xs rule: rev_induct) (auto simp: query_constrains split_paired_all)
  then show ?thesis by metis
qed

text \<open>Every coverer added is in the lists of the query.\<close>

lemma built_complete:
  assumes "(i, k) \<in> set xs" and "cov k q" and "good q" and "query (built xs) q = Some ls"
  shows "in_dim ls i"
  using assms
proof (induction xs arbitrary: ls rule: rev_induct)
  case (snoc x xs)
  obtain i' k' where x: "x = (i', k')" by (cases x)
  show ?case
  proof (cases "(i, k) = x")
    case True
    with snoc.prems x show ?thesis by (auto intro: add_found [OF built_inv])
  next
    case False
    with snoc.prems(1) have mem: "(i, k) \<in> set xs" by auto
    have "query (built xs) q \<noteq> None"
      using snoc.prems(4) built_constrains [of xs q "xs @ [x]"] by auto
    then obtain ls0 where ls0: "query (built xs) q = Some ls0" by auto
    then have "in_dim ls0 i" using snoc.IH [OF mem] snoc.prems by blast
    then show ?thesis using add_keeps [OF built_inv ls0] snoc.prems(4) x by auto
  qed
qed simp

end

end
