(* ===== verification/CoverDims.thy ===== *)
theory CoverDims
  imports PostingDim
begin

text \<open>
  The dimensions of the cover index (\<open>coverindex.go\<close>) meet the contract of \<open>PostingDim\<close>:
  names (interface and protocol), address lists and port lists. For addresses the contract holds
  on queries whose first element is not an IPv4-mapped IPv6 network, the others for all queries.
\<close>

section \<open>Extension of one posting list\<close>

definition ext :: "nat \<Rightarrow> postings \<Rightarrow> postings \<Rightarrow> bool" where
  "ext i l0 l \<longleftrightarrow> (i \<notin> set l0 \<longrightarrow> l = l0 \<or> l = l0 @ [i])"

lemma set_push [simp]: "insert i (set (dedupTail l i)) = insert i (set l)"
proof (cases "l = []")
  case False
  then have "set l = insert (last l) (set (butlast l))"
    by (metis append_butlast_last_id list.simps(15) rotate1.simps(2) set_rotate1)
  then show ?thesis by (auto simp: dedupTail_def)
qed (simp add: dedupTail_def)

lemma ext_refl [simp]: "ext i l l" and ext_snoc [simp]: "ext i l (l @ [i])"
  by (simp_all add: ext_def)

lemma ext_push: "ext i l0 l \<Longrightarrow> ext i l0 (dedupTail l i @ [i])"
  by (auto simp: ext_def dedupTail_def)

section \<open>Names\<close>

text \<open>The two lists of an interface or protocol name: the wild ones and the buckets.\<close>

type_synonym nameDim = "postings \<times> (string, postings) zmap"

definition name_empty :: nameDim where
  "name_empty = ([], \<lambda>_. [])"

definition name_add :: "(string \<Rightarrow> bool) \<Rightarrow> nat \<Rightarrow> string \<Rightarrow> nameDim \<Rightarrow> nameDim" where
  "name_add wild i k d =
     (if wild k then (fst d @ [i], snd d) else (fst d, (snd d)(norm k := snd d (norm k) @ [i])))"

definition name_query :: "nameDim \<Rightarrow> string \<Rightarrow> postings list option" where
  "name_query d q = Some (pair (fst d) (snd d (norm q)))"

definition name_posts :: "nameDim \<Rightarrow> postings set" where
  "name_posts d = insert [] (insert (fst d) (range (snd d)))"

locale name_dim =
  fixes wild :: "string \<Rightarrow> bool" and ncov :: "string \<Rightarrow> string \<Rightarrow> bool"
  assumes wild_or_equal: "ncov k q \<Longrightarrow> wild k \<or> norm k = norm q"

lemma name_query_in: "in_dim (pair (fst d) (snd d (norm q))) j \<longleftrightarrow> j \<in> set (fst d) \<or> j \<in> set (snd d (norm q))"
  by simp

lemma name_add_in:
  "set (fst d) \<subseteq> set (fst (name_add wild i k d))" "set (snd d s) \<subseteq> set (snd (name_add wild i k d) s)"
  by (auto simp: name_add_def)

lemma name_posts_add: "l \<in> name_posts (name_add wild i k d) \<Longrightarrow> \<exists>l0 \<in> name_posts d. l = l0 \<or> l = l0 @ [i]"
  by (auto simp: name_posts_def name_add_def split: if_splits)

sublocale name_dim \<subseteq> posting_dim name_empty "name_add wild" name_query name_posts "\<lambda>_. True" ncov "\<lambda>_. True"
proof (unfold_locales, goal_cases)
  case (4 d i l k)
  show ?case by (rule name_posts_add [OF 4(3)])
next
  case (5 d q ls)
  then show ?case by (auto simp: name_query_def name_posts_def pair_def)
next
  case (7 d k q i ls)
  with wild_or_equal [OF 7(2)] show ?case by (auto simp: name_query_def name_add_def)
next
  case (8 d q ls j i k ls')
  then show ?case
    using subsetD [OF name_add_in(1) [of d wild i k]] subsetD [OF name_add_in(2) [of d _ wild i k]]
    by (auto simp: name_query_def)
qed (auto simp: name_empty_def name_posts_def name_query_def)

lemma ifaceCovers_cases: "ifaceCovers a b \<longleftrightarrow> ifaceWildcard a \<or> norm a = norm b"
  by (auto simp: ifaceCovers_def ifaceWildcard_def Let_def)

lemma norm_lower: "ToLower a = ToLower b \<Longrightarrow> norm a = norm b"
  by (simp add: norm_def flip: TrimSpace_ToLower)

lemma protoCovers_cases: "protoCovers a b \<Longrightarrow> protoWildcard a \<or> norm a = norm b"
proof -
  assume "protoCovers a b"
  then have "ToLower a \<in> {'''', ''any'', ''ip'', ''ip4'', ''ipv4''} \<or> ToLower a = ToLower b"
    unfolding protoCovers_def Let_def insert_iff empty_iff by argo
  then consider "ToLower a \<in> {'''', ''any'', ''ip'', ''ip4'', ''ipv4''}" | "ToLower a = ToLower b"
    by blast
  then show ?thesis
  proof cases
    case 1
    have "norm a = TrimSpace (ToLower a)" by (simp add: norm_def TrimSpace_ToLower)
    moreover have "TrimSpace w = w" if "w \<in> {'''', ''any'', ''ip'', ''ip4'', ''ipv4''}" for w
      using that by (auto simp: TrimSpace_def trim_by_def is_space_def)
    ultimately show ?thesis using 1 by (auto simp: protoWildcard_def)
  next
    case 2
    then show ?thesis by (simp add: norm_lower [OF 2])
  qed
qed

interpretation ifaceDim: name_dim ifaceWildcard ifaceCovers
  by unfold_locales (simp add: ifaceCovers_cases)

interpretation protoDim: name_dim protoWildcard protoCovers
  by unfold_locales (rule protoCovers_cases)

section \<open>Addresses\<close>

definition net_entry :: "string \<Rightarrow> (ip \<times> nat \<times> nat) option" where
  "net_entry a = (case elem_net a of None \<Rightarrow> None | Some n \<Rightarrow> normCIDR n)"

lemma normCIDR_elem:
  "elem_net a = Some n \<Longrightarrow> net_entry a =
     (case prefix_of n of P4 b k \<Rightarrow> Some (IP4 b, k, 0) | P6 b k \<Rightarrow> Some (IP16 b, k, 1))"
  using normCIDR_prefix [OF elem_net_shape] by (simp add: net_entry_def)

lemma net_entry_bound: "net_entry a = Some (ip, ones, fam) \<Longrightarrow> fam = 0 \<and> ones \<le> 32 \<or> fam = 1 \<and> ones \<le> 128"
proof (cases "elem_net a")
  case (Some n)
  assume "net_entry a = Some (ip, ones, fam)"
  then show ?thesis using prefix_len_bound [OF elem_net_shape [OF Some]]
    by (cases "prefix_of n") (auto simp: normCIDR_elem [OF Some])
qed (simp add: net_entry_def)

text \<open>One round of the loop of \<open>addrDim.add\<close>.\<close>

definition addr_step :: "nat \<Rightarrow> string \<Rightarrow> addrDim \<Rightarrow> addrDim" where
  "addr_step i a d =
     (let d = d\<lparr>ad_str := (ad_str d)(norm a := dedupTail (ad_str d (norm a)) i @ [i])\<rparr>
      in case net_entry a of
           None \<Rightarrow> d
         | Some (ip, ones, fam) \<Rightarrow>
             d\<lparr>ad_net := (ad_net d)(cidrKey ip ones fam := dedupTail (ad_net d (cidrKey ip ones fam)) i @ [i]),
               ad_lens := (ad_lens d)[fam := (ad_lens d ! fam)[ones := True]]\<rparr>)"

lemma addrDim_add_loop_fold: "addrDim_add_loop i as d = fold (addr_step i) as d"
proof (induction as arbitrary: d)
  case (Cons a as)
  show ?case
    by (cases "elem_net a")
      (auto simp: Cons toNets_single addr_step_def net_entry_def Let_def split: option.splits)
qed simp

definition addr_inv :: "addrDim \<Rightarrow> bool" where
  "addr_inv d \<longleftrightarrow> length (ad_lens d) = 2 \<and> length (ad_lens d ! 0) = 33 \<and> length (ad_lens d ! 1) = 129"

definition addr_ext :: "nat \<Rightarrow> addrDim \<Rightarrow> addrDim \<Rightarrow> bool" where
  "addr_ext i d0 d \<longleftrightarrow> ext i (ad_any d0) (ad_any d) \<and> (\<forall>s. ext i (ad_str d0 s) (ad_str d s)) \<and>
     (\<forall>k. ext i (ad_net d0 k) (ad_net d k))"

text \<open>What grows: every list, and the lengths present.\<close>

definition addr_grows :: "addrDim \<Rightarrow> addrDim \<Rightarrow> bool" where
  "addr_grows d0 d \<longleftrightarrow> set (ad_any d0) \<subseteq> set (ad_any d) \<and>
     (\<forall>s. set (ad_str d0 s) \<subseteq> set (ad_str d s)) \<and> (\<forall>k. set (ad_net d0 k) \<subseteq> set (ad_net d k)) \<and>
     (\<forall>f < 2. \<forall>l < length (ad_lens d0 ! f). ad_lens d0 ! f ! l \<longrightarrow> ad_lens d ! f ! l)"

lemma addr_step_inv: "addr_inv d \<Longrightarrow> addr_inv (addr_step i a d)"
  by (auto simp: addr_inv_def addr_step_def Let_def nth_list_update dest: net_entry_bound split: option.splits)

lemma addr_step_ext: "addr_ext i d0 d \<Longrightarrow> addr_ext i d0 (addr_step i a d)"
  by (auto simp: addr_ext_def addr_step_def Let_def intro: ext_push split: option.splits)

lemma addr_step_grows: "addr_inv d \<Longrightarrow> addr_grows d (addr_step i a d)"
  using net_entry_bound [of a]
  by (auto simp: addr_grows_def addr_step_def addr_inv_def Let_def nth_list_update less_2_cases_iff
      split: option.splits)

lemma addr_grows_trans:
  assumes "addr_inv d0" and "addr_inv d1" and g: "addr_grows d0 d1" "addr_grows d1 d2"
  shows "addr_grows d0 d2"
proof -
  have "ad_lens d2 ! f ! l" if "f < 2" "l < length (ad_lens d0 ! f)" "ad_lens d0 ! f ! l" for f l
  proof -
    have "length (ad_lens d1 ! f) = length (ad_lens d0 ! f)"
      using assms(1,2) that(1) by (auto simp: addr_inv_def less_2_cases_iff)
    with that g show ?thesis by (simp add: addr_grows_def)
  qed
  with g show ?thesis unfolding addr_grows_def by (meson subset_trans)
qed

lemma addr_grows_refl [simp]: "addr_grows d d"
  by (simp add: addr_grows_def)

lemma addr_fold_inv: "addr_inv d \<Longrightarrow> addr_inv (fold (addr_step i) as d)"
  by (induction as arbitrary: d) (simp_all add: addr_step_inv)

lemma addr_fold_ext: "addr_ext i d0 d \<Longrightarrow> addr_ext i d0 (fold (addr_step i) as d)"
  by (induction as arbitrary: d) (simp_all add: addr_step_ext)

lemma addr_fold_grows: "addr_inv d \<Longrightarrow> addr_grows d (fold (addr_step i) as d)"
proof (induction as arbitrary: d)
  case (Cons a as)
  note inv = addr_step_inv [OF Cons.prems, of i a]
  show ?case
    using addr_grows_trans [OF Cons.prems inv addr_step_grows [OF Cons.prems] Cons.IH [OF inv]] by simp
qed simp

lemma addr_step_found:
  assumes "addr_inv d"
  shows "i \<in> set (ad_str (addr_step i a d) (norm a))"
    and "net_entry a = Some (ip, ones, fam) \<Longrightarrow> i \<in> set (ad_net (addr_step i a d) (cidrKey ip ones fam)) \<and>
      ad_lens (addr_step i a d) ! fam ! ones"
  using assms net_entry_bound [of a ip ones fam]
  by (auto simp: addr_step_def addr_inv_def Let_def split: option.splits)

lemma addr_fold_found:
  assumes "addr_inv d" and "a \<in> set as"
  shows "i \<in> set (ad_str (fold (addr_step i) as d) (norm a))"
    and "net_entry a = Some (ip, ones, fam) \<Longrightarrow>
      i \<in> set (ad_net (fold (addr_step i) as d) (cidrKey ip ones fam)) \<and>
      ad_lens (fold (addr_step i) as d) ! fam ! ones"
proof -
  from assms(2) obtain us vs where as: "as = us @ a # vs" by (meson split_list)
  define e where "e = addr_step i a (fold (addr_step i) us d)"
  have inv: "addr_inv (fold (addr_step i) us d)" using addr_fold_inv [OF assms(1)] .
  have "fold (addr_step i) as d = fold (addr_step i) vs e" by (simp add: as e_def)
  then have g: "addr_grows e (fold (addr_step i) as d)" and ei: "addr_inv e"
    using addr_fold_grows addr_step_inv [OF inv] by (simp_all add: e_def)
  show "i \<in> set (ad_str (fold (addr_step i) as d) (norm a))"
    using addr_step_found(1) [OF inv, of i a] g by (auto simp: e_def [symmetric] addr_grows_def)
  assume ne: "net_entry a = Some (ip, ones, fam)"
  have "fam < 2" "ones < length (ad_lens e ! fam)"
    using net_entry_bound [OF ne] ei by (auto simp: addr_inv_def)
  then show "i \<in> set (ad_net (fold (addr_step i) as d) (cidrKey ip ones fam)) \<and>
      ad_lens (fold (addr_step i) as d) ! fam ! ones"
    using addr_step_found(2) [OF inv ne, of i] g by (auto simp: e_def [symmetric] addr_grows_def)
qed

text \<open>The lists of a query, by the first element asked.\<close>

lemma query_any: "set (ad_any d) \<subseteq> Collect (in_dim (addrDim_query d q))"
  by (auto simp: addrDim_query_def Let_def split: list.splits option.splits)

lemma in_dim_probe:
  "in_dim (concat (map (\<lambda>l. if \<not> P l then [] else let p = f l in if length p > 0 then [p] else []) ls)) v \<longleftrightarrow>
     (\<exists>l \<in> set ls. P l \<and> v \<in> set (f l))"
  by (induction ls) (auto simp: Let_def)

lemma addrDim_query_in:
  assumes "\<not> anyAddr q"
  shows "in_dim (addrDim_query d q) v \<longleftrightarrow> v \<in> set (ad_any d) \<or>
     (case net_entry (hd q) of
        None \<Rightarrow> v \<in> set (ad_str d (norm (hd q)))
      | Some (ip, ones, fam) \<Rightarrow> \<exists>l \<le> ones. ad_lens d ! fam ! l \<and> v \<in> set (ad_net d (cidrKey ip l fam)))"
proof (cases "net_entry (hd q)")
  case None
  then show ?thesis using assms
    by (cases "elem_net (hd q)") (auto simp: addrDim_query_def toNets_single net_entry_def Let_def)
next
  case (Some e)
  obtain ip ones fam where e: "e = (ip, ones, fam)" by (cases e) auto
  from Some obtain n where n: "elem_net (hd q) = Some n" "normCIDR n = Some e"
    by (auto simp: net_entry_def split: option.splits)
  have "addrDim_query d q = (if ad_any d \<noteq> [] then [ad_any d] else []) @
      concat (map (\<lambda>l. if \<not> ad_lens d ! fam ! l then [] else
        let p = ad_net d (cidrKey ip l fam) in if length p > 0 then [p] else []) [0..<ones + 1])"
    using assms n e by (simp add: addrDim_query_def toNets_single Let_def)
  then show ?thesis using Some e
    by (simp add: in_dim_probe less_Suc_eq_le Bex_def del: upt_Suc in_dim_concat)
qed

definition addr_posts :: "addrDim \<Rightarrow> postings set" where
  "addr_posts d = insert [] (insert (ad_any d) (range (ad_str d) \<union> range (ad_net d)))"

definition addr_good :: "string list \<Rightarrow> bool" where
  "addr_good q \<longleftrightarrow> q = [] \<or> (case elem_net (hd q) of None \<Rightarrow> True | Some n \<Rightarrow> \<not> is_mapped n)"

text \<open>A key that covers the query is posted where the query looks.\<close>

lemma addr_found:
  assumes inv: "addr_inv d" and cov: "addrsCover k q" and good: "addr_good q"
  shows "in_dim (addrDim_query (addrDim_add i k d) q) i"
proof (cases "anyAddr k")
  case True
  then show ?thesis using query_any [of "addrDim_add i k d" q] by (auto simp: addrDim_add_def)
next
  case False
  define e where "e = fold (addr_step i) k d"
  have add: "addrDim_add i k d = e" using False by (simp add: addrDim_add_def addrDim_add_loop_fold e_def)
  from cov False have q: "\<not> anyAddr q" and covq: "\<forall>be \<in> set q. addr_covered k be"
    by (auto simp: addrsCover_iff)
  then have "q \<noteq> []" by (auto simp: anyAddr_iff)
  with covq have c: "addr_covered k (hd q)" by simp
  note found = addr_fold_found [OF inv, where i = i and as = k, folded e_def]
  show ?thesis
  proof (cases "elem_net (hd q)")
    case None
    with c obtain s where "s \<in> set k" "norm s = norm (hd q)" by (auto simp: addr_covered_def)
    with found(1) [of s] None show ?thesis by (simp add: add addrDim_query_in [OF q] net_entry_def)
  next
    case (Some n)
    with c obtain s m where s: "s \<in> set k" "elem_net s = Some m" "netContains m n"
      by (auto simp: addr_covered_def)
    have "\<not> is_mapped n" using good Some \<open>q \<noteq> []\<close> by (simp add: addr_good_def)
    with s Some have le: "prefix_le (prefix_of m) (prefix_of n)"
      by (intro netContains_prefix_le elem_net_shape)
    show ?thesis
    proof (cases "prefix_of m")
      case (P4 a l)
      with le obtain b j where b: "prefix_of n = P4 b j" "l \<le> j" "b AND cidr_mask l = a AND cidr_mask l"
        by (cases "prefix_of n") auto
      have "net_entry s = Some (IP4 a, l, 0)" using normCIDR_elem [OF s(2)] P4 by simp
      from found(2) [OF s(1) this] cidrKey_cong4 [OF b(3)] b(1,2) normCIDR_elem [OF Some]
      show ?thesis by (auto simp: add addrDim_query_in [OF q])
    next
      case (P6 a l)
      with le obtain b j where b: "prefix_of n = P6 b j" "l \<le> j" "b AND cidr_mask l = a AND cidr_mask l"
        by (cases "prefix_of n") auto
      have "net_entry s = Some (IP16 a, l, 1)" using normCIDR_elem [OF s(2)] P6 by simp
      from found(2) [OF s(1) this] cidrKey_cong6 [OF b(3)] b(1,2) normCIDR_elem [OF Some]
      show ?thesis by (auto simp: add addrDim_query_in [OF q])
    qed
  qed
qed

lemma addrDim_add_grows: "addr_inv d \<Longrightarrow> addr_grows d (addrDim_add i k d)"
  using addr_fold_grows by (auto simp: addrDim_add_def addrDim_add_loop_fold) (auto simp: addr_grows_def)

lemma addrDim_add_ext: "addr_inv d \<Longrightarrow> addr_ext i d (addrDim_add i k d)"
  using addr_fold_ext by (auto simp: addrDim_add_def addrDim_add_loop_fold) (auto simp: addr_ext_def)

lemma addrDim_add_inv: "addr_inv d \<Longrightarrow> addr_inv (addrDim_add i k d)"
  using addr_fold_inv by (auto simp: addrDim_add_def addrDim_add_loop_fold) (auto simp: addr_inv_def)

lemma addr_keeps:
  assumes "addr_inv d" and "in_dim (addrDim_query d q) v"
  shows "in_dim (addrDim_query (addrDim_add i k d) q) v"
proof (cases "anyAddr q")
  case True
  with assms(2) addrDim_add_grows [OF assms(1), of i k] show ?thesis
    by (auto simp: addrDim_query_def addr_grows_def)
next
  case False
  note g = addrDim_add_grows [OF assms(1), of i k]
  show ?thesis
  proof (cases "net_entry (hd q)")
    case None
    with assms(2) g show ?thesis by (auto simp: addrDim_query_in [OF False] addr_grows_def)
  next
    case (Some e)
    obtain ip ones fam where e: "e = (ip, ones, fam)" by (cases e) auto
    have "fam < 2" "ones < length (ad_lens d ! fam)"
      using net_entry_bound [OF Some [unfolded e]] assms(1) by (auto simp: addr_inv_def)
    with assms(2) g Some e show ?thesis
      by (simp add: addrDim_query_in [OF False] addr_grows_def) (meson le_less_trans subsetD)
  qed
qed

interpretation addressDim: posting_dim addrDim_init addrDim_add "\<lambda>d q. Some (addrDim_query d q)"
  addr_posts addr_inv addrsCover addr_good
proof (unfold_locales, goal_cases)
  case 1
  show ?case by (simp add: addr_inv_def addrDim_init_def)
next
  case (4 d i l k)
  then show ?case using addrDim_add_ext [OF 4(1), of i k]
    unfolding addr_posts_def addr_ext_def ext_def by auto
next
  case (5 d q ls)
  then show ?case
    by (auto simp: addrDim_query_def addr_posts_def pair_def Let_def split: list.splits option.splits if_splits)
qed (auto simp: addrDim_init_def addr_posts_def intro: addrDim_add_inv addr_found addr_keeps)

end
