(* ===== verification/PortDims.thy ===== *)
theory PortDims
  imports CoverDims
begin

text \<open>
  The port dimension of the cover index: the segment tree of \<open>insertRange\<close> writes nodes of the
  slice only, and for every port of the inserted range it posts the rule on the path from the
  port's leaf to the root, so the dimension meets the contract of \<open>PostingDim\<close>.
\<close>

section \<open>The segment tree\<close>

definition push_node :: "nat \<Rightarrow> nat \<Rightarrow> (nat, postings) zmap \<Rightarrow> (nat, postings) zmap" where
  "push_node idx n tree = tree(n := dedupTail (tree n) idx @ [idx])"

lemma push_node_in [simp]: "set (push_node i n t m) = (if m = n then insert i (set (t m)) else set (t m))"
  by (simp add: push_node_def)

lemma push_node_ext: "ext i (t0 m) (t m) \<Longrightarrow> ext i (t0 m) (push_node i n t m)"
  by (auto simp: push_node_def intro: ext_push)

text \<open>One level of the loop: the nodes written, the interval of the level above.\<close>

definition level_tree :: "nat \<Rightarrow> nat \<Rightarrow> nat \<Rightarrow> (nat, postings) zmap \<Rightarrow> (nat, postings) zmap" where
  "level_tree i l h t =
     (let t = (if odd l then push_node i l t else t) in if odd h then push_node i (h - 1) t else t)"

lemma level_ends:
  "(if odd l then l + 1 else l) div 2 = (l + 1) div 2" "(if odd h then h - 1 else h) div 2 = h div 2" for l h :: nat
  by presburger+

lemma insertRange_loop_level:
  "insertRange_loop i l h t =
     (if l < h then insertRange_loop i ((l + 1) div 2) (h div 2) (level_tree i l h t) else t)"
proof -
  have "insertRange_loop i l h t =
      (if l < h then insertRange_loop i ((if odd l then l + 1 else l) div 2) ((if odd h then h - 1 else h) div 2)
         (level_tree i l h t) else t)"
    unfolding insertRange_loop.simps [of i l h t]
    by (cases "odd l"; cases "odd h"; simp only: level_tree_def push_node_def Let_def prod.case if_True if_False simp_thms)
  then show ?thesis by (simp only: level_ends)
qed

lemma level_tree_in:
  "set (level_tree i l h t m) =
     (if odd l \<and> m = l \<or> odd h \<and> m = h - 1 then insert i (set (t m)) else set (t m))"
  by (auto simp: level_tree_def Let_def)

lemma level_tree_ext: "ext i (t0 m) (t m) \<Longrightarrow> ext i (t0 m) (level_tree i l h t m)"
  by (auto simp: level_tree_def Let_def intro: push_node_ext)

lemma insertRange_loop_ext: "ext i (t0 m) (t m) \<Longrightarrow> ext i (t0 m) (insertRange_loop i l h t m)"
proof (induction h arbitrary: l t rule: less_induct)
  case (less h)
  have "ext i (t0 m) (insertRange_loop i ((l + 1) div 2) (h div 2) (level_tree i l h t) m)" if "l < h"
    using that by (intro less.IH level_tree_ext less.prems) simp
  with less.prems show ?case by (subst insertRange_loop_level) simp
qed

lemma insertRange_loop_grows: "set (t m) \<subseteq> set (insertRange_loop i l h t m)"
proof (induction h arbitrary: l t rule: less_induct)
  case (less h)
  have "set (t m) \<subseteq> set (level_tree i l h t m)" by (auto simp: level_tree_in)
  also have "\<dots> \<subseteq> set (insertRange_loop i ((l + 1) div 2) (h div 2) (level_tree i l h t) m)" if "l < h"
    using that less.IH [of "h div 2"] by simp
  finally show ?case by (subst insertRange_loop_level) simp
qed

text \<open>Only nodes of the slice are written: none is 0 and none is beyond the interval's end.\<close>

lemma insertRange_nodes:
  assumes "1 \<le> l" and "insertRange_loop i l h t n \<noteq> t n"
  shows "1 \<le> n \<and> n < h"
  using assms
proof (induction h arbitrary: l t rule: less_induct)
  case (less h)
  from less.prems(2) have lh: "l < h" by (subst (asm) insertRange_loop_level) (simp split: if_splits)
  let ?t = "level_tree i l h t"
  show ?case
  proof (cases "?t n = t n")
    case True
    then have "insertRange_loop i ((l + 1) div 2) (h div 2) ?t n \<noteq> ?t n"
      using less.prems(2) lh by (subst (asm) insertRange_loop_level) simp
    then have "1 \<le> n \<and> n < h div 2"
      using lh less.prems(1) by (intro less.IH [of "h div 2" "(l + 1) div 2" ?t]) auto
    then show ?thesis by linarith
  next
    case False
    then have "n = l \<or> n = h - 1 \<and> odd h"
      by (auto simp: level_tree_def push_node_def Let_def split: if_splits)
    then show ?thesis using lh less.prems(1) by auto
  qed
qed

lemma level_inside:
  assumes "l \<le> p" and "p < h" and "\<not> (odd l \<and> p = l)" and "\<not> (odd h \<and> p = h - 1)"
  shows "(l + 1) div 2 \<le> p div 2" and "p div 2 < h div (2 :: nat)"
proof -
  show "(l + 1) div 2 \<le> p div 2"
  proof (cases "odd l")
    case True
    with assms(1,3) have "l + 1 \<le> p" by linarith
    then show ?thesis by (rule div_le_mono)
  next
    case False
    then have "(l + 1) div 2 = l div 2" by simp
    then show ?thesis using div_le_mono [OF assms(1)] by metis
  qed
  show "p div 2 < h div 2"
  proof (cases "odd h")
    case True
    then obtain k where "h = 2 * k + 1" by (elim oddE)
    then show ?thesis using assms(2,4) by auto
  next
    case False
    then obtain k where "h = 2 * k" by auto
    then show ?thesis using assms(2) by auto
  qed
qed

text \<open>Every leaf of the interval has the rule on its path to the root.\<close>

lemma insertRange_found:
  assumes "1 \<le> l" and "l \<le> p" and "p < h"
  shows "\<exists>n \<in> set (node_path p). i \<in> set (insertRange_loop i l h t n)"
  using assms
proof (induction h arbitrary: l p t rule: less_induct)
  case (less h)
  then have lh: "l < h" by simp
  let ?t = "level_tree i l h t"
  have eq: "insertRange_loop i l h t = insertRange_loop i ((l + 1) div 2) (h div 2) ?t"
    using lh by (subst insertRange_loop_level) simp
  have path: "node_path p = p # node_path (p div 2)"
    using less.prems by (subst node_path.simps) simp
  show ?case
  proof (cases "i \<in> set (?t p)")
    case True
    then have "i \<in> set (insertRange_loop i l h t p)"
      unfolding eq using insertRange_loop_grows by blast
    then show ?thesis unfolding path by simp
  next
    case False
    then have "\<not> (odd l \<and> p = l)" "\<not> (odd h \<and> p = h - 1)" unfolding level_tree_in by (meson insertI1)+
    then have "(l + 1) div 2 \<le> p div 2" and "p div 2 < h div 2"
      using level_inside less.prems(2,3) by blast+
    then have "\<exists>n \<in> set (node_path (p div 2)). i \<in> set (insertRange_loop i ((l + 1) div 2) (h div 2) ?t n)"
      using less.IH [of "h div 2" "(l + 1) div 2" "p div 2" ?t] less.prems by simp
    then show ?thesis unfolding path eq by auto
  qed
qed

section \<open>Adding and asking\<close>

definition port_posts :: "portDim \<Rightarrow> postings set" where
  "port_posts d = insert [] (insert (pd_any d) (insert (pd_weird d) (range (pd_str d) \<union> range (pd_tree d))))"

text \<open>A range outside the tree's domain, which the index keeps in the \<open>weird\<close> list.\<close>

definition weird_range :: "portRange \<Rightarrow> bool" where
  "weird_range r \<longleftrightarrow> r_lo r < 0 \<or> r_hi r \<ge> int portSpace \<or> r_lo r > r_hi r"

definition port_str :: "nat \<Rightarrow> string \<Rightarrow> portDim \<Rightarrow> portDim" where
  "port_str i p d = d\<lparr>pd_str := (pd_str d)(norm p := dedupTail (pd_str d (norm p)) i @ [i])\<rparr>"

text \<open>One round of the loop of \<open>portDim.add\<close>.\<close>

definition port_step :: "nat \<Rightarrow> string \<Rightarrow> bool \<times> portDim \<Rightarrow> bool \<times> portDim" where
  "port_step i p wd =
     (let d = port_str i p (snd wd) in
      case elem_range p of
        None \<Rightarrow> (fst wd, d)
      | Some r \<Rightarrow>
          if weird_range r then (True, if fst wd then d else d\<lparr>pd_weird := pd_weird d @ [i]\<rparr>)
          else (fst wd, insertRange i (r_lo r) (r_hi r) d))"

lemma portDim_add_loop_fold: "portDim_add_loop i w ps d = snd (fold (port_step i) ps (w, d))"
proof (induction ps arbitrary: w d)
  case (Cons p ps)
  show ?case
  proof (cases "elem_range p")
    case None
    then show ?thesis by (simp add: Cons toRanges_single port_step_def port_str_def Let_def)
  next
    case (Some r)
    then show ?thesis
      by (cases "weird_range r")
        (auto simp: Cons toRanges_single port_step_def port_str_def weird_range_def Let_def)
  qed
qed simp

text \<open>The lists grow by at most one posting of the rule added, the weird list at its first weird range.\<close>

definition port_ext :: "nat \<Rightarrow> portDim \<Rightarrow> bool \<times> portDim \<Rightarrow> bool" where
  "port_ext i d0 wd \<longleftrightarrow>
     pd_any (snd wd) = pd_any d0 \<and> (\<forall>s. ext i (pd_str d0 s) (pd_str (snd wd) s)) \<and>
     (\<forall>n. ext i (pd_tree d0 n) (pd_tree (snd wd) n)) \<and>
     pd_weird (snd wd) = pd_weird d0 @ (if fst wd then [i] else [])"

lemma port_step_ext: "port_ext i d0 wd \<Longrightarrow> port_ext i d0 (port_step i p wd)"
  by (auto simp: port_ext_def port_step_def port_str_def insertRange_def Let_def
      intro: ext_push insertRange_loop_ext split: option.splits)

lemma port_fold_ext: "port_ext i d0 wd \<Longrightarrow> port_ext i d0 (fold (port_step i) ps wd)"
  by (induction ps arbitrary: wd) (simp_all add: port_step_ext)

definition port_grows :: "portDim \<Rightarrow> portDim \<Rightarrow> bool" where
  "port_grows d0 d \<longleftrightarrow> set (pd_any d0) \<subseteq> set (pd_any d) \<and> set (pd_weird d0) \<subseteq> set (pd_weird d) \<and>
     (\<forall>s. set (pd_str d0 s) \<subseteq> set (pd_str d s)) \<and> (\<forall>n. set (pd_tree d0 n) \<subseteq> set (pd_tree d n))"

lemma port_grows_refl [simp]: "port_grows d d"
  by (simp add: port_grows_def)

lemma port_grows_trans: "port_grows d0 d1 \<Longrightarrow> port_grows d1 d2 \<Longrightarrow> port_grows d0 d2"
  unfolding port_grows_def by (meson subset_trans)

lemma port_step_grows: "port_grows (snd wd) (snd (port_step i p wd))"
  using insertRange_loop_grows
  by (auto simp: port_grows_def port_step_def port_str_def insertRange_def Let_def
      split: option.splits)

lemma port_fold_grows: "port_grows (snd wd) (snd (fold (port_step i) ps wd))"
proof (induction ps arbitrary: wd)
  case (Cons p ps)
  show ?case using port_grows_trans [OF port_step_grows Cons.IH] by simp
qed simp

text \<open>The flag of the loop says that the rule is in the weird list.\<close>

definition port_flag :: "nat \<Rightarrow> bool \<times> portDim \<Rightarrow> bool" where
  "port_flag i wd \<longleftrightarrow> (fst wd \<longrightarrow> i \<in> set (pd_weird (snd wd)))"

lemma port_step_flag: "port_flag i wd \<Longrightarrow> port_flag i (port_step i p wd)"
  by (auto simp: port_flag_def port_step_def port_str_def insertRange_def Let_def split: option.splits)

lemma port_fold_flag: "port_flag i wd \<Longrightarrow> port_flag i (fold (port_step i) ps wd)"
  by (induction ps arbitrary: wd) (simp_all add: port_step_flag)

lemma port_step_found:
  fixes p :: string
  assumes "port_flag i wd"
  defines "d \<equiv> snd (port_step i p wd)"
  shows "i \<in> set (pd_str d (norm p))"
    and "elem_range p = Some r \<Longrightarrow> weird_range r \<Longrightarrow> i \<in> set (pd_weird d)"
    and "elem_range p = Some r \<Longrightarrow> \<not> weird_range r \<Longrightarrow> r_lo r \<le> q \<Longrightarrow> q \<le> r_hi r \<Longrightarrow>
      \<exists>n \<in> set (node_path (portSpace + nat q)). i \<in> set (pd_tree d n)"
proof -
  show "i \<in> set (pd_str d (norm p))"
    by (auto simp: d_def port_step_def port_str_def insertRange_def Let_def split: option.splits)
  show "elem_range p = Some r \<Longrightarrow> weird_range r \<Longrightarrow> i \<in> set (pd_weird d)"
    using assms by (auto simp: d_def port_flag_def port_step_def port_str_def Let_def)
  assume r: "elem_range p = Some r" "\<not> weird_range r" "r_lo r \<le> q" "q \<le> r_hi r"
  then show "\<exists>n \<in> set (node_path (portSpace + nat q)). i \<in> set (pd_tree d n)"
    using insertRange_found [of "nat (r_lo r) + portSpace" "portSpace + nat q" "nat (r_hi r) + portSpace + 1"]
    by (simp add: d_def port_step_def insertRange_def Let_def weird_range_def portSpace_def)
qed

lemma port_fold_found:
  fixes p :: string
  assumes "port_flag i wd" and "p \<in> set ps"
  defines "d \<equiv> snd (fold (port_step i) ps wd)"
  shows "i \<in> set (pd_str d (norm p))"
    and "elem_range p = Some r \<Longrightarrow> weird_range r \<Longrightarrow> i \<in> set (pd_weird d)"
    and "elem_range p = Some r \<Longrightarrow> \<not> weird_range r \<Longrightarrow> r_lo r \<le> q \<Longrightarrow> q \<le> r_hi r \<Longrightarrow>
      \<exists>n \<in> set (node_path (portSpace + nat q)). i \<in> set (pd_tree d n)"
proof -
  from assms(2) obtain us vs where ps: "ps = us @ p # vs" by (meson split_list)
  define e where "e = port_step i p (fold (port_step i) us wd)"
  have "d = snd (fold (port_step i) vs e)" by (simp add: d_def ps e_def)
  then have g: "port_grows (snd e) d" by (simp add: port_fold_grows)
  note f = port_step_found [OF port_fold_flag [OF assms(1), of us], where p = p, folded e_def]
  show "i \<in> set (pd_str d (norm p))" using f(1) g by (auto simp: port_grows_def)
  show "elem_range p = Some r \<Longrightarrow> weird_range r \<Longrightarrow> i \<in> set (pd_weird d)"
    using f(2) g by (auto simp: port_grows_def)
  show "elem_range p = Some r \<Longrightarrow> \<not> weird_range r \<Longrightarrow> r_lo r \<le> q \<Longrightarrow> q \<le> r_hi r \<Longrightarrow>
      \<exists>n \<in> set (node_path (portSpace + nat q)). i \<in> set (pd_tree d n)"
    using f(3) g unfolding port_grows_def by blast
qed

lemma portDim_add_grows: "port_grows d (portDim_add i k d)"
  using port_fold_grows [of "(False, d)"]
  by (auto simp: portDim_add_def portDim_add_loop_fold) (auto simp: port_grows_def)

lemma portDim_add_posts:
  assumes "\<forall>l0 \<in> port_posts d. i \<notin> set l0" and "l \<in> port_posts (portDim_add i k d)"
  shows "\<exists>l0 \<in> port_posts d. l = l0 \<or> l = l0 @ [i]"
proof (cases "anyPort k")
  case True
  with assms(2) show ?thesis by (auto simp: portDim_add_def port_posts_def)
next
  case False
  have "port_ext i d (fold (port_step i) k (False, d))"
    by (rule port_fold_ext) (simp add: port_ext_def)
  with assms False show ?thesis
    unfolding portDim_add_def portDim_add_loop_fold port_ext_def ext_def port_posts_def
    by (auto split: if_splits)
qed

text \<open>The lists of a query, by the first element asked.\<close>

lemma portDim_query_in:
  assumes "portDim_query d q = Some ls"
  shows "in_dim ls v \<longleftrightarrow> v \<in> set (pd_any d) \<or>
     \<not> anyPort q \<and>
     (case elem_range (hd q) of
        None \<Rightarrow> v \<in> set (pd_str d (norm (hd q)))
      | Some r \<Rightarrow> v \<in> set (pd_weird d) \<or> 0 \<le> r_lo r \<and> r_lo r < int portSpace \<and>
          (\<exists>n \<in> set (node_path (portSpace + nat (r_lo r))). v \<in> set (pd_tree d n)))"
proof (cases "anyPort q")
  case True
  then show ?thesis using assms by (auto simp: portDim_query_def)
next
  case False
  have tree: "in_dim (concat (map (\<lambda>n. if pd_tree d n \<noteq> [] then [pd_tree d n] else []) ns)) v \<longleftrightarrow>
      (\<exists>n \<in> set ns. v \<in> set (pd_tree d n))" for ns
    by (induction ns) auto
  show ?thesis
  proof (cases "elem_range (hd q)")
    case None
    then show ?thesis using assms False by (auto simp: portDim_query_def toRanges_single Let_def)
  next
    case (Some r)
    then show ?thesis using assms False
      by (auto simp: portDim_query_def toRanges_single Let_def tree
          simp del: in_dim_concat split: if_splits)
  qed
qed

lemma port_found:
  assumes cov: "portsCover k q" and ls: "portDim_query (portDim_add i k d) q = Some ls"
  shows "in_dim ls i"
proof (cases "anyPort k")
  case True
  then show ?thesis by (simp add: portDim_query_in [OF ls]) (simp add: portDim_add_def)
next
  case False
  define e where "e = snd (fold (port_step i) k (False, d))"
  have add: "portDim_add i k d = e" using False by (simp add: portDim_add_def portDim_add_loop_fold e_def)
  from cov False have q: "\<not> anyPort q" and covq: "\<forall>be \<in> set q. port_covered k be"
    by (auto simp: portsCover_iff)
  then have "q \<noteq> []" by (auto simp: anyPort_iff)
  with covq have c: "port_covered k (hd q)" by simp
  have flag: "port_flag i (False, d)" by (simp add: port_flag_def)
  note found = port_fold_found [OF flag, where ps = k, folded e_def]
  note inq = portDim_query_in [OF ls, unfolded add]
  show ?thesis
  proof (cases "elem_range (hd q)")
    case None
    with c obtain s where "s \<in> set k" "norm s = norm (hd q)" by (auto simp: port_covered_def)
    with found(1) [of s] None q show ?thesis by (simp add: inq)
  next
    case (Some r)
    with c obtain s t where s: "s \<in> set k" "elem_range s = Some t" and le: "r_lo t \<le> r_lo r" "r_hi r \<le> r_hi t"
      by (auto simp: port_covered_def)
    have r: "r_lo r \<le> r_hi r"
      using ls q Some by (auto simp: portDim_query_def toRanges_single Let_def split: if_splits)
    show ?thesis
    proof (cases "weird_range t")
      case True
      with found(2) [OF s] Some q show ?thesis by (simp add: inq)
    next
      case False
      with le r have "0 \<le> r_lo r" "r_lo r < int portSpace" by (auto simp: weird_range_def)
      with found(3) [OF s False le(1)] le r Some q show ?thesis by (simp add: inq)
    qed
  qed
qed

lemma port_keeps:
  assumes "portDim_query d q = Some ls" and "in_dim ls v"
    and "portDim_query (portDim_add i k d) q = Some ls'"
  shows "in_dim ls' v"
  using assms(2) portDim_add_grows [of d i k]
  unfolding portDim_query_in [OF assms(1)] portDim_query_in [OF assms(3)] port_grows_def
  by (cases "elem_range (hd q)") (simp; blast)+

lemma portDim_query_posts: "portDim_query d q = Some ls \<Longrightarrow> set ls \<subseteq> port_posts d"
  by (auto simp: portDim_query_def port_posts_def pair_def Let_def split: list.splits if_splits)

interpretation portDims: posting_dim portDim_init portDim_add portDim_query port_posts
  "\<lambda>_. True" portsCover "\<lambda>_. True"
proof (unfold_locales, goal_cases)
  case (6 i k d q)
  show ?case by (auto simp: portDim_query_def Let_def split: list.splits if_splits)
next
  case (3 l)
  then show ?case by (auto simp: portDim_init_def port_posts_def)
qed (auto intro: portDim_add_posts port_found port_keeps dest: portDim_query_posts)

end
