(* ===== verification/FwAnalyze.thy ===== *)
theory FwAnalyze
  imports PortDims
begin

text \<open>
  Package \<open>fwrule\<close>, file \<open>analyze.go\<close>: the analysers of a rule base. The shadow and duplicate
  pass is modelled in both versions of the code, the one that asks the cover index and the
  quadratic reference the code keeps beside it. A run that reads a rule out of range is
  \<open>None\<close>. \<open>fmt.Sprintf\<close> of \<open>%d\<close> and \<open>%s\<close> is concatenation with \<open>Itoa\<close>.
\<close>

section \<open>Issues\<close>

record Issue =
  iCheck :: string
  iSeverity :: string
  iKey :: string
  iRuleIndex :: int
  iTitle :: string
  iDetail :: string
  iFix :: string

section \<open>Shadowed and duplicate rules\<close>

definition coverIssue :: "Rule \<Rightarrow> Rule \<Rightarrow> Issue" where
  "coverIssue rj ri =
     (if SameMatch rj ri \<and> rAction rj = rAction ri then
        \<lparr>iCheck = ''rule.duplicate'', iSeverity = ''low'', iKey = ''dup|'' @ MatchKey ri, iRuleIndex = rIndex ri,
         iTitle = ''Rule '' @ Itoa (rIndex ri) @ '' is a duplicate of rule '' @ Itoa (rIndex rj),
         iDetail = Summary ri @ ''  (identical to rule '' @ Itoa (rIndex rj) @ '')'',
         iFix = ''Remove rule '' @ Itoa (rIndex ri) @ '' '' @ em_dash @ '' it is identical to rule '' @
           Itoa (rIndex rj) @ ''.''\<rparr>
      else if rAction ri = Deny \<and> rAction rj = Allow then
        \<lparr>iCheck = ''rule.shadowed'', iSeverity = ''high'', iKey = ''shadow|'' @ MatchKey ri, iRuleIndex = rIndex ri,
         iTitle = ''Deny rule '' @ Itoa (rIndex ri) @ '' never applies '' @ em_dash @ '' shadowed by allow rule '' @
           Itoa (rIndex rj),
         iDetail = Summary ri @ ''  is covered by earlier '' @ Summary rj @ '' (rule '' @ Itoa (rIndex rj) @
           ''), so the deny never fires '' @ em_dash @ '' traffic you meant to block is allowed.'',
         iFix = ''Move deny rule '' @ Itoa (rIndex ri) @ '' above rule '' @ Itoa (rIndex rj) @
           '', or narrow rule '' @ Itoa (rIndex rj) @ ''.''\<rparr>
      else
        \<lparr>iCheck = ''rule.shadowed'', iSeverity = ''medium'', iKey = ''shadow|'' @ MatchKey ri, iRuleIndex = rIndex ri,
         iTitle = ''Rule '' @ Itoa (rIndex ri) @ '' is shadowed by rule '' @ Itoa (rIndex rj) @
           '' and can never match'',
         iDetail = Summary ri @ ''  is covered by earlier '' @ Summary rj @ '' (rule '' @ Itoa (rIndex rj) @ '').'',
         iFix = ''Remove rule '' @ Itoa (rIndex ri) @ '' (dead), or reorder if it was meant to take precedence.''\<rparr>)"

fun shadow_loop :: "Rule list \<Rightarrow> nat \<Rightarrow> Rule list \<Rightarrow> coverIndex \<Rightarrow> Issue list \<Rightarrow> Issue list option" where
  "shadow_loop rules i [] ix out = Some out"
| "shadow_loop rules i (ri # rest) ix out =
     (let ix' = (if rEnabled ri \<and> rAction ri \<noteq> Other \<and> \<not> rConditional ri then coverIndex_add i ri ix else ix)
      in if rEnabled ri then
           (case firstCoverer ix rules ri of
              Coverer j \<Rightarrow> shadow_loop rules (i + 1) rest ix' (out @ [coverIssue (rules ! j) ri])
            | NoCoverer \<Rightarrow> shadow_loop rules (i + 1) rest ix' out
            | IndexPanic \<Rightarrow> None)
         else shadow_loop rules (i + 1) rest ix' out)"

definition shadowAndDuplicate :: "Rule list \<Rightarrow> Issue list option" where
  "shadowAndDuplicate rules = shadow_loop rules 0 rules newCoverIndex []"

text \<open>The reference. The inner loop runs over the rules before the current one and stops at the
  first that covers it; its three issues are written out again in the code.\<close>

fun quad_inner :: "Rule \<Rightarrow> Rule list \<Rightarrow> Issue list" where
  "quad_inner ri [] = []"
| "quad_inner ri (rj # rjs) =
     (if \<not> rEnabled rj \<or> rAction rj = Other \<or> \<not> Covers rj ri then quad_inner ri rjs
      else if SameMatch rj ri \<and> rAction rj = rAction ri then
        [\<lparr>iCheck = ''rule.duplicate'', iSeverity = ''low'', iKey = ''dup|'' @ MatchKey ri, iRuleIndex = rIndex ri,
          iTitle = ''Rule '' @ Itoa (rIndex ri) @ '' is a duplicate of rule '' @ Itoa (rIndex rj),
          iDetail = Summary ri @ ''  (identical to rule '' @ Itoa (rIndex rj) @ '')'',
          iFix = ''Remove rule '' @ Itoa (rIndex ri) @ '' '' @ em_dash @ '' it is identical to rule '' @
            Itoa (rIndex rj) @ ''.''\<rparr>]
      else if rAction ri = Deny \<and> rAction rj = Allow then
        [\<lparr>iCheck = ''rule.shadowed'', iSeverity = ''high'', iKey = ''shadow|'' @ MatchKey ri, iRuleIndex = rIndex ri,
          iTitle = ''Deny rule '' @ Itoa (rIndex ri) @ '' never applies '' @ em_dash @ '' shadowed by allow rule '' @
            Itoa (rIndex rj),
          iDetail = Summary ri @ ''  is covered by earlier '' @ Summary rj @ '' (rule '' @ Itoa (rIndex rj) @
            ''), so the deny never fires '' @ em_dash @ '' traffic you meant to block is allowed.'',
          iFix = ''Move deny rule '' @ Itoa (rIndex ri) @ '' above rule '' @ Itoa (rIndex rj) @
            '', or narrow rule '' @ Itoa (rIndex rj) @ ''.''\<rparr>]
      else
        [\<lparr>iCheck = ''rule.shadowed'', iSeverity = ''medium'', iKey = ''shadow|'' @ MatchKey ri, iRuleIndex = rIndex ri,
          iTitle = ''Rule '' @ Itoa (rIndex ri) @ '' is shadowed by rule '' @ Itoa (rIndex rj) @
            '' and can never match'',
          iDetail = Summary ri @ ''  is covered by earlier '' @ Summary rj @ '' (rule '' @ Itoa (rIndex rj) @ '').'',
          iFix = ''Remove rule '' @ Itoa (rIndex ri) @ '' (dead), or reorder if it was meant to take precedence.''\<rparr>])"

fun quad_loop :: "Rule list \<Rightarrow> nat \<Rightarrow> Rule list \<Rightarrow> Issue list" where
  "quad_loop rules i [] = []"
| "quad_loop rules i (ri # rest) =
     (if \<not> rEnabled ri then quad_loop rules (i + 1) rest
      else quad_inner ri (take i rules) @ quad_loop rules (i + 1) rest)"

definition shadowAndDuplicateQuadratic :: "Rule list \<Rightarrow> Issue list" where
  "shadowAndDuplicateQuadratic rules = quad_loop rules 0 rules"

section \<open>Permissive rules\<close>

text \<open>The difference of two Go ints wraps at 64 bits.\<close>

definition int_sub :: "int \<Rightarrow> int \<Rightarrow> int" where
  "int_sub a b = sint (word_of_int (a - b) :: 64 word)"

fun wide_loop :: "portRange list \<Rightarrow> bool" where
  "wide_loop [] = False"
| "wide_loop (pr # prs) = (if int_sub (r_hi pr) (r_lo pr) > 1024 then True else wide_loop prs)"

definition widePortSpan :: "string list \<Rightarrow> bool" where
  "widePortSpan ports = wide_loop (toRanges ports)"

definition isPermissive :: "Rule \<Rightarrow> bool" where
  "isPermissive r \<longleftrightarrow> anyAddr (rSrcAddrs r) \<or> (anyAddr (rDstAddrs r) \<and> anyPort (rDstPorts r))"

definition permissive_rule :: "Rule \<Rightarrow> Issue list" where
  "permissive_rule r =
     (if \<not> rEnabled r \<or> rAction r \<noteq> Allow then []
      else if rConditional r \<or> loopback r then []
      else
        let srcAny = anyAddr (rSrcAddrs r); dstAny = anyAddr (rDstAddrs r); portAny = anyPort (rDstPorts r)
        in if srcAny \<and> dstAny \<and> portAny then
             [\<lparr>iCheck = ''rule.permissive'', iSeverity = ''high'', iKey = ''permit-anyany|'' @ MatchKey r,
               iRuleIndex = rIndex r,
               iTitle = ''Rule '' @ Itoa (rIndex r) @ '' allows any '' @ arrow @ '' any on all ports'',
               iDetail = Summary r,
               iFix = ''Restrict source, destination, and ports to what actually needs to communicate.''\<rparr>]
           else if srcAny then
             [\<lparr>iCheck = ''rule.permissive'', iSeverity = ''medium'', iKey = ''permit-anysrc|'' @ MatchKey r,
               iRuleIndex = rIndex r,
               iTitle = ''Rule '' @ Itoa (rIndex r) @ '' allows any source (0.0.0.0/0)'',
               iDetail = Summary r,
               iFix = ''Scope the source to the specific networks that need this access.''\<rparr>]
           else if widePortSpan (rDstPorts r) then
             [\<lparr>iCheck = ''rule.permissive'', iSeverity = ''medium'', iKey = ''permit-wideport|'' @ MatchKey r,
               iRuleIndex = rIndex r,
               iTitle = ''Rule '' @ Itoa (rIndex r) @ '' allows a wide destination port range'',
               iDetail = Summary r,
               iFix = ''Narrow the destination ports to the services actually in use.''\<rparr>]
           else [])"

fun permissive :: "Rule list \<Rightarrow> Issue list" where
  "permissive [] = []"
| "permissive (r # rs) = permissive_rule r @ permissive rs"

section \<open>Hygiene\<close>

definition hygiene_rule :: "Rule \<Rightarrow> Issue list" where
  "hygiene_rule r =
     (if \<not> rEnabled r then
        [\<lparr>iCheck = ''rule.hygiene'', iSeverity = ''low'', iKey = ''disabled|'' @ MatchKey r, iRuleIndex = rIndex r,
          iTitle = ''Rule '' @ Itoa (rIndex r) @ '' is disabled (dead weight)'', iDetail = Summary r,
          iFix = ''Remove it if it is no longer needed; disabled rules accumulate and confuse audits.''\<rparr>]
      else
        (if rAction r = Allow \<and> TrimSpace (rDesc r) = '''' then
           [\<lparr>iCheck = ''rule.hygiene'', iSeverity = ''low'', iKey = ''nodesc|'' @ MatchKey r, iRuleIndex = rIndex r,
             iTitle = ''Rule '' @ Itoa (rIndex r) @ '' (allow) has no description'', iDetail = Summary r,
             iFix = ''Add a description recording who added it, why, and when it can be removed.''\<rparr>]
         else []) @
        (if rAction r = Allow \<and> \<not> rConditional r \<and> \<not> loopback r \<and> isPermissive r \<and> \<not> rLog r then
           [\<lparr>iCheck = ''rule.hygiene'', iSeverity = ''medium'', iKey = ''nolog|'' @ MatchKey r, iRuleIndex = rIndex r,
             iTitle = ''Rule '' @ Itoa (rIndex r) @ '' is a broad allow with logging off'', iDetail = Summary r,
             iFix = ''Enable logging on broad allow rules so this traffic is auditable.''\<rparr>]
         else []))"

fun hygiene :: "Rule list \<Rightarrow> Issue list" where
  "hygiene [] = []"
| "hygiene (r # rs) = hygiene_rule r @ hygiene rs"

definition Analyze :: "Rule list \<Rightarrow> Issue list option" where
  "Analyze rules =
     (case shadowAndDuplicate rules of
        None \<Rightarrow> None
      | Some out \<Rightarrow> Some (out @ permissive rules @ hygiene rules))"

section \<open>Drift against a baseline\<close>

fun match_keys :: "Rule list \<Rightarrow> (string \<Rightarrow> bool) \<Rightarrow> (string \<Rightarrow> bool)" where
  "match_keys [] m = m"
| "match_keys (r # rs) m = match_keys rs (m(MatchKey r := True))"

fun drift_added :: "(string \<Rightarrow> bool) \<Rightarrow> Rule list \<Rightarrow> Issue list" where
  "drift_added base [] = []"
| "drift_added base (r # rs) =
     (if base (MatchKey r) then drift_added base rs
      else
        let (sev, widen) =
          (if rAction r = Allow then
             (if isPermissive r then (''high'', '' (widens access)'') else (''medium'', ''''))
           else (''low'', ''''))
        in \<lparr>iCheck = ''rule.drift'', iSeverity = sev, iKey = ''added|'' @ MatchKey r, iRuleIndex = rIndex r,
            iTitle = ''Drift: rule added '' @ em_dash @ '' '' @ Summary r @ widen,
            iDetail = ''Not present in the baseline.'',
            iFix = ''Confirm this addition was intended and change-controlled.''\<rparr> # drift_added base rs)"

fun drift_removed :: "(string \<Rightarrow> bool) \<Rightarrow> Rule list \<Rightarrow> Issue list" where
  "drift_removed cur [] = []"
| "drift_removed cur (r # rs) =
     (if cur (MatchKey r) then drift_removed cur rs
      else
        let (sev, widen) =
          (if rAction r = Deny then (''medium'', '' (removing a deny widens access)'') else (''low'', ''''))
        in \<lparr>iCheck = ''rule.drift'', iSeverity = sev, iKey = ''removed|'' @ MatchKey r, iRuleIndex = rIndex r,
            iTitle = ''Drift: rule removed '' @ em_dash @ '' '' @ Summary r @ widen,
            iDetail = ''Present in the baseline, gone from the current config.'',
            iFix = ''Confirm this removal was intended and change-controlled.''\<rparr> # drift_removed cur rs)"

definition Drift :: "Rule list \<Rightarrow> Rule list \<Rightarrow> Issue list" where
  "Drift baseline current =
     drift_added (match_keys baseline (\<lambda>_. False)) current @
     drift_removed (match_keys current (\<lambda>_. False)) baseline"

section \<open>Facts about the reference scan\<close>

text \<open>A rule that ends the evaluation of a packet it matches.\<close>

definition terminating :: "Rule \<Rightarrow> bool" where
  "terminating r \<longleftrightarrow> rEnabled r \<and> rAction r \<noteq> Other \<and> \<not> rConditional r"

text \<open>The first earlier rule that covers \<open>ri\<close>.\<close>

definition first_cover :: "Rule \<Rightarrow> Rule list \<Rightarrow> Rule option" where
  "first_cover ri rs = List.find (\<lambda>rj. terminating rj \<and> Covers rj ri) rs"

lemma quad_inner_skip: "\<not> rEnabled rj \<or> rAction rj = Other \<or> \<not> Covers rj ri \<Longrightarrow> quad_inner ri (rj # rs) = quad_inner ri rs"
  by (simp only: quad_inner.simps if_True)

lemma if_singleton: "(if a then [x] else if b then [y] else [z]) = [if a then x else if b then y else z]"
  by simp

lemma quad_inner_hit:
  assumes "\<not> (\<not> rEnabled rj \<or> rAction rj = Other \<or> \<not> Covers rj ri)"
  shows "quad_inner ri (rj # rs) = [coverIssue rj ri]"
  unfolding quad_inner.simps(2) if_not_P [OF assms] coverIssue_def
  by (rule if_singleton)

lemma quad_inner_first: "quad_inner ri rs = (case first_cover ri rs of None \<Rightarrow> [] | Some rj \<Rightarrow> [coverIssue rj ri])"
proof (induction rs)
  case (Cons rj rs)
  have iff: "\<not> (\<not> rEnabled rj \<or> rAction rj = Other \<or> \<not> Covers rj ri) \<longleftrightarrow> terminating rj \<and> Covers rj ri"
    by (auto simp: terminating_def Covers_iff)
  show ?case
  proof (cases "terminating rj \<and> Covers rj ri")
    case True
    then have "quad_inner ri (rj # rs) = [coverIssue rj ri]" using iff by (intro quad_inner_hit) blast
    with True show ?thesis by (simp add: first_cover_def del: quad_inner.simps)
  next
    case False
    then have "quad_inner ri (rj # rs) = quad_inner ri rs" using iff by (intro quad_inner_skip) blast
    moreover from False have "first_cover ri (rj # rs) = first_cover ri rs" by (auto simp: first_cover_def)
    ultimately show ?thesis by (simp only: Cons)
  qed
qed (simp add: first_cover_def)

declare quad_inner.simps(2) [simp del]

end
