(* ===== verification/ShadowCorrect.thy ===== *)
theory ShadowCorrect
  imports FwAnalyze
begin

text \<open>
  The shadow pass through the index gives what the quadratic pass gives. The index built from
  a prefix of the rules is six dimensions that meet the contract of \<open>PostingDim\<close>, so the join
  finds the least position that covers; this is the rule at which the reference's inner loop
  stops. The one assumption is that the first source and the first destination element of the
  rule asked about is not an IPv4-mapped IPv6 network; \<open>shadow_mapped_divergence\<close> shows that
  without it the two passes differ.
\<close>

section \<open>The index of a list of rules\<close>

definition index_of :: "(nat \<times> Rule) list \<Rightarrow> coverIndex" where
  "index_of xs = fold (\<lambda>(i, r). coverIndex_add i r) xs newCoverIndex"

lemma index_of_snoc: "index_of (xs @ [(i, r)]) = coverIndex_add i r (index_of xs)"
  by (simp add: index_of_def)

definition keyed :: "(Rule \<Rightarrow> 'k) \<Rightarrow> (nat \<times> Rule) list \<Rightarrow> (nat \<times> 'k) list" where
  "keyed f xs = map (\<lambda>(i, r). (i, f r)) xs"

lemma keyed_simps [simp]:
  "keyed f [] = []" "keyed f (xs @ [(i, r)]) = keyed f xs @ [(i, f r)]" "map fst (keyed f xs) = map fst xs"
  by (auto simp: keyed_def)

lemma keyed_in: "(i, r) \<in> set xs \<Longrightarrow> (i, f r) \<in> set (keyed f xs)"
  by (force simp: keyed_def)

lemma coverIndex_add_fields:
  "(ifaceWild (coverIndex_add i r ix), ifaceEq (coverIndex_add i r ix)) =
     name_add ifaceWildcard i (rIface r) (ifaceWild ix, ifaceEq ix)"
  "(protoWild (coverIndex_add i r ix), protoEq (coverIndex_add i r ix)) =
     name_add protoWildcard i (rProto r) (protoWild ix, protoEq ix)"
  "ci_src (coverIndex_add i r ix) = addrDim_add i (rSrcAddrs r) (ci_src ix)"
  "ci_dst (coverIndex_add i r ix) = addrDim_add i (rDstAddrs r) (ci_dst ix)"
  "ci_sport (coverIndex_add i r ix) = portDim_add i (rSrcPorts r) (ci_sport ix)"
  "ci_dport (coverIndex_add i r ix) = portDim_add i (rDstPorts r) (ci_dport ix)"
  by (auto simp: coverIndex_add_def name_add_def Let_def)

lemma index_of_fields:
  "(ifaceWild (index_of xs), ifaceEq (index_of xs)) = ifaceDim.built (keyed rIface xs)"
  "(protoWild (index_of xs), protoEq (index_of xs)) = protoDim.built (keyed rProto xs)"
  "ci_src (index_of xs) = addressDim.built (keyed rSrcAddrs xs)"
  "ci_dst (index_of xs) = addressDim.built (keyed rDstAddrs xs)"
  "ci_sport (index_of xs) = portDims.built (keyed rSrcPorts xs)"
  "ci_dport (index_of xs) = portDims.built (keyed rDstPorts xs)"
proof (induction xs rule: rev_induct)
  case Nil
  {
    case 1 show ?case by (simp add: index_of_def newCoverIndex_def flip: name_empty_def)
  next
    case 2 show ?case by (simp add: index_of_def newCoverIndex_def flip: name_empty_def)
  next
    case 3 show ?case by (simp add: index_of_def newCoverIndex_def)
  next
    case 4 show ?case by (simp add: index_of_def newCoverIndex_def)
  next
    case 5 show ?case by (simp add: index_of_def newCoverIndex_def)
  next
    case 6 show ?case by (simp add: index_of_def newCoverIndex_def)
  }
next
  case (snoc x xs)
  obtain i r where x: "x = (i, r)" by (cases x)
  {
    case 1 show ?case using snoc(1) by (simp add: x index_of_snoc coverIndex_add_fields)
  next
    case 2 show ?case using snoc(2) by (simp add: x index_of_snoc coverIndex_add_fields)
  next
    case 3 show ?case using snoc(3) by (simp add: x index_of_snoc coverIndex_add_fields)
  next
    case 4 show ?case using snoc(4) by (simp add: x index_of_snoc coverIndex_add_fields)
  next
    case 5 show ?case using snoc(5) by (simp add: x index_of_snoc coverIndex_add_fields)
  next
    case 6 show ?case using snoc(6) by (simp add: x index_of_snoc coverIndex_add_fields)
  }
qed

text \<open>The six answers of a query, as the queries of the six dimensions.\<close>

lemma dims_of_set:
  "d \<in> set (dims_of (index_of xs) ri) \<longleftrightarrow>
     name_query (ifaceDim.built (keyed rIface xs)) (rIface ri) = Some d \<or>
     name_query (protoDim.built (keyed rProto xs)) (rProto ri) = Some d \<or>
     Some (addrDim_query (addressDim.built (keyed rSrcAddrs xs)) (rSrcAddrs ri)) = Some d \<or>
     Some (addrDim_query (addressDim.built (keyed rDstAddrs xs)) (rDstAddrs ri)) = Some d \<or>
     portDim_query (portDims.built (keyed rSrcPorts xs)) (rSrcPorts ri) = Some d \<or>
     portDim_query (portDims.built (keyed rDstPorts xs)) (rDstPorts ri) = Some d"
  unfolding index_of_fields [symmetric]
  by (auto simp: dims_of_def name_query_def split: option.splits)

definition heads_unmapped :: "Rule \<Rightarrow> bool" where
  "heads_unmapped r \<longleftrightarrow> addr_good (rSrcAddrs r) \<and> addr_good (rDstAddrs r)"

lemma dims_of_sorted:
  assumes "sorted_wrt (<) (map fst xs)" and "d \<in> set (dims_of (index_of xs) ri)"
  shows "sorted_dim d" and "in_dim d v \<Longrightarrow> v \<in> set (map fst xs)"
proof -
  have "sorted_dim d \<and> (\<forall>v. in_dim d v \<longrightarrow> v \<in> set (map fst xs))"
    using assms(2) unfolding dims_of_set
    using ifaceDim.built_query [of "keyed rIface xs"] protoDim.built_query [of "keyed rProto xs"]
      addressDim.built_query [of "keyed rSrcAddrs xs"] addressDim.built_query [of "keyed rDstAddrs xs"]
      portDims.built_query [of "keyed rSrcPorts xs"] portDims.built_query [of "keyed rDstPorts xs"] assms(1)
    unfolding keyed_simps by (elim disjE) meson+
  then show "sorted_dim d" and "in_dim d v \<Longrightarrow> v \<in> set (map fst xs)" by blast+
qed

text \<open>Every rule added that covers the one asked about is in all dimensions.\<close>

lemma dims_of_complete:
  assumes "(i, r) \<in> set xs" and "Covers r ri" and "heads_unmapped ri"
  shows "in_all (dims_of (index_of xs) ri) i"
proof -
  note k = keyed_in [OF assms(1), where f = rIface] keyed_in [OF assms(1), where f = rProto]
    keyed_in [OF assms(1), where f = rSrcAddrs] keyed_in [OF assms(1), where f = rDstAddrs]
    keyed_in [OF assms(1), where f = rSrcPorts] keyed_in [OF assms(1), where f = rDstPorts]
  have c: "ifaceCovers (rIface r) (rIface ri)" "protoCovers (rProto r) (rProto ri)"
    "addrsCover (rSrcAddrs r) (rSrcAddrs ri)" "addrsCover (rDstAddrs r) (rDstAddrs ri)"
    "portsCover (rSrcPorts r) (rSrcPorts ri)" "portsCover (rDstPorts r) (rDstPorts ri)"
    using assms(2) by (simp_all add: Covers_def split: if_splits)
  have g: "addr_good (rSrcAddrs ri)" "addr_good (rDstAddrs ri)"
    using assms(3) by (simp_all add: heads_unmapped_def)
  note found = ifaceDim.built_complete [OF k(1) c(1) TrueI] protoDim.built_complete [OF k(2) c(2) TrueI]
    addressDim.built_complete [OF k(3) c(3) g(1)] addressDim.built_complete [OF k(4) c(4) g(2)]
    portDims.built_complete [OF k(5) c(5) TrueI] portDims.built_complete [OF k(6) c(6) TrueI]
  have "in_dim d i" if "d \<in> set (dims_of (index_of xs) ri)" for d
    using that unfolding dims_of_set by (elim disjE) (erule found)+
  then show ?thesis by (simp add: in_all_def)
qed

lemma dims_of_not_Nil: "dims_of ix ri \<noteq> []"
  by (simp add: dims_of_def)

section \<open>The search\<close>

text \<open>The rules of the first \<open>i\<close> that the pass has added.\<close>

definition added :: "Rule list \<Rightarrow> nat \<Rightarrow> (nat \<times> Rule) list" where
  "added rules i = filter (\<lambda>(j, r). terminating r) (map (\<lambda>j. (j, rules ! j)) [0..<i])"

lemma added_in: "(j, r) \<in> set (added rules i) \<longleftrightarrow> j < i \<and> r = rules ! j \<and> terminating r"
  by (auto simp: added_def)

lemma added_Suc:
  "added rules (i + 1) = added rules i @ (if terminating (rules ! i) then [(i, rules ! i)] else [])"
  by (simp add: added_def)

lemma added_sorted: "sorted_wrt (<) (map fst (added rules i))"
proof (induction i)
  case (Suc i)
  have "\<forall>j \<in> set (map fst (added rules i)). j < i" by (auto simp: added_in)
  with Suc show ?case using added_Suc [of rules i] by (simp add: sorted_wrt_append)
qed (simp add: added_def)

text \<open>The position of the first earlier rule that covers \<open>ri\<close>: the answer of the index, which never
  reads a rule out of range.\<close>

lemma dims_of_in_added:
  assumes "in_all (dims_of (index_of (added rules i)) ri) v"
  shows "v \<in> set (map fst (added rules i))"
  using assms dims_of_sorted(2) [OF added_sorted] dims_of_not_Nil [of "index_of (added rules i)" ri]
  unfolding in_all_def by (metis list.set_intros(1) neq_Nil_conv)

lemma firstCoverer_dims:
  assumes "i \<le> length rules"
  shows "least_coverer (\<lambda>k. in_all (dims_of (index_of (added rules i)) ri) k \<and> Covers (rules ! k) ri) 0
    (firstCoverer (index_of (added rules i)) rules ri)"
proof -
  let ?dims = "dims_of (index_of (added rules i)) ri"
  have "least_coverer (\<lambda>k. in_all ?dims k \<and> Covers (rules ! k) ri) 0 (leapfrog ?dims rules ri 0)"
  proof (rule leapfrog_spec)
    show "\<forall>d \<in> set ?dims. sorted_dim d" using dims_of_sorted(1) [OF added_sorted] by blast
    show "v < length rules" if "in_all ?dims v" for v
      using dims_of_in_added [OF that] assms(1) by (auto simp: added_in)
  qed (rule dims_of_not_Nil)
  moreover have "\<not> in_all ?dims k" if "\<exists>d \<in> set ?dims. length d = 0" for k
  proof -
    from that have "[] \<in> set ?dims" by simp
    then show ?thesis unfolding in_all_def by (metis in_dim_simps(1))
  qed
  ultimately show ?thesis by (auto simp: firstCoverer_def Let_def least_coverer_def)
qed

lemma firstCoverer_least:
  assumes "i \<le> length rules" and "heads_unmapped ri"
  shows "least_coverer (\<lambda>k. k < i \<and> terminating (rules ! k) \<and> Covers (rules ! k) ri) 0
    (firstCoverer (index_of (added rules i)) rules ri)"
proof -
  have "(\<lambda>k. in_all (dims_of (index_of (added rules i)) ri) k \<and> Covers (rules ! k) ri) =
      (\<lambda>k. k < i \<and> terminating (rules ! k) \<and> Covers (rules ! k) ri)"
    using dims_of_in_added dims_of_complete [OF _ _ assms(2)] by (fastforce simp: added_in)
  then show ?thesis using firstCoverer_dims [OF assms(1), of ri] by metis
qed

text \<open>Without the assumption on the rule asked about, the answer is still an earlier terminating
  rule that covers it.\<close>

lemma firstCoverer_sound:
  assumes "i \<le> length rules"
  shows "firstCoverer (index_of (added rules i)) rules ri \<noteq> IndexPanic"
    and "firstCoverer (index_of (added rules i)) rules ri = Coverer j \<Longrightarrow>
      j < i \<and> terminating (rules ! j) \<and> Covers (rules ! j) ri"
  using firstCoverer_dims [OF assms, of ri] dims_of_in_added
  by (fastforce simp: least_coverer_def added_in)+

lemma find_take_least:
  assumes "least_coverer (\<lambda>k. k < i \<and> P (rules ! k)) 0 res" and "i \<le> length rules"
  shows "res = (case List.find P (take i rules) of None \<Rightarrow> NoCoverer | Some r \<Rightarrow> res) \<and>
    (case List.find P (take i rules) of None \<Rightarrow> True | Some r \<Rightarrow> \<exists>j. res = Coverer j \<and> rules ! j = r)"
proof (cases res)
  case (Coverer j)
  with assms have j: "j < i" "P (rules ! j)" "\<And>k. k < j \<Longrightarrow> \<not> P (rules ! k)"
    by (auto simp: least_coverer_def)
  with assms(2) have "List.find P (take i rules) = Some (rules ! j)"
    by (auto simp: find_Some_iff intro!: exI [of _ j])
  with Coverer show ?thesis by simp
next
  case NoCoverer
  with assms have "\<forall>k < i. \<not> P (rules ! k)" by (auto simp: least_coverer_def)
  with assms(2) have "List.find P (take i rules) = None"
    by (auto simp: find_None_iff in_set_conv_nth)
  with NoCoverer show ?thesis by simp
next
  case IndexPanic
  with assms(1) show ?thesis by (simp add: least_coverer_def)
qed

section \<open>The two passes\<close>

lemma drop_Cons:
  assumes "drop i rules = ri # rest"
  shows "i < length rules" and "ri = rules ! i" and "drop (i + 1) rules = rest"
  using assms
  by (metis drop_all linorder_not_less list.distinct(1), metis nth_via_drop,
      metis Suc_eq_plus1 drop_Suc list.sel(3) tl_drop)

lemma added_step:
  assumes "ri = rules ! i"
  shows "(if rEnabled ri \<and> rAction ri \<noteq> Other \<and> \<not> rConditional ri
      then coverIndex_add i ri (index_of (added rules i)) else index_of (added rules i)) =
      index_of (added rules (i + 1))"
  unfolding terminating_def [symmetric] added_Suc by (simp add: assms index_of_snoc)

text \<open>On any rules, the pass returns, and what it reports has a coverer among the earlier rules.\<close>

definition genuine :: "Rule list \<Rightarrow> Issue \<Rightarrow> bool" where
  "genuine rules issue \<longleftrightarrow>
     (\<exists>i < length rules. \<exists>j < i. rEnabled (rules ! i) \<and> terminating (rules ! j) \<and>
        Covers (rules ! j) (rules ! i) \<and> issue = coverIssue (rules ! j) (rules ! i))"

lemma shadow_loop_genuine:
  assumes "drop i rules = rest" and "\<forall>issue \<in> set out. genuine rules issue"
  shows "\<exists>issues. shadow_loop rules i rest (index_of (added rules i)) out = Some issues \<and>
    (\<forall>issue \<in> set issues. genuine rules issue)"
  using assms
proof (induction rest arbitrary: i out)
  case (Cons ri rest)
  note d = drop_Cons [OF Cons.prems(1)]
  note ix = added_step [OF d(2)]
  note IH = Cons.IH [OF d(3)]
  note fc = firstCoverer_sound [OF less_imp_le [OF d(1)], of ri]
  show ?case
  proof (cases "rEnabled ri")
    case True
    show ?thesis
    proof (cases "firstCoverer (index_of (added rules i)) rules ri")
      case (Coverer j)
      with fc d True have "genuine rules (coverIssue (rules ! j) ri)"
        unfolding genuine_def by blast
      then have "\<forall>issue \<in> set (out @ [coverIssue (rules ! j) ri]). genuine rules issue"
        using Cons.prems(2) by simp
      from IH [OF this] Coverer True show ?thesis unfolding shadow_loop.simps Let_def ix by simp
    next
      case NoCoverer
      from IH [OF Cons.prems(2)] NoCoverer True show ?thesis unfolding shadow_loop.simps Let_def ix by simp
    qed (use fc in blast)
  next
    case False
    from IH [OF Cons.prems(2)] False show ?thesis unfolding shadow_loop.simps Let_def ix by simp
  qed
qed simp

lemma newCoverIndex_index_of: "newCoverIndex = index_of (added rules 0)"
  by (simp add: added_def index_of_def)

lemma shadow_genuine:
  "\<exists>issues. shadowAndDuplicate rules = Some issues \<and> (\<forall>issue \<in> set issues. genuine rules issue)"
  unfolding shadowAndDuplicate_def newCoverIndex_index_of [of rules]
  by (rule shadow_loop_genuine) simp_all

lemma shadow_loop_quad:
  assumes "drop i rules = rest" and "\<forall>r \<in> set rest. rEnabled r \<longrightarrow> heads_unmapped r"
  shows "shadow_loop rules i rest (index_of (added rules i)) out = Some (out @ quad_loop rules i rest)"
  using assms
proof (induction rest arbitrary: i out)
  case (Cons ri rest)
  note i = drop_Cons(1) [OF Cons.prems(1)] and ri = drop_Cons(2) [OF Cons.prems(1)]
    and dr = drop_Cons(3) [OF Cons.prems(1)]
  note ix = added_step [OF ri]
  note IH = Cons.IH [OF dr, simplified]
  have good: "\<forall>r \<in> set rest. rEnabled r \<longrightarrow> heads_unmapped r" using Cons.prems(2) by simp
  show ?case
  proof (cases "rEnabled ri")
    case True
    then have "heads_unmapped ri" using Cons.prems(2) by simp
    note find = find_take_least [OF firstCoverer_least [OF less_imp_le [OF i] this] less_imp_le [OF i],
        folded first_cover_def]
    show ?thesis
    proof (cases "first_cover ri (take i rules)")
      case None
      with find have "firstCoverer (index_of (added rules i)) rules ri = NoCoverer" by simp
      with True None show ?thesis
        unfolding shadow_loop.simps quad_loop.simps Let_def ix by (simp add: quad_inner_first IH [OF good])
    next
      case (Some rj)
      with find obtain j where "firstCoverer (index_of (added rules i)) rules ri = Coverer j" "rules ! j = rj"
        by auto
      with True Some show ?thesis
        unfolding shadow_loop.simps quad_loop.simps Let_def ix by (simp add: quad_inner_first IH [OF good])
    qed
  next
    case False
    then show ?thesis unfolding shadow_loop.simps quad_loop.simps Let_def ix by (simp add: IH [OF good])
  qed
qed simp

lemma shadow_pass:
  assumes "\<forall>r \<in> set rules. rEnabled r \<longrightarrow> heads_unmapped r"
  shows "shadowAndDuplicate rules = Some (shadowAndDuplicateQuadratic rules)"
  using shadow_loop_quad [of 0 rules rules "[]"] assms
  by (simp add: shadowAndDuplicate_def shadowAndDuplicateQuadratic_def newCoverIndex_index_of [of rules])

end
