(* ===== verification/FwSemantics.thy ===== *)
theory FwSemantics
  imports ShadowCorrect
begin

text \<open>
  What a rule base does to a packet, and what the analysers' answers say about that. The
  semantics is the abstract specification of \<open>Rule\<close>: the first enabled terminating rule that
  matches decides. Names that stand for objects the parser did not resolve, and the condition
  of a rule marked conditional, are parameters.
\<close>

section \<open>Packets\<close>

record packet =
  p_src :: ip
  p_dst :: ip
  p_proto :: string
  p_sport :: int
  p_dport :: int
  p_iface :: string

text \<open>The meaning of unresolved names (by their normal form) and of conditional rules.\<close>

record fw_env =
  e_addr :: "string \<Rightarrow> ip \<Rightarrow> bool"
  e_port :: "string \<Rightarrow> int \<Rightarrow> bool"
  e_cond :: "Rule \<Rightarrow> packet \<Rightarrow> bool"

definition addr_matches :: "fw_env \<Rightarrow> string \<Rightarrow> ip \<Rightarrow> bool" where
  "addr_matches env a x =
     (case elem_net a of None \<Rightarrow> e_addr env (norm a) x | Some n \<Rightarrow> net_has n x)"

definition addrs_match :: "fw_env \<Rightarrow> string list \<Rightarrow> ip \<Rightarrow> bool" where
  "addrs_match env as x \<longleftrightarrow> anyAddr as \<or> list_ex (\<lambda>a. addr_matches env a x) as"

definition port_matches :: "fw_env \<Rightarrow> string \<Rightarrow> int \<Rightarrow> bool" where
  "port_matches env p x =
     (case elem_range p of None \<Rightarrow> e_port env (norm p) x | Some r \<Rightarrow> r_lo r \<le> x \<and> x \<le> r_hi r)"

definition ports_match :: "fw_env \<Rightarrow> string list \<Rightarrow> int \<Rightarrow> bool" where
  "ports_match env ps x \<longleftrightarrow> anyPort ps \<or> list_ex (\<lambda>p. port_matches env p x) ps"

definition proto_matches :: "string \<Rightarrow> string \<Rightarrow> bool" where
  "proto_matches p x \<longleftrightarrow> ToLower p \<in> {'''', ''any'', ''ip'', ''ip4'', ''ipv4''} \<or> ToLower p = x"

definition iface_matches :: "string \<Rightarrow> string \<Rightarrow> bool" where
  "iface_matches i x \<longleftrightarrow> ifaceWildcard i \<or> norm i = x"

definition rule_matches :: "fw_env \<Rightarrow> Rule \<Rightarrow> packet \<Rightarrow> bool" where
  "rule_matches env r p \<longleftrightarrow>
     rEnabled r \<and> (rConditional r \<longrightarrow> e_cond env r p) \<and>
     iface_matches (rIface r) (p_iface p) \<and> proto_matches (rProto r) (p_proto p) \<and>
     addrs_match env (rSrcAddrs r) (p_src p) \<and> addrs_match env (rDstAddrs r) (p_dst p) \<and>
     ports_match env (rSrcPorts r) (p_sport p) \<and> ports_match env (rDstPorts r) (p_dport p)"

text \<open>The first matching rule that terminates decides; a log or unknown action falls through.\<close>

fun decide :: "fw_env \<Rightarrow> Action \<Rightarrow> Rule list \<Rightarrow> packet \<Rightarrow> Action" where
  "decide env policy [] p = policy"
| "decide env policy (r # rs) p =
     (if rule_matches env r p \<and> rAction r \<noteq> Other then rAction r else decide env policy rs p)"

section \<open>Coverage is containment of matches\<close>

definition unmapped_elem :: "string \<Rightarrow> bool" where
  "unmapped_elem a = (case elem_net a of None \<Rightarrow> True | Some n \<Rightarrow> \<not> is_mapped n)"

definition unmapped_rule :: "Rule \<Rightarrow> bool" where
  "unmapped_rule r \<longleftrightarrow> list_all unmapped_elem (rSrcAddrs r) \<and> list_all unmapped_elem (rDstAddrs r)"

lemma unmapped_heads: "unmapped_rule r \<Longrightarrow> heads_unmapped r"
  unfolding unmapped_rule_def heads_unmapped_def addr_good_def list_all_iff unmapped_elem_def
  by (metis list.set_sel(1))

lemma addr_covered_matches:
  assumes "addr_covered as be" and "unmapped_elem be" and "addr_matches env be x"
  shows "\<exists>a \<in> set as. addr_matches env a x"
proof (cases "elem_net be")
  case None
  with assms obtain s where s: "s \<in> set as" "norm s = norm be" by (auto simp: addr_covered_def)
  from s(2) None have "elem_net s = None" using elem_net_norm by metis
  with s None assms(3) show ?thesis by (intro bexI [of _ s]) (simp_all add: addr_matches_def)
next
  case (Some n)
  with assms obtain s m where s: "s \<in> set as" "elem_net s = Some m" "netContains m n"
    by (auto simp: addr_covered_def)
  have "\<not> is_mapped n" using assms(2) Some by (simp add: unmapped_elem_def)
  then have "prefix_le (prefix_of m) (prefix_of n)"
    using netContains_prefix_le [OF elem_net_shape [OF s(2)] elem_net_shape [OF Some]] s(3) by blast
  moreover have "in_prefix (prefix_of n) x"
    using assms(3) Some net_has_in_prefix [OF elem_net_shape [OF Some]] by (simp add: addr_matches_def)
  ultimately have "net_has m x"
    using prefix_le_in net_has_in_prefix [OF elem_net_shape [OF s(2)]] by blast
  with s show ?thesis by (intro bexI [of _ s]) (simp_all add: addr_matches_def)
qed

lemma addrsCover_matches:
  "addrsCover a b \<Longrightarrow> list_all unmapped_elem b \<Longrightarrow> addrs_match env b x \<Longrightarrow> addrs_match env a x"
  unfolding addrsCover_iff addrs_match_def list_ex_iff list_all_iff
  using addr_covered_matches by blast

text \<open>The range of an element depends on its normal form only.\<close>

definition trimmed_range :: "string \<Rightarrow> portRange option" where
  "trimmed_range p =
     (case IndexAny p ''-:'' of
        Some i \<Rightarrow>
          (case (Atoi (TrimSpace (take i p)), Atoi (TrimSpace (drop (i + 1) p))) of
             (Some l, Some h) \<Rightarrow> Some \<lparr>r_lo = l, r_hi = h\<rparr>
           | _ \<Rightarrow> None)
      | None \<Rightarrow> (case Atoi p of Some n \<Rightarrow> Some \<lparr>r_lo = n, r_hi = n\<rparr> | None \<Rightarrow> None))"

lemma elem_range_trimmed: "elem_range p = trimmed_range (TrimSpace p)"
  by (auto simp: elem_range_def toRanges.simps(2) trimmed_range_def Let_def split: option.splits prod.splits)

lemma Atoi_ToLower: "Atoi (ToLower s) = Atoi s"
proof (cases s)
  case (Cons c cs)
  have "digits_val 0 (lower_char c # map lower_char cs) = digits_val 0 (c # cs)"
    using digits_val_lower [of 0 "c # cs"] by (simp only: list.map)
  then show ?thesis
    by (simp add: Cons Atoi_def ToLower_def Let_def del: digits_val.simps)
qed (simp add: Atoi_def)

lemma IndexAny_ToLower: "IndexAny (ToLower s) ''-:'' = IndexAny s ''-:''"
  by (induction s) (auto simp: IndexAny_def ToLower_def)

lemma trimmed_range_ToLower: "trimmed_range (ToLower s) = trimmed_range s"
proof -
  have "take i (ToLower s) = ToLower (take i s)" "drop i (ToLower s) = ToLower (drop i s)" for i
    by (simp_all add: ToLower_def take_map drop_map)
  then show ?thesis
    by (simp only: trimmed_range_def IndexAny_ToLower TrimSpace_ToLower Atoi_ToLower)
qed

lemma elem_range_norm: "norm p = norm q \<Longrightarrow> elem_range p = elem_range q"
  unfolding elem_range_trimmed norm_def by (metis trimmed_range_ToLower)

lemma port_covered_matches:
  assumes "port_covered ps be" and "port_matches env be x"
  shows "\<exists>p \<in> set ps. port_matches env p x"
proof (cases "elem_range be")
  case None
  with assms obtain s where s: "s \<in> set ps" "norm s = norm be" by (auto simp: port_covered_def)
  with None have "elem_range s = None" using elem_range_norm by metis
  with s None assms(2) show ?thesis by (intro bexI [of _ s]) (simp_all add: port_matches_def)
next
  case (Some r)
  with assms obtain s t where "s \<in> set ps" "elem_range s = Some t" "r_lo t \<le> r_lo r" "r_hi r \<le> r_hi t"
    by (auto simp: port_covered_def)
  with Some assms(2) show ?thesis by (intro bexI [of _ s]) (simp_all add: port_matches_def)
qed

lemma portsCover_matches: "portsCover a b \<Longrightarrow> ports_match env b x \<Longrightarrow> ports_match env a x"
  unfolding portsCover_iff ports_match_def list_ex_iff using port_covered_matches by blast

lemma protoCovers_matches: "protoCovers a b \<Longrightarrow> proto_matches b x \<Longrightarrow> proto_matches a x"
  unfolding protoCovers_def proto_matches_def Let_def insert_iff empty_iff by metis

lemma ifaceCovers_matches: "ifaceCovers a b \<Longrightarrow> iface_matches b x \<Longrightarrow> iface_matches a x"
  unfolding ifaceCovers_cases iface_matches_def ifaceWildcard_def by metis

lemma Covers_matches:
  assumes "Covers j i" and "rEnabled j" and "unmapped_rule i" and "rule_matches env i p"
  shows "rule_matches env j p"
  using assms unfolding Covers_iff rule_matches_def unmapped_rule_def
  using addrsCover_matches portsCover_matches protoCovers_matches ifaceCovers_matches by blast

section \<open>The rules reported are dead\<close>

definition hit :: "fw_env \<Rightarrow> packet \<Rightarrow> Rule \<Rightarrow> bool" where
  "hit env p r \<longleftrightarrow> rule_matches env r p \<and> rAction r \<noteq> Other"

lemma decide_find:
  "decide env policy rs p = (case List.find (hit env p) rs of None \<Rightarrow> policy | Some r \<Rightarrow> rAction r)"
  by (induction rs) (auto simp: hit_def)

lemma find_append: "List.find P (xs @ ys) = (case List.find P xs of None \<Rightarrow> List.find P ys | Some x \<Rightarrow> Some x)"
  by (induction xs) auto

text \<open>Dropping elements whose every hit is preceded by another hit changes no first hit.\<close>

lemma find_filter_dead:
  assumes "\<forall>us x vs. rs = us @ x # vs \<longrightarrow> P x \<longrightarrow> \<not> keep x \<longrightarrow> (\<exists>u \<in> set us. P u)"
  shows "List.find P (filter keep rs) = List.find P rs"
proof (cases "\<exists>x \<in> set rs. P x")
  case True
  then obtain us x vs where rs: "rs = us @ x # vs" "P x" "\<forall>u \<in> set us. \<not> P u"
    using split_list_first_prop by metis
  then have "keep x" using assms by blast
  moreover have "List.find P us = None" "List.find P (filter keep us) = None"
    using rs(3) by (auto simp: find_None_iff)
  ultimately show ?thesis using rs by (simp add: find_append)
next
  case False
  then show ?thesis by (simp add: find_None_iff [THEN iffD2])
qed

text \<open>What the reference reports, rule by rule.\<close>

lemma quad_loop_concat:
  "i \<le> length rules \<Longrightarrow> rest = drop i rules \<Longrightarrow> quad_loop rules i rest =
     concat (map (\<lambda>k. if rEnabled (rules ! k) then quad_inner (rules ! k) (take k rules) else [])
       [i..<length rules])"
proof (induction rest arbitrary: i)
  case (Cons r rest)
  then have i: "i < length rules" by (cases "i = length rules") auto
  with Cons.prems have "r = rules ! i" "rest = drop (i + 1) rules"
    by (auto simp: Cons_nth_drop_Suc [symmetric])
  with i Cons.IH [of "i + 1"] show ?case by (simp add: upt_conv_Cons)
qed simp

lemma quad_issues:
  "shadowAndDuplicateQuadratic rules =
     concat (map (\<lambda>k. case (if rEnabled (rules ! k) then first_cover (rules ! k) (take k rules) else None) of
         None \<Rightarrow> [] | Some rj \<Rightarrow> [coverIssue rj (rules ! k)]) [0..<length rules])"
  using quad_loop_concat [of 0 rules rules]
  by (simp add: shadowAndDuplicateQuadratic_def quad_inner_first if_distrib cong: if_cong)

lemma coverIssue_index [simp]: "iRuleIndex (coverIssue rj ri) = rIndex ri"
  unfolding coverIssue_def by (simp only: if_distrib [of iRuleIndex] Issue.simps if_cancel)

lemma quad_reported:
  assumes "issue \<in> set (shadowAndDuplicateQuadratic rules)"
  shows "\<exists>us ri vs. rules = us @ ri # vs \<and> iRuleIndex issue = rIndex ri \<and> rEnabled ri \<and>
    (\<exists>rj \<in> set us. terminating rj \<and> Covers rj ri \<and> issue = coverIssue rj ri)"
proof -
  from assms obtain k where kl: "k < length rules"
    and ki: "issue \<in> set (case (if rEnabled (rules ! k) then first_cover (rules ! k) (take k rules) else None) of
      None \<Rightarrow> [] | Some rj \<Rightarrow> [coverIssue rj (rules ! k)])"
    unfolding quad_issues set_concat set_map set_upt by (elim UN_E imageE) simp
  from ki obtain rj where k: "k < length rules" "rEnabled (rules ! k)"
    and f: "first_cover (rules ! k) (take k rules) = Some rj" and iss: "issue = coverIssue rj (rules ! k)"
    using kl by (cases "rEnabled (rules ! k)"; cases "first_cover (rules ! k) (take k rules)") simp_all
  from f have "rj \<in> set (take k rules)" "terminating rj" "Covers rj (rules ! k)"
    using find_Some_in [OF f [unfolded first_cover_def]] by simp_all
  with k iss show ?thesis
    by (intro exI [of _ "take k rules"] exI [of _ "rules ! k"] exI [of _ "drop (Suc k) rules"])
      (auto simp: id_take_nth_drop)
qed

lemma distinct_key_split:
  assumes "distinct (map f (us @ x # vs))" and "us @ x # vs = us' @ y # vs'" and "f x = f y"
  shows "us' = us \<and> y = x"
proof -
  let ?xs = "us @ x # vs"
  have "length us < length (map f ?xs)" "length us' < length (map f ?xs)"
    using arg_cong [OF assms(2), of length] by simp_all
  moreover have "map f ?xs ! length us = f x"
    using nth_append_length [of "map f us" "f x" "map f vs"] by simp
  moreover have "map f ?xs ! length us' = f y"
    unfolding assms(2) using nth_append_length [of "map f us'" "f y" "map f vs'"] by simp
  ultimately have "length us = length us'"
    using nth_eq_iff_index_eq [OF assms(1)] assms(3) by metis
  then show ?thesis using assms(2) by simp
qed

lemma dead_rules_drop:
  assumes "distinct (map rIndex rules)" and "\<forall>r \<in> set rules. unmapped_rule r"
    and "shadowAndDuplicate rules = Some issues"
  shows "decide env policy (filter (\<lambda>r. rIndex r \<notin> iRuleIndex ` set issues) rules) p = decide env policy rules p"
proof -
  have issues: "issues = shadowAndDuplicateQuadratic rules"
    using assms(3) shadow_pass [of rules] assms(2) unmapped_heads by auto
  have "\<exists>u \<in> set us. hit env p u"
    if rules: "rules = us @ x # vs" and x: "hit env p x" "rIndex x \<in> iRuleIndex ` set issues" for us x vs
  proof -
    from x(2) issues obtain us' ri vs' rj where
      r: "rules = us' @ ri # vs'" "rIndex x = rIndex ri" "rj \<in> set us'" "terminating rj" "Covers rj ri"
      using quad_reported by (metis image_iff)
    have same: "us' = us \<and> ri = x"
    proof (rule distinct_key_split)
      show "distinct (map rIndex (us @ x # vs))" using assms(1) rules by simp
      show "us @ x # vs = us' @ ri # vs'" using rules r(1) by simp
    qed (rule r(2))
    have "unmapped_rule x" using assms(2) unfolding rules by simp
    moreover have "rEnabled rj" "rAction rj \<noteq> Other" using r(4) by (simp_all add: terminating_def)
    moreover have "rule_matches env x p" using x(1) by (simp add: hit_def)
    ultimately have "hit env p rj" using Covers_matches r(5) same by (simp add: hit_def)
    with r(3) same show ?thesis by blast
  qed
  then show ?thesis unfolding decide_find by (subst find_filter_dead) auto
qed

end
