(* ===== verification/FwProperties.thy ===== *)
theory FwProperties
  imports FwSemantics
begin

text \<open>
  The properties of package \<open>fwrule\<close>: the index against the quadratic reference, the meaning
  of what the analysers report for the packets a rule base decides, the drift check, and the
  two ways in which IPv4-mapped IPv6 networks break the first two.
\<close>

section \<open>Rules for examples\<close>

definition plain_rule :: "int \<Rightarrow> Action \<Rightarrow> string \<Rightarrow> string \<Rightarrow> string \<Rightarrow> Rule" where
  "plain_rule n act src dst dport =
     \<lparr>rIndex = n, rName = '''', rAction = act, rSrcAddrs = [src], rDstAddrs = [dst], rProto = ''tcp'',
      rSrcPorts = [], rDstPorts = [dport], rIface = '''', rDirection = ''in'', rEnabled = True, rLog = True,
      rDesc = ''d'', rRaw = '''', rConditional = False\<rparr>"

lemma plain_rule_simps [simp]:
  "rIndex (plain_rule n act src dst dport) = n" "rAction (plain_rule n act src dst dport) = act"
  "rSrcAddrs (plain_rule n act src dst dport) = [src]" "rDstAddrs (plain_rule n act src dst dport) = [dst]"
  "rProto (plain_rule n act src dst dport) = ''tcp''" "rSrcPorts (plain_rule n act src dst dport) = []"
  "rDstPorts (plain_rule n act src dst dport) = [dport]" "rIface (plain_rule n act src dst dport) = ''''"
  "rEnabled (plain_rule n act src dst dport)" "\<not> rConditional (plain_rule n act src dst dport)"
  by (simp_all add: plain_rule_def)

lemma elem_net_examples:
  "elem_net ''any'' = None"
  "elem_net ''10.0.0.0/8'' = Some \<lparr>net_ip = IP4 0x0A000000, net_mask = Mask4 (cidr_mask 8)\<rparr>"
  "elem_net ''10.1.0.0/16'' = Some \<lparr>net_ip = IP4 0x0A010000, net_mask = Mask4 (cidr_mask 16)\<rparr>"
  "elem_net ''0.0.0.0/24'' = Some \<lparr>net_ip = IP4 0, net_mask = Mask4 (cidr_mask 24)\<rparr>"
  by (simp_all add: net_eval str_eval cidr_mask_def mask_eq_exp_minus_1)

lemma replicate_numeral: "replicate (numeral k) x = x # replicate (pred_numeral k) x"
  by (simp add: numeral_eq_Suc)

lemma elem_net_mapped_example:
  "elem_net ''::ffff:0.0.0.0/100'' = Some \<lparr>net_ip = IP16 0xFFFF00000000, net_mask = Mask16 (cidr_mask 100)\<rparr>"
  by (simp add: net_eval str_eval cidr_mask_def mask_eq_exp_minus_1 parse_v6_def parse_v6_groups.simps
      hex_val_def hex_num_def expand_ellipsis_def groups_word_def Let_def replicate_numeral)

lemma elem_range_examples:
  "elem_range ''any'' = None"
  "elem_range ''80'' = Some \<lparr>r_lo = 80, r_hi = 80\<rparr>"
  "elem_range ''1-1024'' = Some \<lparr>r_lo = 1, r_hi = 1024\<rparr>"
  by (simp_all add: port_eval str_eval)

lemma anyAddr_examples:
  "anyAddr [''any'']" "\<not> anyAddr [''10.0.0.0/8'']" "\<not> anyAddr [''10.1.0.0/16'']"
  "\<not> anyAddr [''0.0.0.0/24'']" "\<not> anyAddr [''::ffff:0.0.0.0/100'']"
  by (simp_all add: anyAddr_iff any_addr_word_def str_eval)

lemma anyPort_examples: "anyPort []" "anyPort [''any'']" "\<not> anyPort [''80'']" "\<not> anyPort [''1-1024'']"
  by (simp_all add: anyPort_iff any_port_word_def str_eval)

lemma unmapped_elem_examples:
  "unmapped_elem ''any''" "unmapped_elem ''10.0.0.0/8''" "unmapped_elem ''10.1.0.0/16''" "unmapped_elem ''0.0.0.0/24''"
  by (simp_all add: unmapped_elem_def elem_net_examples is_mapped_def)

lemmas rule_examples = elem_net_examples elem_net_mapped_example elem_range_examples anyAddr_examples
  anyPort_examples unmapped_elem_examples

text \<open>An allow rule and a deny rule below it that it covers.\<close>

definition shadow_rules :: "Rule list" where
  "shadow_rules =
     [plain_rule 1 Allow ''10.0.0.0/8'' ''any'' ''1-1024'', plain_rule 2 Deny ''10.1.0.0/16'' ''any'' ''80'']"

lemma shadow_rules_unmapped: "\<forall>r \<in> set shadow_rules. unmapped_rule r"
  by (simp add: shadow_rules_def unmapped_rule_def rule_examples)

lemma netContains_v4:
  "n \<le> 32 \<Longrightarrow> m \<le> 32 \<Longrightarrow>
    netContains \<lparr>net_ip = IP4 a, net_mask = Mask4 (cidr_mask n)\<rparr> \<lparr>net_ip = IP4 b, net_mask = Mask4 (cidr_mask m)\<rparr> \<longleftrightarrow>
      a AND cidr_mask n = b AND cidr_mask n \<and> n \<le> m"
  by (simp add: netContains_def net_has_def network_number_and_mask_def del: Size.simps)

lemmas cover_eval = Covers_iff ifaceCovers_cases ifaceWildcard_def protoCovers_def addrsCover_iff portsCover_iff
  addr_covered_def port_covered_def netContains_v4 rule_examples cidr_mask_def mask_eq_exp_minus_1

lemma shadow_rules_covers:
  "Covers (plain_rule 1 Allow ''10.0.0.0/8'' ''any'' ''1-1024'') (plain_rule 2 Deny ''10.1.0.0/16'' ''any'' ''80'')"
  by (simp add: Covers_iff ifaceCovers_cases ifaceWildcard_def protoCovers_def addrsCover_iff portsCover_iff
      addr_covered_def port_covered_def netContains_v4 rule_examples) (simp add: cidr_mask_def mask_eq_exp_minus_1)

section \<open>The index against the reference\<close>

text \<open>C2: When no enabled rule has an IPv4-mapped IPv6 network as the first element of its source or
  destination list, the shadow pass through the cover index returns, and its issues are those of the
  quadratic reference pass, in the same order and with the same text.\<close>

theorem shadow_equivalence:
  assumes "\<forall>r \<in> set rules. rEnabled r \<longrightarrow> heads_unmapped r"
  shows "shadowAndDuplicate rules = Some (shadowAndDuplicateQuadratic rules)"
  by (rule shadow_pass [OF assms])

theorem shadow_equivalence_witness:
  "shadowAndDuplicate shadow_rules = Some (shadowAndDuplicateQuadratic shadow_rules)"
  by (rule shadow_equivalence) (use shadow_rules_unmapped unmapped_heads in blast)

text \<open>On every rule base, mapped networks included, the shadow pass returns (the index is never asked
  for a rule out of range), and each issue it reports is that of an enabled rule and an earlier
  terminating rule that covers it.\<close>

theorem shadow_sound:
  "\<exists>issues. shadowAndDuplicate rules = Some issues \<and> (\<forall>issue \<in> set issues. genuine rules issue)"
  by (rule shadow_genuine)

theorem shadow_sound_witness:
  "\<exists>issues. shadowAndDuplicate shadow_rules = Some issues \<and> (\<forall>issue \<in> set issues. genuine shadow_rules issue)"
  by (rule shadow_sound)

text \<open>C20: For a rule neither of whose address lists begins with an IPv4-mapped network, the index answers the least position
  of an earlier terminating rule that covers it, and \<open>-1\<close> when there is none.\<close>

theorem firstCoverer_is_least:
  assumes "i \<le> length rules" and "heads_unmapped ri"
  shows "firstCoverer (index_of (added rules i)) rules ri =
    (case find_index (\<lambda>rj. terminating rj \<and> Covers rj ri) (take i rules) of
       None \<Rightarrow> NoCoverer | Some j \<Rightarrow> Coverer j)"
proof -
  let ?P = "\<lambda>rj. terminating rj \<and> Covers rj ri"
  note least = firstCoverer_least [OF assms]
  show ?thesis
  proof (cases "find_index ?P (take i rules)")
    case None
    moreover have "rules ! k \<in> set (take i rules)" if "k < i" for k
      using that assms(1) by (metis length_take min.absorb2 nth_mem nth_take)
    ultimately have "\<forall>k < i. \<not> ?P (rules ! k)"
      unfolding find_index_None by blast
    with least None show ?thesis
      by (cases "firstCoverer (index_of (added rules i)) rules ri") (auto simp: least_coverer_def)
  next
    case (Some j)
    then have j: "j < i" "?P (rules ! j)" "\<forall>k < j. \<not> ?P (rules ! k)"
      using assms(1) find_index_Some [OF Some] by auto
    with least Some show ?thesis
      by (cases "firstCoverer (index_of (added rules i)) rules ri")
        (auto simp: least_coverer_def, metis linorder_neqE_nat order.strict_trans)
  qed
qed

theorem firstCoverer_is_least_witness:
  "firstCoverer (index_of (added shadow_rules 1)) shadow_rules (shadow_rules ! 1) = Coverer 0"
proof -
  have "heads_unmapped (shadow_rules ! 1)"
    using shadow_rules_unmapped by (intro unmapped_heads) (simp add: shadow_rules_def)
  then show ?thesis
    using firstCoverer_is_least [of 1 shadow_rules "shadow_rules ! 1"] shadow_rules_covers
    by (simp add: shadow_rules_def terminating_def)
qed

text \<open>A rule covers its copies.\<close>

lemma addrsCover_refl: "addrsCover as as"
proof -
  have "addr_covered as a" if "a \<in> set as" for a
    using that netContains_refl [OF elem_net_shape] by (auto simp: addr_covered_def split: option.splits)
  then show ?thesis by (auto simp: addrsCover_iff)
qed

lemma portsCover_refl: "portsCover ps ps"
proof -
  have "port_covered ps p" if "p \<in> set ps" for p
    using that by (auto simp: port_covered_def split: option.splits)
  then show ?thesis by (auto simp: portsCover_iff)
qed

lemma Covers_refl: "\<not> rConditional r \<Longrightarrow> Covers r r"
  by (simp add: Covers_def ifaceCovers_def protoCovers_def addrsCover_refl portsCover_refl)

lemma Covers_rIndex [simp]:
  "Covers (r\<lparr>rIndex := n\<rparr>) s = Covers r s" "Covers s (r\<lparr>rIndex := n\<rparr>) = Covers s r"
  by (simp_all add: Covers_def)

lemma quad_issue_in:
  assumes "k < length rules" and "rEnabled (rules ! k)" and "first_cover (rules ! k) (take k rules) = Some rj"
  shows "coverIssue rj (rules ! k) \<in> set (shadowAndDuplicateQuadratic rules)"
  unfolding quad_issues set_concat set_map set_upt
  by (rule UN_I [OF imageI [of k]]) (use assms in simp_all)

text \<open>An enabled terminating unconditional rule that is followed by a copy of itself (under another index)
  makes the pass report that copy.\<close>

theorem copies_reported:
  assumes "rules = us @ r # ms @ r\<lparr>rIndex := n\<rparr> # vs" and "terminating r"
    and "\<forall>r \<in> set rules. rEnabled r \<longrightarrow> heads_unmapped r"
  shows "\<exists>issues. shadowAndDuplicate rules = Some issues \<and> n \<in> iRuleIndex ` set issues"
proof -
  let ?k = "length us + 1 + length ms"
  have k: "?k < length rules" "rules ! ?k = r\<lparr>rIndex := n\<rparr>" "take ?k rules = us @ r # ms"
    unfolding assms(1) by (simp_all add: nth_append)
  have "r \<in> set (take ?k rules)" "terminating r \<and> Covers r (r\<lparr>rIndex := n\<rparr>)"
    using k(3) assms(2) Covers_refl by (simp_all add: terminating_def)
  then have "first_cover (rules ! ?k) (take ?k rules) \<noteq> None"
    unfolding first_cover_def find_None_iff k(2) by blast
  then obtain rj where rj: "first_cover (rules ! ?k) (take ?k rules) = Some rj" by blast
  have "rEnabled (rules ! ?k)" using assms(2) k(2) by (simp add: terminating_def)
  then have "coverIssue rj (rules ! ?k) \<in> set (shadowAndDuplicateQuadratic rules)"
    using k(1) rj by (intro quad_issue_in)
  then show ?thesis
    using shadow_pass [OF assms(3)] k(2) by (force simp: image_iff)
qed

theorem copies_reported_witness:
  "\<exists>issues. shadowAndDuplicate [plain_rule 1 Deny ''10.0.0.0/8'' ''any'' ''80'', plain_rule 1 Deny ''10.0.0.0/8'' ''any'' ''80''\<lparr>rIndex := 2\<rparr>] =
     Some issues \<and> 2 \<in> iRuleIndex ` set issues"
proof (rule copies_reported [of _ "[]" "plain_rule 1 Deny ''10.0.0.0/8'' ''any'' ''80''" "[]" _ "[]"])
  have "heads_unmapped (plain_rule 1 Deny ''10.0.0.0/8'' ''any'' ''80'')"
    by (rule unmapped_heads) (simp add: unmapped_rule_def rule_examples)
  then show "\<forall>r \<in> set [plain_rule 1 Deny ''10.0.0.0/8'' ''any'' ''80'', plain_rule 1 Deny ''10.0.0.0/8'' ''any'' ''80''\<lparr>rIndex := 2\<rparr>].
      rEnabled r \<longrightarrow> heads_unmapped r"
    by (simp add: heads_unmapped_def)
qed (simp_all add: terminating_def)

section \<open>What coverage means\<close>

text \<open>C4: If an enabled rule covers another whose address elements are no IPv4-mapped networks, then it
  matches every packet the other matches, whatever the unresolved object names mean.\<close>

theorem Covers_sound:
  assumes "Covers j i" and "rEnabled j" and "unmapped_rule i" and "rule_matches env i p"
  shows "rule_matches env j p"
  by (rule Covers_matches [OF assms])

theorem Covers_sound_witness:
  "rule_matches \<lparr>e_addr = (\<lambda>_ _. True), e_port = (\<lambda>_ _. True), e_cond = (\<lambda>_ _. False)\<rparr> (shadow_rules ! 0)
     \<lparr>p_src = IP4 0x0A010203, p_dst = IP4 1, p_proto = ''tcp'', p_sport = 5, p_dport = 80, p_iface = ''eth0''\<rparr>"
proof (rule Covers_sound)
  show "Covers (shadow_rules ! 0) (shadow_rules ! 1)"
    using shadow_rules_covers by (simp add: shadow_rules_def)
  show "unmapped_rule (shadow_rules ! 1)"
    using shadow_rules_unmapped by (simp add: shadow_rules_def)
  show "rule_matches \<lparr>e_addr = (\<lambda>_ _. True), e_port = (\<lambda>_ _. True), e_cond = (\<lambda>_ _. False)\<rparr> (shadow_rules ! 1)
     \<lparr>p_src = IP4 0x0A010203, p_dst = IP4 1, p_proto = ''tcp'', p_sport = 5, p_dport = 80, p_iface = ''eth0''\<rparr>"
    by (simp add: shadow_rules_def rule_matches_def iface_matches_def ifaceWildcard_def proto_matches_def str_eval
        addrs_match_def addr_matches_def ports_match_def port_matches_def rule_examples net_has_def
        network_number_and_mask_def) (simp add: cidr_mask_def mask_eq_exp_minus_1)
qed (simp add: shadow_rules_def)

text \<open>C1: Removing every rule the shadow pass reports changes what the rule base decides for no packet, for
  rules with distinct indices and no mapped network: the first enabled terminating match decides, and a
  reported rule is never that match.\<close>

theorem reported_rules_are_dead:
  assumes "distinct (map rIndex rules)" and "\<forall>r \<in> set rules. unmapped_rule r"
    and "shadowAndDuplicate rules = Some issues"
  shows "decide env policy (filter (\<lambda>r. rIndex r \<notin> iRuleIndex ` set issues) rules) p = decide env policy rules p"
  by (rule dead_rules_drop [OF assms])

lemma shadow_rules_issue:
  "shadowAndDuplicate shadow_rules = Some [coverIssue (shadow_rules ! 0) (shadow_rules ! 1)]"
proof -
  have "first_cover (shadow_rules ! 1) (take 1 shadow_rules) = Some (shadow_rules ! 0)"
    using shadow_rules_covers by (simp add: first_cover_def shadow_rules_def terminating_def)
  moreover have "[0..<length shadow_rules] = [0, 1]" by (simp add: shadow_rules_def upt_rec)
  moreover have "rEnabled (shadow_rules ! 1)" by (simp add: shadow_rules_def)
  ultimately have "shadowAndDuplicateQuadratic shadow_rules = [coverIssue (shadow_rules ! 0) (shadow_rules ! 1)]"
    unfolding quad_issues by (simp add: first_cover_def)
  then show ?thesis using shadow_pass [of shadow_rules] shadow_rules_unmapped unmapped_heads by simp
qed

theorem reported_rules_are_dead_witness:
  "\<forall>env policy p. decide env policy (filter (\<lambda>r. rIndex r \<notin> {2}) shadow_rules) p = decide env policy shadow_rules p"
  using reported_rules_are_dead [OF _ shadow_rules_unmapped shadow_rules_issue]
  by (simp add: shadow_rules_def)

section \<open>Mapped networks\<close>

text \<open>A rule for the first 256 IPv4 addresses, and below it a rule for the IPv4-mapped form of a network
  of a sixteenth of the IPv4 space.\<close>

definition mapped_rules :: "Rule list" where
  "mapped_rules =
     [plain_rule 1 Allow ''0.0.0.0/24'' ''any'' ''80'', plain_rule 2 Deny ''::ffff:0.0.0.0/100'' ''any'' ''80'']"

lemma mapped_rules_covers:
  "Covers (plain_rule 1 Allow ''0.0.0.0/24'' ''any'' ''80'') (plain_rule 2 Deny ''::ffff:0.0.0.0/100'' ''any'' ''80'')"
  by (simp add: Covers_iff ifaceCovers_cases ifaceWildcard_def protoCovers_def addrsCover_iff portsCover_iff
      addr_covered_def port_covered_def rule_examples netContains_def net_has_def network_number_and_mask_def
      del: Size.simps) (simp add: cidr_mask_def mask_eq_exp_minus_1)

lemma mapped_rules_query:
  "addrDim_query (addrDim_add 0 [''0.0.0.0/24''] addrDim_init) [''::ffff:0.0.0.0/100''] = []"
  by (simp add: addrDim_query_def addrDim_add_def addrDim_init_def toNets_single rule_examples normCIDR_def Let_def
      upt_rec del: Size.simps)

text \<open>Without the assumption on mapped networks the two passes differ: the reference reports the second
  rule as shadowed, the index finds no coverer.\<close>

theorem shadow_mapped_divergence:
  "shadowAndDuplicate mapped_rules = Some [] \<and>
   shadowAndDuplicateQuadratic mapped_rules = [coverIssue (mapped_rules ! 0) (mapped_rules ! 1)]"
proof -
  have "dims_of (coverIndex_add 0 (mapped_rules ! 0) newCoverIndex) (mapped_rules ! 1) ! 2 = []"
    using mapped_rules_query by (simp add: dims_of_def coverIndex_add_def newCoverIndex_def mapped_rules_def Let_def)
  then have "[] \<in> set (dims_of (coverIndex_add 0 (mapped_rules ! 0) newCoverIndex) (mapped_rules ! 1))"
    by (auto simp: dims_of_def)
  then have "firstCoverer (coverIndex_add 0 (mapped_rules ! 0) newCoverIndex) rules (mapped_rules ! 1) = NoCoverer" for rules
    by (force simp: firstCoverer_def)
  moreover have "firstCoverer newCoverIndex rules (mapped_rules ! 0) = NoCoverer" for rules
    by (simp add: firstCoverer_def dims_of_def newCoverIndex_def pair_def)
  moreover have "rEnabled (mapped_rules ! 0)" "rAction (mapped_rules ! 0) = Allow"
    "\<not> rConditional (mapped_rules ! 0)" "rEnabled (mapped_rules ! 1)"
    by (simp_all add: mapped_rules_def)
  ultimately have "shadow_loop rules 0 [mapped_rules ! 0, mapped_rules ! 1] newCoverIndex [] = Some []" for rules
    by simp
  moreover have "[mapped_rules ! 0, mapped_rules ! 1] = mapped_rules" by (simp add: mapped_rules_def)
  ultimately have "shadowAndDuplicate mapped_rules = Some []" unfolding shadowAndDuplicate_def by metis
  moreover have "first_cover (mapped_rules ! 1) (take 1 mapped_rules) = Some (mapped_rules ! 0)"
    using mapped_rules_covers by (simp add: first_cover_def mapped_rules_def terminating_def)
  ultimately show ?thesis
    by (simp add: shadowAndDuplicateQuadratic_def mapped_rules_def quad_inner_first) (simp add: first_cover_def)
qed

text \<open>For a mapped network \<open>Covers\<close> is wrong: it says that the rule for 256 addresses covers the rule for
  the mapped network, yet a packet from 1.2.3.4 matches only the latter, so the deny does fire.\<close>

theorem Covers_mapped_unsound:
  "Covers (mapped_rules ! 0) (mapped_rules ! 1) \<and>
   (\<forall>env. let p = \<lparr>p_src = IP4 0x01020304, p_dst = IP4 1, p_proto = ''tcp'', p_sport = 5, p_dport = 80, p_iface = ''eth0''\<rparr>
     in rule_matches env (mapped_rules ! 1) p \<and> decide env Allow mapped_rules p = Deny)"
proof -
  have "(16909060 :: 32 word) AND cidr_mask 24 \<noteq> 0" "(16909060 :: 32 word) AND cidr_mask 4 = 0"
    "(281470681743360 :: 32 word) AND cidr_mask 4 = 0"
    by (simp_all add: cidr_mask_def mask_eq_exp_minus_1)
  then show ?thesis
    using mapped_rules_covers
    by (simp add: mapped_rules_def Let_def rule_matches_def iface_matches_def ifaceWildcard_def proto_matches_def str_eval
        addrs_match_def addr_matches_def ports_match_def port_matches_def rule_examples net_has_def
        network_number_and_mask_def ucast_cidr_mask)
qed

section \<open>Bounds of the segment tree\<close>

text \<open>The node numbers of the slice; the first is unused.\<close>

definition in_slice :: "nat \<Rightarrow> bool" where
  "in_slice n \<longleftrightarrow> 1 \<le> n \<and> n < 2 * portSpace"

lemma insertRange_slice:
  assumes "\<not> weird_range r" and "\<not> in_slice n"
  shows "pd_tree (insertRange i (r_lo r) (r_hi r) d) n = pd_tree d n"
proof (rule ccontr)
  let ?l = "nat (r_lo r) + portSpace" and ?h = "nat (r_hi r) + portSpace + 1"
  assume "pd_tree (insertRange i (r_lo r) (r_hi r) d) n \<noteq> pd_tree d n"
  then have "insertRange_loop i ?l ?h (pd_tree d) n \<noteq> pd_tree d n" by (simp add: insertRange_def)
  moreover have "1 \<le> ?l" "?h \<le> 2 * portSpace" using assms(1) by (auto simp: weird_range_def portSpace_def)
  ultimately have "1 \<le> n \<and> n < 2 * portSpace" using insertRange_nodes [of ?l i ?h "pd_tree d" n] by linarith
  with assms(2) show False by (simp add: in_slice_def)
qed

lemma port_step_slice: "\<not> in_slice n \<Longrightarrow> pd_tree (snd (port_step i p wd)) n = pd_tree (snd wd) n"
  by (auto simp: port_step_def port_str_def insertRange_slice Let_def split: option.split)

lemma port_fold_slice: "\<not> in_slice n \<Longrightarrow> pd_tree (snd (fold (port_step i) ps wd)) n = pd_tree (snd wd) n"
  by (induction ps arbitrary: wd) (simp_all add: port_step_slice)

lemma node_path_0: "node_path 0 = []"
  by (subst node_path.simps) simp

lemma node_path_bound: "n \<in> set (node_path m) \<Longrightarrow> 1 \<le> n \<and> n \<le> m"
proof (induction m rule: node_path.induct)
  case (1 m)
  show ?case
  proof (cases "m \<ge> 1 \<and> n \<noteq> m")
    case True
    with "1.prems" have "n \<in> set (node_path (m div 2))" by (subst (asm) node_path.simps) auto
    with 1(1) True show ?thesis by fastforce
  next
    case False
    with "1.prems" show ?thesis by (cases m) (auto simp: node_path_0)
  qed
qed

text \<open>C24: Adding a rule's ports changes no segment-tree node outside the slice of \<open>2 * portSpace\<close> nodes, and the answer to a
  query does not depend on one: no access to the slice is out of range, whatever the ports.\<close>

theorem tree_nodes_in_slice:
  "(\<forall>n. n < 1 \<or> 2 * portSpace \<le> n \<longrightarrow> pd_tree (portDim_add idx ports d) n = pd_tree d n) \<and>
   (\<forall>tree. (\<forall>n. 1 \<le> n \<and> n < 2 * portSpace \<longrightarrow> tree n = pd_tree d n) \<longrightarrow>
     portDim_query (d\<lparr>pd_tree := tree\<rparr>) ports = portDim_query d ports)"
proof (intro conjI allI impI)
  fix n assume "n < 1 \<or> 2 * portSpace \<le> n"
  then have "\<not> in_slice n" by (auto simp: in_slice_def)
  then show "pd_tree (portDim_add idx ports d) n = pd_tree d n"
    by (simp add: portDim_add_def portDim_add_loop_fold port_fold_slice)
next
  fix tree assume same: "\<forall>n. 1 \<le> n \<and> n < 2 * portSpace \<longrightarrow> tree n = pd_tree d n"
  have path: "map (\<lambda>n. let l = tree n in if length l > 0 then [l] else []) (node_path (portSpace + nat lo)) =
      map (\<lambda>n. let l = pd_tree d n in if length l > 0 then [l] else []) (node_path (portSpace + nat lo))"
    if "0 \<le> lo" "lo < int portSpace" for lo
  proof (rule map_cong [OF refl])
    fix n assume "n \<in> set (node_path (portSpace + nat lo))"
    with node_path_bound that have "1 \<le> n \<and> n < 2 * portSpace" by fastforce
    with same show "(let l = tree n in if length l > 0 then [l] else []) = (let l = pd_tree d n in if length l > 0 then [l] else [])"
      by simp
  qed
  have "concat (map (\<lambda>n. let l = tree n in if length l > 0 then [l] else []) (node_path (portSpace + nat lo))) =
      concat (map (\<lambda>n. let l = pd_tree d n in if length l > 0 then [l] else []) (node_path (portSpace + nat lo)))"
    if "0 \<le> lo \<and> lo < int portSpace" for lo
    using path that by presburger
  then show "portDim_query (d\<lparr>pd_tree := tree\<rparr>) ports = portDim_query d ports"
    by (cases "toRanges [hd ports]") (simp_all add: portDim_query_def Let_def cong: if_cong)
qed

text \<open>A posting at the node of port 65536 would be out of the slice; the range 65536 is not put there.\<close>

theorem tree_nodes_in_slice_witness:
  "pd_tree (portDim_add 7 [''65536''] portDim_init) (2 * portSpace) = []"
  using tree_nodes_in_slice [of 7 "[''65536'']" portDim_init, THEN conjunct1, rule_format, of "2 * portSpace"]
  by (simp add: portDim_init_def)

section \<open>Drift\<close>

lemma match_keys_iff: "match_keys rs m k \<longleftrightarrow> m k \<or> k \<in> MatchKey ` set rs"
  by (induction rs arbitrary: m) auto

lemma drift_added_keys:
  "map (\<lambda>i. (iKey i, iRuleIndex i)) (drift_added base rs) =
     map (\<lambda>r. (''added|'' @ MatchKey r, rIndex r)) (filter (\<lambda>r. \<not> base (MatchKey r)) rs)"
  by (induction rs) (auto simp: Let_def)

lemma drift_removed_keys:
  "map (\<lambda>i. (iKey i, iRuleIndex i)) (drift_removed cur rs) =
     map (\<lambda>r. (''removed|'' @ MatchKey r, rIndex r)) (filter (\<lambda>r. \<not> cur (MatchKey r)) rs)"
  by (induction rs) (auto simp: Let_def)

text \<open>The drift check reports exactly the current rules whose match key is not in the baseline, then exactly
  the baseline rules whose match key is gone, each list in its order.\<close>

theorem drift_report:
  "map (\<lambda>i. (iKey i, iRuleIndex i)) (Drift baseline current) =
     map (\<lambda>r. (''added|'' @ MatchKey r, rIndex r)) (filter (\<lambda>r. MatchKey r \<notin> MatchKey ` set baseline) current) @
     map (\<lambda>r. (''removed|'' @ MatchKey r, rIndex r)) (filter (\<lambda>r. MatchKey r \<notin> MatchKey ` set current) baseline)"
  by (simp add: Drift_def drift_added_keys drift_removed_keys match_keys_iff)

text \<open>A match key leaves out whether the rule is enabled, so a deny that is switched off is no drift, although
  the traffic it blocked is now allowed.\<close>

theorem drift_misses_disabled_deny:
  "let r = plain_rule 1 Deny ''any'' ''any'' ''any''; r' = r\<lparr>rEnabled := False\<rparr>;
       p = \<lparr>p_src = IP4 7, p_dst = IP4 8, p_proto = ''tcp'', p_sport = 5, p_dport = 80, p_iface = ''eth0''\<rparr>
   in Drift [r] [r'] = [] \<and> (\<forall>env. decide env Allow [r] p = Deny \<and> decide env Allow [r'] p = Allow)"
  by (simp add: Let_def Drift_def MatchKey_def rule_matches_def iface_matches_def ifaceWildcard_def
      proto_matches_def str_eval addrs_match_def ports_match_def rule_examples)

section \<open>Permissive rules\<close>

lemma permissive_in: "issue \<in> set (permissive rs) \<longleftrightarrow> (\<exists>r \<in> set rs. issue \<in> set (permissive_rule r))"
  by (induction rs) auto

lemma permissive_rule_high:
  assumes "issue \<in> set (permissive_rule r)"
  shows "iRuleIndex issue = rIndex r \<and> rEnabled r \<and> rAction r = Allow \<and> \<not> rConditional r \<and>
    (iSeverity issue = ''high'' \<longrightarrow> anyAddr (rSrcAddrs r) \<and> anyAddr (rDstAddrs r) \<and> anyPort (rDstPorts r))"
  using assms unfolding permissive_rule_def Let_def
  by (cases "\<not> rEnabled r \<or> rAction r \<noteq> Allow"; cases "rConditional r \<or> loopback r";
      cases "anyAddr (rSrcAddrs r) \<and> anyAddr (rDstAddrs r) \<and> anyPort (rDstPorts r)";
      cases "anyAddr (rSrcAddrs r)"; cases "widePortSpan (rDstPorts r)") auto

text \<open>A high-severity permissive issue names an allow rule that really matches every packet of its interface,
  protocol and source ports.\<close>

theorem permissive_high_matches_all:
  assumes "issue \<in> set (permissive rules)" and "iSeverity issue = ''high''"
  shows "\<exists>r \<in> set rules. rIndex r = iRuleIndex issue \<and> rAction r = Allow \<and>
    (\<forall>env p. iface_matches (rIface r) (p_iface p) \<longrightarrow> proto_matches (rProto r) (p_proto p) \<longrightarrow>
       ports_match env (rSrcPorts r) (p_sport p) \<longrightarrow> rule_matches env r p)"
proof -
  from assms(1) obtain r where r: "r \<in> set rules" "issue \<in> set (permissive_rule r)"
    by (auto simp: permissive_in)
  from permissive_rule_high [OF r(2)] assms(2) r(1) show ?thesis
    by (intro bexI [of _ r]) (auto simp: rule_matches_def addrs_match_def ports_match_def)
qed

theorem permissive_high_matches_all_witness:
  "\<exists>r \<in> set [plain_rule 4 Allow ''any'' ''any'' ''any'']. rIndex r = 4 \<and> rAction r = Allow \<and>
    (\<forall>env p. iface_matches (rIface r) (p_iface p) \<longrightarrow> proto_matches (rProto r) (p_proto p) \<longrightarrow>
       ports_match env (rSrcPorts r) (p_sport p) \<longrightarrow> rule_matches env r p)"
proof -
  define issue where "issue = hd (permissive [plain_rule 4 Allow ''any'' ''any'' ''any''])"
  have "\<not> loopback (plain_rule 4 Allow ''any'' ''any'' ''any'')"
    by (simp add: loopback_def str_eval)
  then have "issue \<in> set (permissive [plain_rule 4 Allow ''any'' ''any'' ''any''])" "iSeverity issue = ''high''"
    "iRuleIndex issue = 4"
    by (simp_all add: issue_def permissive_rule_def rule_examples)
  then show ?thesis using permissive_high_matches_all by metis
qed

text \<open>The wide-port check is not monotone: an allow to ports 1 to 60000 is reported, and the same rule on every
  port, which covers it, is not.\<close>

theorem permissive_misses_all_ports:
  "let wide = plain_rule 1 Allow ''10.0.0.0/8'' ''10.1.0.0/16'' ''1-60000'';
       every = plain_rule 1 Allow ''10.0.0.0/8'' ''10.1.0.0/16'' ''any''
   in permissive [wide] \<noteq> [] \<and> Covers every wide \<and> permissive [every] = []"
proof -
  have r: "elem_range ''1-60000'' = Some \<lparr>r_lo = 1, r_hi = 60000\<rparr>" by (simp add: port_eval str_eval)
  have "\<not> loopback (plain_rule 1 Allow ''10.0.0.0/8'' ''10.1.0.0/16'' p)" for p
    by (simp add: loopback_def str_eval)
  then show ?thesis
    by (simp add: Let_def permissive_rule_def rule_examples widePortSpan_def toRanges_single r int_sub_def
        Covers_iff ifaceCovers_cases ifaceWildcard_def protoCovers_def portsCover_iff addrsCover_refl)
qed

end
