(* ===== verification/ParseBase.thy ===== *)
theory ParseBase
  imports FwSemantics
begin

text \<open>
  Package \<open>fwparse\<close>, the shared part of \<open>parse.go\<close> and of the token readers of \<open>iptables.go\<close>:
  the result of a parse, numbering, the list of lines not understood, and the tokenizer that
  keeps quoted strings whole. A range over the runes of a string followed by \<open>WriteRune\<close> copies
  valid UTF-8 byte by byte, which is what the tokenizer model does; text that is not valid
  UTF-8 is outside the model.
\<close>

section \<open>Results\<close>

record Result =
  resVendor :: string
  resRules :: "Rule list"
  resUnparsed :: "string list"

definition Vendors :: "string list" where
  "Vendors = [''iptables'', ''nftables'', ''cisco-asa'', ''pfsense'', ''fortinet'']"

definition VendorLabel :: "string \<Rightarrow> string" where
  "VendorLabel v =
     (if v = ''iptables'' then ''iptables''
      else if v = ''nftables'' then ''nftables''
      else if v = ''cisco-asa'' then ''Cisco ASA''
      else if v = ''pfsense'' then ''pfSense/OPNsense''
      else if v = ''fortinet'' then ''Fortinet FortiGate''
      else v)"

text \<open>The zero value of \<open>fwrule.Rule\<close>; the zero of the action type is the empty string, which no parser
  leaves in a rule it returns, so the field is \<open>Other\<close> until it is set.\<close>

definition zero_rule :: Rule where
  "zero_rule = \<lparr>rIndex = 0, rName = '''', rAction = Other, rSrcAddrs = [], rDstAddrs = [], rProto = '''',
     rSrcPorts = [], rDstPorts = [], rIface = '''', rDirection = '''', rEnabled = False, rLog = False,
     rDesc = '''', rRaw = '''', rConditional = False\<rparr>"

text \<open>The loop of \<open>reindex\<close> writes \<open>i + 1\<close> into the rule at \<open>i\<close>.\<close>

fun reindex_from :: "nat \<Rightarrow> Rule list \<Rightarrow> Rule list" where
  "reindex_from i [] = []"
| "reindex_from i (r # rs) = r\<lparr>rIndex := int i + 1\<rparr> # reindex_from (i + 1) rs"

definition reindex :: "Rule list \<Rightarrow> Rule list" where
  "reindex rules = reindex_from 0 rules"

fun dedupe_loop :: "string list \<Rightarrow> string list \<Rightarrow> string list \<Rightarrow> string list" where
  "dedupe_loop [] seen out = out"
| "dedupe_loop (s # ss) seen out =
     (if s = '''' \<or> s \<in> set seen then dedupe_loop ss seen out
      else dedupe_loop ss (s # seen) (out @ [s]))"

definition dedupeStrings :: "string list \<Rightarrow> string list" where
  "dedupeStrings ss = sort (dedupe_loop ss [] [])"

section \<open>Tokens\<close>

text \<open>The loop of \<open>fieldsRespectingQuotes\<close>: the tokens so far, the current one, whether inside quotes.\<close>

fun fields_loop :: "string \<Rightarrow> bool \<Rightarrow> string \<Rightarrow> string list \<Rightarrow> string list" where
  "fields_loop [] inQ cur out = (if cur \<noteq> [] then out @ [cur] else out)"
| "fields_loop (c # s) inQ cur out =
     (if c = CHR 0x22 then fields_loop s (\<not> inQ) (cur @ [c]) out
      else if (c = CHR '' '' \<or> c = CHR 0x09) \<and> \<not> inQ then
        (if cur \<noteq> [] then fields_loop s inQ [] (out @ [cur]) else fields_loop s inQ cur out)
      else fields_loop s inQ (cur @ [c]) out)"

definition fieldsRespectingQuotes :: "string \<Rightarrow> string list" where
  "fieldsRespectingQuotes s = fields_loop s False [] []"

definition unquoteAll :: "string list \<Rightarrow> string list" where
  "unquoteAll ss = map (\<lambda>s. Trim s [CHR 0x22]) ss"

definition splitPorts :: "string \<Rightarrow> string list" where
  "splitPorts s = map TrimSpace (Split s (CHR '',''))"

text \<open>The two spellings of the whole address space that \<open>normCIDR\<close> of \<open>iptables.go\<close> folds.\<close>

definition normCIDR_text :: "string \<Rightarrow> string" where
  "normCIDR_text a = (let a = TrimSpace a in if a = ''0.0.0.0/0'' \<or> a = '''' then ''any'' else a)"

text \<open>The lines of a config.\<close>

definition config_lines :: "string \<Rightarrow> string list" where
  "config_lines config = Split config (CHR 0x0A)"

section \<open>Facts\<close>

lemma length_reindex_from [simp]: "length (reindex_from i rs) = length rs"
  by (induction rs arbitrary: i) auto

lemma length_reindex [simp]: "length (reindex rs) = length rs"
  by (simp add: reindex_def)

lemma reindex_from_index: "map rIndex (reindex_from i rs) = map (\<lambda>k. int k + 1) [i..<i + length rs]"
  by (induction rs arbitrary: i) (auto simp: upt_conv_Cons simp del: upt_Suc)

lemma reindex_index: "map rIndex (reindex rs) = map (\<lambda>k. int k + 1) [0..<length rs]"
  using reindex_from_index [of 0 rs] by (simp add: reindex_def)

lemma reindex_distinct: "distinct (map rIndex (reindex rs))"
  unfolding reindex_index by (simp add: distinct_map inj_on_def)

text \<open>Numbering changes nothing else.\<close>

lemma reindex_same: "map (\<lambda>r. r\<lparr>rIndex := 0\<rparr>) (reindex rs) = map (\<lambda>r. r\<lparr>rIndex := 0\<rparr>) rs"
proof -
  have "map (\<lambda>r. r\<lparr>rIndex := 0\<rparr>) (reindex_from i rs) = map (\<lambda>r. r\<lparr>rIndex := 0\<rparr>) rs" for i
    by (induction rs arbitrary: i) auto
  then show ?thesis by (simp add: reindex_def)
qed

lemma dedupe_loop_spec:
  "set out \<subseteq> set seen \<Longrightarrow> distinct out \<Longrightarrow>
    set (dedupe_loop ss seen out) = set out \<union> (set ss - set seen - {''''}) \<and> distinct (dedupe_loop ss seen out)"
proof (induction ss arbitrary: seen out)
  case (Cons s ss)
  show ?case
  proof (cases "s = '''' \<or> s \<in> set seen")
    case True
    then show ?thesis using Cons.IH [OF Cons.prems] by auto
  next
    case False
    then have "set (out @ [s]) \<subseteq> set (s # seen)" "distinct (out @ [s])" using Cons.prems by auto
    from Cons.IH [OF this] False show ?thesis using Cons.prems(1) by auto
  qed
qed simp

lemma set_dedupeStrings: "set (dedupeStrings ss) = set ss - {''''}"
  using dedupe_loop_spec [of "[]" "[]" ss] by (simp add: dedupeStrings_def)

lemma sorted_dedupeStrings: "sorted (dedupeStrings ss)" and distinct_dedupeStrings: "distinct (dedupeStrings ss)"
  using dedupe_loop_spec [of "[]" "[]" ss] by (simp_all add: dedupeStrings_def)

text \<open>Tokens without blanks and quotes, joined by spaces, are read back.\<close>

definition plain_token :: "string \<Rightarrow> bool" where
  "plain_token w \<longleftrightarrow> w \<noteq> [] \<and> list_all (\<lambda>c. c \<noteq> CHR 0x22 \<and> c \<noteq> CHR '' '' \<and> c \<noteq> CHR 0x09) w"

lemma fields_loop_token:
  "list_all (\<lambda>c. c \<noteq> CHR 0x22 \<and> c \<noteq> CHR '' '' \<and> c \<noteq> CHR 0x09) w \<Longrightarrow>
    fields_loop (w @ s) False cur out = fields_loop s False (cur @ w) out"
  by (induction w arbitrary: cur) auto

lemma fields_loop_Join:
  "list_all plain_token ws \<Longrightarrow> fields_loop (Join ws '' '') False [] out = out @ ws"
proof (induction ws arbitrary: out)
  case (Cons w ws)
  then have w: "list_all (\<lambda>c. c \<noteq> CHR 0x22 \<and> c \<noteq> CHR '' '' \<and> c \<noteq> CHR 0x09) w" "w \<noteq> []"
    by (auto simp: plain_token_def)
  show ?case
  proof (cases ws)
    case Nil
    then show ?thesis using fields_loop_token [OF w(1), of "[]" "[]"] w(2) by simp
  next
    case (Cons v vs)
    then have "Join (w # ws) '' '' = w @ CHR '' '' # Join ws '' ''" by simp
    then have "fields_loop (Join (w # ws) '' '') False [] out = fields_loop (Join ws '' '') False [] (out @ [w])"
      using fields_loop_token [OF w(1), of _ "[]"] w(2) by simp
    then show ?thesis using Cons.IH Cons.prems by simp
  qed
qed simp

lemma fields_Join: "list_all plain_token ws \<Longrightarrow> fieldsRespectingQuotes (Join ws '' '') = ws"
  using fields_loop_Join [of ws "[]"] by (simp add: fieldsRespectingQuotes_def)

end
