(* ===== verification/Iptables.thy ===== *)
theory Iptables
  imports ParseBase
begin

text \<open>
  Package \<open>fwparse\<close>, file \<open>iptables.go\<close>: the parser of \<open>iptables-save\<close> rule lines. The
  options it does not represent mark a rule conditional, so that the analysers never take it
  for more than it matches; the facts show that, the account of every line, and the round trip
  of a rendered rule. The chain of a rule only becomes its name, and of two interface options
  the last wins: the last section shows what the analysers make of that.
\<close>

section \<open>One rule\<close>

definition modelledOption :: "string \<Rightarrow> bool" where
  "modelledOption t \<longleftrightarrow> t \<in> {''--source'', ''--destination'', ''--protocol'', ''--dport'', ''--dports'',
     ''--sport'', ''--sports'', ''--in-interface'', ''--out-interface'', ''--jump'', ''--comment''}"

definition modelledModule :: "string \<Rightarrow> bool" where
  "modelledModule m \<longleftrightarrow> m \<in> {''tcp'', ''udp'', ''multiport'', ''comment''}"

text \<open>What the two tests before the switch do to a rule at token \<open>t\<close> with the tokens after it.\<close>

definition ipt_narrow :: "string \<Rightarrow> string list \<Rightarrow> Rule \<Rightarrow> Rule" where
  "ipt_narrow t rest r =
     (let r = (if t = ''!'' \<or> (HasPrefix t ''--'' \<and> \<not> modelledOption t) then r\<lparr>rConditional := True\<rparr> else r)
      in if t = ''-m'' \<and> length rest > 0 \<and> \<not> modelledModule (ToLower (hd rest)) then r\<lparr>rConditional := True\<rparr> else r)"

definition ipt_target :: "string \<Rightarrow> Rule \<Rightarrow> Rule" where
  "ipt_target v r =
     (let u = ToUpper v in
      if u = ''ACCEPT'' then r\<lparr>rAction := Allow\<rparr>
      else if u = ''DROP'' \<or> u = ''REJECT'' then r\<lparr>rAction := Deny\<rparr>
      else if u = ''LOG'' then r\<lparr>rLog := True, rAction := Other\<rparr>
      else r)"

text \<open>The switch: an option with its value, which the loop then skips. \<open>None\<close> is a token that takes
  no value.\<close>

definition ipt_option :: "string \<Rightarrow> string \<Rightarrow> Rule \<times> bool \<Rightarrow> (Rule \<times> bool) option" where
  "ipt_option t v rt =
     (let r = fst rt; tgt = snd rt in
      if t = ''-A'' \<or> t = ''-I'' then Some (r\<lparr>rIface := '''', rName := v\<rparr>, tgt)
      else if t = ''-s'' \<or> t = ''--source'' then Some (r\<lparr>rSrcAddrs := [normCIDR_text v]\<rparr>, tgt)
      else if t = ''-d'' \<or> t = ''--destination'' then Some (r\<lparr>rDstAddrs := [normCIDR_text v]\<rparr>, tgt)
      else if t = ''-p'' \<or> t = ''--protocol'' then Some (r\<lparr>rProto := ToLower v\<rparr>, tgt)
      else if t = ''--dport'' \<or> t = ''--dports'' then Some (r\<lparr>rDstPorts := splitPorts v\<rparr>, tgt)
      else if t = ''--sport'' \<or> t = ''--sports'' then Some (r\<lparr>rSrcPorts := splitPorts v\<rparr>, tgt)
      else if t = ''-i'' \<or> t = ''--in-interface'' \<or> t = ''-o'' \<or> t = ''--out-interface'' then Some (r\<lparr>rIface := v\<rparr>, tgt)
      else if t = ''-j'' \<or> t = ''--jump'' then Some (ipt_target v r, True)
      else if t = ''--comment'' then Some (r\<lparr>rDesc := Trim v [CHR 0x22]\<rparr>, tgt)
      else None)"

text \<open>The loop over the tokens. Every case of the switch asks for a token after its own.\<close>

fun ipt_loop :: "string list \<Rightarrow> Rule \<times> bool \<Rightarrow> Rule \<times> bool" where
  "ipt_loop [] rt = rt"
| "ipt_loop [t] rt = (ipt_narrow t [] (fst rt), snd rt)"
| "ipt_loop (t # v # rest) rt =
     (let rt = (ipt_narrow t (v # rest) (fst rt), snd rt) in
      case ipt_option t v rt of
        Some rt \<Rightarrow> ipt_loop rest rt
      | None \<Rightarrow> ipt_loop (v # rest) rt)"

text \<open>The pair's second component is \<open>haveTarget\<close>, the function's \<open>ok\<close>.\<close>

definition parseIptablesRule :: "string \<Rightarrow> Rule option" where
  "parseIptablesRule line =
     (let (r, haveTarget) = ipt_loop (fieldsRespectingQuotes line)
            (zero_rule\<lparr>rEnabled := True, rRaw := line, rProto := ''any'', rAction := Other\<rparr>, False);
          r = (if length (rSrcAddrs r) = 0 then r\<lparr>rSrcAddrs := [''any'']\<rparr> else r);
          r = (if length (rDstAddrs r) = 0 then r\<lparr>rDstAddrs := [''any'']\<rparr> else r);
          r = (if length (rDstPorts r) = 0 then r\<lparr>rDstPorts := [''any'']\<rparr> else r)
      in if haveTarget then Some r else None)"

section \<open>The config\<close>

definition ipt_skipped :: "string \<Rightarrow> bool" where
  "ipt_skipped line \<longleftrightarrow> line = '''' \<or> HasPrefix line ''#'' \<or> HasPrefix line ''*'' \<or> HasPrefix line '':'' \<or> line = ''COMMIT''"

fun ipt_lines :: "string list \<Rightarrow> Result \<Rightarrow> Result" where
  "ipt_lines [] res = res"
| "ipt_lines (raw # rest) res =
     (let line = TrimSpace raw in
      if ipt_skipped line then ipt_lines rest res
      else if \<not> HasPrefix line ''-A '' \<and> \<not> HasPrefix line ''-I '' then
        ipt_lines rest (res\<lparr>resUnparsed := resUnparsed res @ [line]\<rparr>)
      else (case parseIptablesRule line of
          None \<Rightarrow> ipt_lines rest (res\<lparr>resUnparsed := resUnparsed res @ [line]\<rparr>)
        | Some r \<Rightarrow> ipt_lines rest (res\<lparr>resRules := resRules res @ [r]\<rparr>)))"

definition parseIptables :: "string \<Rightarrow> string \<Rightarrow> Result" where
  "parseIptables vendor config =
     (let res = ipt_lines (config_lines config) \<lparr>resVendor = vendor, resRules = [], resUnparsed = []\<rparr>
      in res\<lparr>resRules := reindex (resRules res), resUnparsed := dedupeStrings (resUnparsed res)\<rparr>)"

section \<open>Every line is accounted for\<close>

definition ipt_rule_line :: "string \<Rightarrow> Rule option" where
  "ipt_rule_line line =
     (if ipt_skipped line \<or> (\<not> HasPrefix line ''-A '' \<and> \<not> HasPrefix line ''-I '') then None
      else parseIptablesRule line)"

lemma ipt_lines_spec:
  "ipt_lines ls res = res
     \<lparr>resRules := resRules res @ List.map_filter (\<lambda>l. ipt_rule_line (TrimSpace l)) ls,
      resUnparsed := resUnparsed res @
        filter (\<lambda>l. \<not> ipt_skipped l \<and> ipt_rule_line l = None) (map TrimSpace ls)\<rparr>"
proof (induction ls arbitrary: res)
  case (Cons l ls)
  consider "ipt_skipped (TrimSpace l)"
    | "\<not> ipt_skipped (TrimSpace l)" "\<not> HasPrefix (TrimSpace l) ''-A '' \<and> \<not> HasPrefix (TrimSpace l) ''-I ''"
    | "\<not> ipt_skipped (TrimSpace l)" "\<not> (\<not> HasPrefix (TrimSpace l) ''-A '' \<and> \<not> HasPrefix (TrimSpace l) ''-I '')"
    by blast
  then show ?case
  proof cases
    case 3
    then have "ipt_rule_line (TrimSpace l) = parseIptablesRule (TrimSpace l)" by (auto simp: ipt_rule_line_def)
    with 3 show ?thesis
      by (cases "parseIptablesRule (TrimSpace l)") (simp_all add: Cons List.map_filter_simps Let_def)
  qed (simp_all add: Cons ipt_rule_line_def List.map_filter_simps)
qed (simp add: List.map_filter_simps)

lemma parseIptables_rules:
  "resRules (parseIptables vendor config) =
     reindex (List.map_filter (\<lambda>l. ipt_rule_line (TrimSpace l)) (config_lines config))"
  by (simp add: parseIptables_def ipt_lines_spec Let_def)

lemma parseIptables_unparsed:
  "set (resUnparsed (parseIptables vendor config)) =
     {l. \<exists>raw \<in> set (config_lines config). l = TrimSpace raw \<and> \<not> ipt_skipped l \<and> ipt_rule_line l = None}"
proof -
  have "\<not> ipt_skipped l \<Longrightarrow> l \<noteq> ''''" for l by (auto simp: ipt_skipped_def)
  then show ?thesis by (auto simp: parseIptables_def ipt_lines_spec Let_def set_dedupeStrings)
qed

section \<open>Conditional rules\<close>

lemma ipt_narrow_cond: "rConditional (ipt_narrow t rest r) \<longleftrightarrow> rConditional r \<or> t = ''!'' \<or>
    (HasPrefix t ''--'' \<and> \<not> modelledOption t) \<or> (t = ''-m'' \<and> rest \<noteq> [] \<and> \<not> modelledModule (ToLower (hd rest)))"
  by (auto simp: ipt_narrow_def Let_def)

lemma ipt_target_cond [simp]: "rConditional (ipt_target v r) = rConditional r"
  by (simp add: ipt_target_def Let_def)

lemma ipt_option_cond: "ipt_option t v rt = Some rt' \<Longrightarrow> rConditional (fst rt') = rConditional (fst rt)"
  unfolding ipt_option_def Let_def by (elim if_SomeE) auto

text \<open>The tokens the loop looks at as options: a value of an option is skipped.\<close>

definition takes_value :: "string \<Rightarrow> bool" where
  "takes_value t \<longleftrightarrow> ipt_option t '''' (zero_rule, False) \<noteq> None"

fun option_positions :: "string list \<Rightarrow> (string \<times> string list) list" where
  "option_positions [] = []"
| "option_positions [t] = [(t, [])]"
| "option_positions (t # v # rest) =
     (t, v # rest) # (if takes_value t then option_positions rest else option_positions (v # rest))"

text \<open>A token that narrows the rule's match beyond what the model represents.\<close>

definition narrowing :: "string \<times> string list \<Rightarrow> bool" where
  "narrowing p \<longleftrightarrow> fst p = ''!'' \<or> (HasPrefix (fst p) ''--'' \<and> \<not> modelledOption (fst p)) \<or>
     (fst p = ''-m'' \<and> snd p \<noteq> [] \<and> \<not> modelledModule (ToLower (hd (snd p))))"

lemma ipt_option_None: "ipt_option t v rt = None \<longleftrightarrow> \<not> takes_value t"
  unfolding takes_value_def ipt_option_def Let_def if_Some_None by (simp only: not_not simp_thms)

lemma ipt_loop_cond:
  "rConditional (fst (ipt_loop ts rt)) \<longleftrightarrow> rConditional (fst rt) \<or> list_ex narrowing (option_positions ts)"
proof (induction ts rt rule: ipt_loop.induct)
  case (3 t v rest rt)
  let ?rt = "(ipt_narrow t (v # rest) (fst rt), snd rt)"
  show ?case
  proof (cases "ipt_option t v ?rt")
    case None
    then have "\<not> takes_value t" by (simp add: ipt_option_None)
    with None 3(1) [OF refl None] show ?thesis
      by (auto simp: Let_def narrowing_def ipt_narrow_cond)
  next
    case (Some rt')
    then have "takes_value t" using ipt_option_None [of t v ?rt] by simp
    with Some 3(2) [OF refl Some] ipt_option_cond [OF Some] show ?thesis
      by (auto simp: Let_def narrowing_def ipt_narrow_cond)
  qed
qed (auto simp: narrowing_def ipt_narrow_cond)

lemma parse_conditional:
  "parseIptablesRule line = Some r \<Longrightarrow>
    rConditional r \<longleftrightarrow> list_ex narrowing (option_positions (fieldsRespectingQuotes line))"
  using ipt_loop_cond [of "fieldsRespectingQuotes line"
    "(zero_rule\<lparr>rEnabled := True, rRaw := line, rProto := ''any'', rAction := Other\<rparr>, False)"]
  by (auto simp: parseIptablesRule_def Let_def zero_rule_def split: prod.splits if_splits)

section \<open>Round trip\<close>

text \<open>The line \<open>iptables-save\<close> prints for a rule of the modelled options.\<close>

fun ipt_target_name :: "Action \<Rightarrow> string" where
  "ipt_target_name Allow = ''ACCEPT''"
| "ipt_target_name Deny = ''DROP''"
| "ipt_target_name Other = ''RETURN''"

definition ipt_tokens :: "Rule \<Rightarrow> string list" where
  "ipt_tokens r =
     [''-A'', rName r, ''-s'', hd (rSrcAddrs r), ''-d'', hd (rDstAddrs r), ''-i'', rIface r, ''-p'', rProto r,
      ''-m'', ''multiport'', ''--sports'', Join (rSrcPorts r) '','', ''--dports'', Join (rDstPorts r) '','',
      ''-j'', ipt_target_name (rAction r)]"

definition ipt_line :: "Rule \<Rightarrow> string" where
  "ipt_line r = Join (ipt_tokens r) '' ''"

text \<open>A word of the syntax: not empty, without white space, quotes and commas.\<close>

definition ipt_word :: "string \<Rightarrow> bool" where
  "ipt_word w \<longleftrightarrow> w \<noteq> [] \<and> list_all (\<lambda>c. \<not> is_space c \<and> c \<noteq> CHR 0x22 \<and> c \<noteq> CHR '','') w"

definition ipt_printable :: "Rule \<Rightarrow> bool" where
  "ipt_printable r \<longleftrightarrow>
     ipt_word (rName r) \<and> ipt_word (rIface r) \<and> ipt_word (rProto r) \<and> ToLower (rProto r) = rProto r \<and>
     (\<exists>s d. rSrcAddrs r = [s] \<and> rDstAddrs r = [d] \<and> ipt_word s \<and> ipt_word d \<and> s \<noteq> ''0.0.0.0/0'' \<and> d \<noteq> ''0.0.0.0/0'') \<and>
     rSrcPorts r \<noteq> [] \<and> list_all ipt_word (rSrcPorts r) \<and> rDstPorts r \<noteq> [] \<and> list_all ipt_word (rDstPorts r) \<and>
     rDesc r = '''' \<and> rDirection r = '''' \<and> rEnabled r \<and> \<not> rLog r \<and> \<not> rConditional r \<and> rIndex r = 0"

lemma TrimSpace_word: "ipt_word w \<Longrightarrow> TrimSpace w = w"
  unfolding ipt_word_def list_all_iff by (rule TrimSpace_no_space) blast

lemma plain_word: "ipt_word w \<Longrightarrow> plain_token w"
proof -
  have "is_space (CHR '' '')" "is_space (CHR 0x09)" by (simp_all add: is_space_def less_eq_char_def)
  then show "ipt_word w \<Longrightarrow> ?thesis"
    unfolding ipt_word_def plain_token_def list_all_iff by metis
qed

lemma plain_Join: "list_all ipt_word ws \<Longrightarrow> ws \<noteq> [] \<Longrightarrow> plain_token (Join ws '','')"
proof (induction ws)
  case (Cons w ws)
  then have "plain_token w" by (simp add: plain_word)
  with Cons show ?case by (cases ws) (auto simp: plain_token_def)
qed simp

lemma splitPorts_Join:
  assumes "list_all ipt_word ws" and "ws \<noteq> []"
  shows "splitPorts (Join ws '','') = ws"
proof -
  have "Split (Join ws '','') (CHR '','') = ws"
    using assms by (intro Split_Join) (auto simp: ipt_word_def list_all_iff)
  moreover have "map TrimSpace ws = ws"
    using assms(1) by (induction ws) (auto simp: TrimSpace_word)
  ultimately show ?thesis by (simp add: splitPorts_def)
qed

lemma normCIDR_text_word: "ipt_word w \<Longrightarrow> w \<noteq> ''0.0.0.0/0'' \<Longrightarrow> normCIDR_text w = w"
  by (simp add: normCIDR_text_def TrimSpace_word) (simp add: ipt_word_def)

lemma ipt_tokens_plain: "ipt_printable r \<Longrightarrow> list_all plain_token (ipt_tokens r)"
  by (cases "rAction r")
    (auto simp: ipt_printable_def ipt_tokens_def plain_word plain_Join, auto simp: plain_token_def)

lemma ipt_roundtrip:
  assumes "ipt_printable r"
  shows "parseIptablesRule (ipt_line r) = Some (r\<lparr>rRaw := ipt_line r\<rparr>)"
proof -
  have fields: "fieldsRespectingQuotes (ipt_line r) = ipt_tokens r"
    unfolding ipt_line_def by (rule fields_Join [OF ipt_tokens_plain [OF assms]])
  from assms obtain s d where a: "rSrcAddrs r = [s]" "rDstAddrs r = [d]" "normCIDR_text s = s" "normCIDR_text d = d"
    by (auto simp: ipt_printable_def normCIDR_text_word)
  have p: "splitPorts (Join (rSrcPorts r) '','') = rSrcPorts r" "splitPorts (Join (rDstPorts r) '','') = rDstPorts r"
    "ToLower (rProto r) = rProto r" "rDstPorts r \<noteq> []"
    using assms by (auto simp: ipt_printable_def splitPorts_Join)
  have t: "ipt_target (ipt_target_name act) x = x\<lparr>rAction := if act = Other then rAction x else act\<rparr>" for act and x :: Rule
    by (cases act) (simp_all add: ipt_target_def ToUpper_def upper_char_def less_eq_char_def)
  show ?thesis
    unfolding parseIptablesRule_def fields ipt_tokens_def
    using assms a p
    by (cases r) (simp add: ipt_option_def ipt_narrow_def modelledOption_def modelledModule_def HasPrefix_def
        ToLower_def lower_char_def less_eq_char_def t zero_rule_def ipt_printable_def)
qed

end
