(* ===== verification/AsaObjects.thy ===== *)
theory AsaObjects
  imports ParseBase "HOL-Library.AList"
begin

text \<open>
  Package \<open>fwparse\<close>, file \<open>ciscoasa_objects.go\<close> and the address and port helpers of
  \<open>ciscoasa.go\<close>: reading object and object-group definitions, and expanding a reference to the
  addresses or ports it stands for. The two tables are association lists (Go maps whose order
  is never read, because the expansion is sorted); the cache of expansions is part of the
  state. A nil receiver, which the parser never passes, is not modelled. The second half shows
  that the expansion ends on cyclic definitions, gives exactly the values reachable through
  nested groups, and that the cache changes no answer.
\<close>

section \<open>Addresses and ports\<close>

definition isIP :: "string \<Rightarrow> bool" where
  "isIP s \<longleftrightarrow> ParseIP s \<noteq> None"

definition ipMaskToCIDR :: "string \<Rightarrow> string \<Rightarrow> string" where
  "ipMaskToCIDR ip m =
     (case ParseIP m of
        None \<Rightarrow> ip @ ''/32''
      | Some x \<Rightarrow> (case To4 x of None \<Rightarrow> ip @ ''/32'' | Some w \<Rightarrow> ip @ ''/'' @ Itoa (int (fst (Size (Mask4 w))))))"

definition portName :: "string \<Rightarrow> string" where
  "portName s =
     (let l = ToLower s in
      if l = ''www'' \<or> l = ''http'' then ''80''
      else if l = ''https'' then ''443''
      else if l = ''ssh'' then ''22''
      else if l = ''telnet'' then ''23''
      else if l = ''domain'' then ''53''
      else if l = ''smtp'' then ''25''
      else if l = ''ftp'' then ''21''
      else if l = ''rdp'' \<or> l = ''ms-wbt-server'' then ''3389''
      else s)"

section \<open>Definitions of a config\<close>

record asaMember =
  m_literal :: string
  m_ref :: string

abbreviation lit :: "string \<Rightarrow> asaMember" where
  "lit s \<equiv> \<lparr>m_literal = s, m_ref = ''''\<rparr>"

abbreviation mref :: "string \<Rightarrow> asaMember" where
  "mref s \<equiv> \<lparr>m_literal = '''', m_ref = s\<rparr>"

type_synonym asaTable = "(string \<times> asaMember list) list"

record asaObjects =
  o_nets :: asaTable
  o_svcs :: asaTable
  o_netCache :: "(string \<times> string list) list"
  o_svcCache :: "(string \<times> string list) list"

definition newASAObjects :: asaObjects where
  "newASAObjects = \<lparr>o_nets = [], o_svcs = [], o_netCache = [], o_svcCache = []\<rparr>"

definition asaMaxExpand :: nat where
  "asaMaxExpand = 256"

definition hasNet :: "asaObjects \<Rightarrow> string \<Rightarrow> bool" where
  "hasNet objs name \<longleftrightarrow> map_of (o_nets objs) name \<noteq> None"

definition hasSvc :: "asaObjects \<Rightarrow> string \<Rightarrow> bool" where
  "hasSvc objs name \<longleftrightarrow> map_of (o_svcs objs) name \<noteq> None"

section \<open>Expansion\<close>

text \<open>\<open>resolve\<close> and its loop over the members of one definition. The names already on the path are an
  argument, as the code adds a name before the loop and deletes it on return. \<open>None\<close> is \<open>ok = false\<close>.\<close>

function resolve :: "asaTable \<Rightarrow> string list \<Rightarrow> string \<Rightarrow> string list option"
  and resolve_members :: "asaTable \<Rightarrow> string list \<Rightarrow> asaMember list \<Rightarrow> string list \<Rightarrow> string list option" where
  "resolve table seen name =
     (if name \<in> set seen then Some []
      else (case map_of table name of
          None \<Rightarrow> Some (dedupeStrings [])
        | Some ms \<Rightarrow> map_option dedupeStrings (resolve_members table (name # seen) ms [])))"
| "resolve_members table seen [] out = Some out"
| "resolve_members table seen (m # ms) out =
     (case (if m_ref m = '''' then Some (if m_literal m \<noteq> '''' then out @ [m_literal m] else out)
            else if map_of table (m_ref m) \<noteq> None then
              (case resolve table seen (m_ref m) of None \<Rightarrow> None | Some sub \<Rightarrow> Some (out @ sub))
            else Some (out @ [m_ref m])) of
        None \<Rightarrow> None
      | Some out \<Rightarrow> if length out > asaMaxExpand then None else resolve_members table seen ms out)"
  by pat_completeness auto
termination
proof (relation "measures
    [\<lambda>x. case x of Inl (table, seen, name) \<Rightarrow> 2 * card (fst ` set table - set seen)
                 | Inr (table, seen, ms, out) \<Rightarrow> 2 * card (fst ` set table - set seen) + 1,
     \<lambda>x. case x of Inl _ \<Rightarrow> 0 | Inr (table, seen, ms, out) \<Rightarrow> length ms]", goal_cases)
  case (2 table seen name ms)
  then have "name \<in> fst ` set table - set seen"
    by (auto dest: map_of_SomeD intro: rev_image_eqI)
  then have "card (fst ` set table - set (name # seen)) < card (fst ` set table - set seen)"
    by (intro psubset_card_mono) auto
  then show ?case by simp
qed auto

declare resolve.simps [simp del] resolve_members.simps [simp del]

text \<open>\<open>expand\<close>: the answer and the objects with the answer cached.\<close>

definition expand :: "string \<Rightarrow> bool \<Rightarrow> asaObjects \<Rightarrow> string list \<times> asaObjects" where
  "expand name isNet objs =
     (let table = (if isNet then o_nets objs else o_svcs objs);
          cache = (if isNet then o_netCache objs else o_svcCache objs)
      in if map_of table name = None then ([name], objs)
         else (case map_of cache name of
             Some got \<Rightarrow> (got, objs)
           | None \<Rightarrow>
               (let out = (case resolve table [] name of
                     None \<Rightarrow> [name]
                   | Some out \<Rightarrow> if length out = 0 then [name] else out)
                in (out, if isNet then objs\<lparr>o_netCache := AList.update name out cache\<rparr>
                         else objs\<lparr>o_svcCache := AList.update name out cache\<rparr>))))"

definition expandNet :: "string \<Rightarrow> asaObjects \<Rightarrow> string list \<times> asaObjects" where
  "expandNet name objs = expand name True objs"

definition expandSvc :: "string \<Rightarrow> asaObjects \<Rightarrow> string list \<times> asaObjects" where
  "expandSvc name objs = expand name False objs"

section \<open>Reading definitions\<close>

definition asaNetMember :: "string list \<Rightarrow> asaMember option" where
  "asaNetMember toks =
     (let t0 = toks ! 0; n = length toks in
      if t0 = ''host'' then (if n \<ge> 2 then Some (lit (toks ! 1)) else None)
      else if t0 = ''subnet'' then
        (if n \<ge> 3 \<and> isIP (toks ! 1) \<and> isIP (toks ! 2) then Some (lit (ipMaskToCIDR (toks ! 1) (toks ! 2)))
         else if n \<ge> 2 \<and> Contains (toks ! 1) ''/'' then Some (lit (toks ! 1))
         else None)
      else if t0 = ''range'' then (if n \<ge> 3 then Some (lit (toks ! 1 @ ''-'' @ toks ! 2)) else None)
      else if t0 = ''fqdn'' then (if n \<ge> 2 then Some (lit (toks ! (n - 1))) else None)
      else if t0 = ''network-object'' then
        (if n \<ge> 3 \<and> toks ! 1 = ''object'' then Some (mref (toks ! 2))
         else if n \<ge> 3 \<and> toks ! 1 = ''host'' then Some (lit (toks ! 2))
         else if n \<ge> 3 \<and> isIP (toks ! 1) \<and> isIP (toks ! 2) then Some (lit (ipMaskToCIDR (toks ! 1) (toks ! 2)))
         else if n \<ge> 2 \<and> Contains (toks ! 1) ''/'' then Some (lit (toks ! 1))
         else if n \<ge> 2 \<and> toks ! 1 = ''any'' then Some (lit ''any'')
         else if n \<ge> 2 \<and> isIP (toks ! 1) then Some (lit (toks ! 1 @ ''/32''))
         else None)
      else None)"

text \<open>The loop over the tokens of a service member for \<open>eq\<close> and \<open>range\<close>.\<close>

fun asa_svc_port :: "string list \<Rightarrow> string option" where
  "asa_svc_port [] = None"
| "asa_svc_port (t # rest) =
     (if t = ''eq'' \<and> length rest \<ge> 1 then Some (portName (rest ! 0))
      else if t = ''range'' \<and> length rest \<ge> 2 then Some (portName (rest ! 0) @ ''-'' @ portName (rest ! 1))
      else asa_svc_port rest)"

definition asaSvcMember :: "string list \<Rightarrow> asaMember option" where
  "asaSvcMember toks =
     (let t0 = toks ! 0; n = length toks in
      if t0 = ''port-object'' \<or> t0 = ''service-object'' \<or> t0 = ''service'' \<or> t0 = ''protocol-object'' \<or>
         t0 = ''icmp-object'' then
        (if n \<ge> 3 \<and> toks ! 1 = ''object'' then Some (mref (toks ! 2))
         else (case asa_svc_port (tl toks) of
             Some p \<Rightarrow> Some (lit p)
           | None \<Rightarrow> if n \<ge> 2 then Some (lit '''') else None))
      else None)"

datatype asaKind = NoBlock | NetBlock | SvcBlock

definition declare_name :: "string \<Rightarrow> asaTable \<Rightarrow> asaTable" where
  "declare_name name table = (if map_of table name = None then AList.update name [] table else table)"

definition add_member :: "string \<Rightarrow> asaMember \<Rightarrow> asaTable \<Rightarrow> asaTable" where
  "add_member name m table =
     AList.update name ((case map_of table name of None \<Rightarrow> [] | Some ms \<Rightarrow> ms) @ [m]) table"

definition appendMember :: "asaKind \<Rightarrow> string \<Rightarrow> asaMember \<Rightarrow> asaObjects \<Rightarrow> asaObjects" where
  "appendMember kind name m objs =
     (if name = '''' then objs
      else if kind = NetBlock then objs\<lparr>o_nets := add_member name m (o_nets objs)\<rparr>
      else objs\<lparr>o_svcs := add_member name m (o_svcs objs)\<rparr>)"

text \<open>The state of the scan: the objects, the lines consumed, the open block.\<close>

record asaScan =
  sc_objs :: asaObjects
  sc_consumed :: "nat list"
  sc_kind :: asaKind
  sc_name :: string

definition closeBlock :: "asaScan \<Rightarrow> asaScan" where
  "closeBlock s = s\<lparr>sc_kind := NoBlock, sc_name := ''''\<rparr>"

definition scan_header :: "nat \<Rightarrow> string list \<Rightarrow> asaScan \<Rightarrow> asaScan" where
  "scan_header idx toks s =
     (let s = closeBlock s in
      if length toks \<ge> 3 \<and> toks ! 1 = ''network'' then
        s\<lparr>sc_kind := NetBlock, sc_name := toks ! 2,
          sc_objs := (sc_objs s)\<lparr>o_nets := declare_name (toks ! 2) (o_nets (sc_objs s))\<rparr>,
          sc_consumed := sc_consumed s @ [idx]\<rparr>
      else if length toks \<ge> 3 \<and> (toks ! 1 = ''service'' \<or> toks ! 1 = ''protocol'' \<or> toks ! 1 = ''icmp-type'') then
        s\<lparr>sc_kind := SvcBlock, sc_name := toks ! 2,
          sc_objs := (sc_objs s)\<lparr>o_svcs := declare_name (toks ! 2) (o_svcs (sc_objs s))\<rparr>,
          sc_consumed := sc_consumed s @ [idx]\<rparr>
      else s)"

definition scan_member :: "nat \<Rightarrow> asaMember \<Rightarrow> asaScan \<Rightarrow> asaScan" where
  "scan_member idx m s =
     s\<lparr>sc_objs := appendMember (sc_kind s) (sc_name s) m (sc_objs s), sc_consumed := sc_consumed s @ [idx]\<rparr>"

definition scan_line :: "nat \<Rightarrow> string \<Rightarrow> asaScan \<Rightarrow> asaScan" where
  "scan_line idx raw s =
     (let line = TrimSpace raw in
      if line = '''' \<or> HasPrefix line ''!'' then s
      else
        let toks = Fields line in
        if toks ! 0 = ''object'' \<or> toks ! 0 = ''object-group'' then scan_header idx toks s
        else if sc_kind s = NoBlock then s
        else if toks ! 0 = ''description'' then s\<lparr>sc_consumed := sc_consumed s @ [idx]\<rparr>
        else if toks ! 0 = ''group-object'' then
          (if length toks \<ge> 2 then scan_member idx (mref (toks ! 1)) s else s)
        else (case (if sc_kind s = NetBlock then asaNetMember toks else asaSvcMember toks) of
            Some m \<Rightarrow> scan_member idx m s
          | None \<Rightarrow> closeBlock s))"

fun scan_lines :: "nat \<Rightarrow> string list \<Rightarrow> asaScan \<Rightarrow> asaScan" where
  "scan_lines idx [] s = s"
| "scan_lines idx (raw # rest) s = scan_lines (idx + 1) rest (scan_line idx raw s)"

definition scanASAObjects :: "string list \<Rightarrow> asaObjects \<times> nat list" where
  "scanASAObjects ls =
     (let s = scan_lines 0 ls \<lparr>sc_objs = newASAObjects, sc_consumed = [], sc_kind = NoBlock, sc_name = ''''\<rparr>
      in (sc_objs s, sc_consumed s))"

section \<open>What a name stands for\<close>

text \<open>The values reachable from a name: its own, and those of the definitions it refers to. A reference to
  an undefined name stands for that name.\<close>

definition own_value :: "asaTable \<Rightarrow> string \<Rightarrow> string \<Rightarrow> bool" where
  "own_value table n x \<longleftrightarrow> (\<exists>ms m. map_of table n = Some ms \<and> m \<in> set ms \<and>
     (m_ref m = '''' \<and> m_literal m \<noteq> '''' \<and> x = m_literal m \<or>
      m_ref m \<noteq> '''' \<and> map_of table (m_ref m) = None \<and> x = m_ref m))"

definition refers :: "asaTable \<Rightarrow> string \<Rightarrow> string \<Rightarrow> bool" where
  "refers table n n' \<longleftrightarrow> (\<exists>ms m. map_of table n = Some ms \<and> m \<in> set ms \<and>
     m_ref m \<noteq> '''' \<and> n' = m_ref m \<and> map_of table n' \<noteq> None)"

inductive contributes :: "asaTable \<Rightarrow> string \<Rightarrow> string \<Rightarrow> bool" for table where
  own: "own_value table n x \<Longrightarrow> contributes table n x"
| nested: "refers table n n' \<Longrightarrow> contributes table n' x \<Longrightarrow> contributes table n x"

text \<open>The same along paths that visit no name twice and none of a set.\<close>

inductive creach :: "asaTable \<Rightarrow> string set \<Rightarrow> string \<Rightarrow> string \<Rightarrow> bool" for table where
  here: "n \<notin> S \<Longrightarrow> own_value table n x \<Longrightarrow> creach table S n x"
| step: "n \<notin> S \<Longrightarrow> refers table n n' \<Longrightarrow> creach table (insert n S) n' x \<Longrightarrow> creach table S n x"

inductive_simps creach_iff: "creach table S n x"

lemma own_value_ne: "own_value table n x \<Longrightarrow> x \<noteq> ''''"
  by (auto simp: own_value_def)

lemma creach_ne: "creach table S n x \<Longrightarrow> x \<noteq> ''''"
  by (induction rule: creach.induct) (auto dest: own_value_ne)

lemma creach_contributes: "creach table S n x \<Longrightarrow> contributes table n x"
  by (induction rule: creach.induct) (auto intro: contributes.intros)

fun ref_path :: "asaTable \<Rightarrow> string list \<Rightarrow> bool" where
  "ref_path table (n # n' # ns) \<longleftrightarrow> refers table n n' \<and> ref_path table (n' # ns)"
| "ref_path table ns \<longleftrightarrow> ns \<noteq> []"

lemma contributes_path:
  "contributes table n x \<Longrightarrow> \<exists>p. ref_path table p \<and> hd p = n \<and> own_value table (last p) x"
proof (induction rule: contributes.induct)
  case (own n x)
  then show ?case by (intro exI [of _ "[n]"]) simp
next
  case (nested n n' x)
  then obtain p where p: "ref_path table p" "hd p = n'" "own_value table (last p) x" by blast
  then have "p \<noteq> []" by (cases p) auto
  then obtain ps where "p = n' # ps" using p(2) by (cases p) auto
  with p nested(1) show ?case by (intro exI [of _ "n # p"]) simp
qed

lemma ref_path_suffix: "ref_path table (us @ vs) \<Longrightarrow> vs \<noteq> [] \<Longrightarrow> ref_path table vs"
proof (induction us)
  case (Cons u us)
  then show ?case by (cases "us @ vs") auto
qed simp

lemma path_creach:
  "ref_path table p \<Longrightarrow> own_value table (last p) x \<Longrightarrow> set p \<inter> S = {} \<Longrightarrow> creach table S (hd p) x"
proof (induction "length p" arbitrary: p S rule: less_induct)
  case less
  then have ne: "p \<noteq> []" by (cases p) auto
  then obtain us vs where p: "p = us @ hd p # vs" "hd p \<notin> set vs"
    using split_list_last [of "hd p" p] by auto
  have disj: "hd p \<notin> S" using less.prems(3) ne by (meson disjoint_iff hd_in_set)
  show ?case
  proof (cases "vs = []")
    case True
    then have "last p = hd p" using p(1) by (metis last_snoc)
    with less.prems(2) disj show ?thesis by (intro creach.here) simp_all
  next
    case False
    have path: "ref_path table (hd p # vs)" using ref_path_suffix p(1) less.prems(1) by (metis list.distinct(1))
    then have "ref_path table vs" "refers table (hd p) (hd vs)" using False by (cases vs; simp)+
    moreover have "last vs = last p" using p(1) False by (metis last_ConsR last_append list.distinct(1))
    moreover have "set vs \<subseteq> set p"
      using arg_cong [OF p(1), of set] by (simp only: set_append list.set) blast
    then have "set vs \<inter> insert (hd p) S = {}" using p(2) less.prems(3) by blast
    moreover have "length vs < length p" using arg_cong [OF p(1), of length] by simp
    ultimately have "creach table (insert (hd p) S) (hd vs) x" using less.hyps less.prems(2) by metis
    with disj \<open>refers table (hd p) (hd vs)\<close> show ?thesis by (rule creach.step)
  qed
qed

lemma contributes_creach: "contributes table n x \<longleftrightarrow> creach table {} n x"
  using contributes_path [of table n x] path_creach [of table _ x "{}"] creach_contributes by fastforce

section \<open>The expansion is exact\<close>

definition member_value :: "asaTable \<Rightarrow> string set \<Rightarrow> asaMember \<Rightarrow> string \<Rightarrow> bool" where
  "member_value table S m x \<longleftrightarrow>
     m_ref m = '''' \<and> m_literal m \<noteq> '''' \<and> x = m_literal m \<or>
     m_ref m \<noteq> '''' \<and> map_of table (m_ref m) = None \<and> x = m_ref m \<or>
     m_ref m \<noteq> '''' \<and> map_of table (m_ref m) \<noteq> None \<and> creach table S (m_ref m) x"

lemma creach_members:
  assumes "n \<notin> S" and "map_of table n = Some ms"
  shows "creach table S n x \<longleftrightarrow> (\<exists>m \<in> set ms. member_value table (insert n S) m x)"
  using assms unfolding creach_iff [of table S n x] own_value_def refers_def member_value_def by auto

lemma creach_undefined: "map_of table n = None \<Longrightarrow> \<not> creach table S n x"
  unfolding creach_iff [of table S n x] own_value_def refers_def by simp

lemma creach_seen: "n \<in> S \<Longrightarrow> \<not> creach table S n x"
  by (simp add: creach_iff [of table S n x])

lemma resolve_values:
  "resolve table seen name = Some res \<Longrightarrow> set res = {x. creach table (set seen) name x} \<and> length res \<le> asaMaxExpand"
  "resolve_members table seen ms out = Some res \<Longrightarrow> length out \<le> asaMaxExpand \<Longrightarrow>
    set res = set out \<union> {x. \<exists>m \<in> set ms. member_value table (set seen) m x} \<and> length res \<le> asaMaxExpand"
proof (induction table seen name and table seen ms out arbitrary: res and res rule: resolve_resolve_members.induct)
  case (1 table seen name)
  show ?case
  proof (cases "name \<in> set seen")
    case True
    with "1.prems" show ?thesis by (auto simp: resolve.simps creach_seen)
  next
    case False
    show ?thesis
    proof (cases "map_of table name")
      case None
      with False "1.prems" show ?thesis
        by (auto simp: resolve.simps creach_undefined dedupeStrings_def)
    next
      case (Some ms)
      with False "1.prems" obtain out where out: "resolve_members table (name # seen) ms [] = Some out"
        and res: "res = dedupeStrings out" by (auto simp: resolve.simps)
      from "1.IH" [OF False Some out] have o: "set out = {x. \<exists>m \<in> set ms. member_value table (insert name (set seen)) m x}"
        "length out \<le> asaMaxExpand" by simp_all
      have vals: "set out = {x. creach table (set seen) name x}"
        unfolding o(1) using creach_members [OF False Some] by auto
      then have "'''' \<notin> set out" using creach_ne by blast
      then have "set res = set out" by (simp add: res set_dedupeStrings)
      moreover have "length res \<le> length out"
        unfolding res by (metis calculation card_length distinct_card distinct_dedupeStrings res)
      ultimately show ?thesis using vals o(2) by simp
    qed
  qed
next
  case (2 table seen out)
  then show ?case by (simp add: resolve_members.simps)
next
  case (3 table seen m ms out)
  let ?step = "if m_ref m = '''' then Some (if m_literal m \<noteq> '''' then out @ [m_literal m] else out)
     else if map_of table (m_ref m) \<noteq> None then
       (case resolve table seen (m_ref m) of None \<Rightarrow> None | Some sub \<Rightarrow> Some (out @ sub))
     else Some (out @ [m_ref m])"
  have unf: "resolve_members table seen (m # ms) out =
      (case ?step of None \<Rightarrow> None | Some out \<Rightarrow> if length out > asaMaxExpand then None else resolve_members table seen ms out)"
    by (rule resolve_members.simps)
  obtain out' where st: "?step = Some out'" "\<not> length out' > asaMaxExpand" "resolve_members table seen ms out' = Some res"
    using "3.prems"(1) unfolding unf by (cases ?step) (simp, simp split: if_split_asm)
  have vals: "set out' = set out \<union> {x. member_value table (set seen) m x}"
  proof -
    consider "m_ref m = ''''" | "m_ref m \<noteq> ''''" "map_of table (m_ref m) = None"
      | sub where "m_ref m \<noteq> ''''" "map_of table (m_ref m) \<noteq> None" "resolve table seen (m_ref m) = Some sub" "out' = out @ sub"
      using st(1) by (cases "resolve table seen (m_ref m)") (auto split: if_split_asm)
    then show ?thesis
    proof cases
      case 3
      then show ?thesis using "3.IH"(1) [OF 3(1) _ 3(3)] by (auto simp: member_value_def)
    qed (use st(1) in \<open>auto simp: member_value_def split: if_split_asm\<close>)
  qed
  have "length out' \<le> asaMaxExpand" using st(2) by simp
  from "3.IH"(2) [OF st(1) st(2) st(3) this] vals show ?case by auto
qed

section \<open>The cache\<close>

text \<open>The answer without a cache.\<close>

definition fresh_expand :: "asaTable \<Rightarrow> string \<Rightarrow> string list" where
  "fresh_expand table name =
     (if map_of table name = None then [name]
      else (case resolve table [] name of
          None \<Rightarrow> [name]
        | Some out \<Rightarrow> if length out = 0 then [name] else out))"

definition cache_ok :: "asaTable \<Rightarrow> (string \<times> string list) list \<Rightarrow> bool" where
  "cache_ok table cache \<longleftrightarrow> (\<forall>(n, v) \<in> set cache. v = fresh_expand table n)"

definition objs_ok :: "asaObjects \<Rightarrow> bool" where
  "objs_ok objs \<longleftrightarrow> cache_ok (o_nets objs) (o_netCache objs) \<and> cache_ok (o_svcs objs) (o_svcCache objs)"

definition same_tables :: "asaObjects \<Rightarrow> asaObjects \<Rightarrow> bool" where
  "same_tables a b \<longleftrightarrow> o_nets a = o_nets b \<and> o_svcs a = o_svcs b"

lemma cache_update: "cache_ok table cache \<Longrightarrow> cache_ok table (AList.update n (fresh_expand table n) cache)"
  by (induction cache) (auto simp: cache_ok_def split: if_splits)

lemma expand_fresh:
  assumes "objs_ok objs"
  shows "fst (expand name isNet objs) = fresh_expand (if isNet then o_nets objs else o_svcs objs) name"
    and "objs_ok (snd (expand name isNet objs))" and "same_tables objs (snd (expand name isNet objs))"
proof -
  define table where "table = (if isNet then o_nets objs else o_svcs objs)"
  define cache where "cache = (if isNet then o_netCache objs else o_svcCache objs)"
  have ok: "cache_ok table cache" using assms by (simp add: objs_ok_def table_def cache_def)
  have eq: "expand name isNet objs =
      (if map_of table name = None then ([name], objs)
       else case map_of cache name of
           Some got \<Rightarrow> (got, objs)
         | None \<Rightarrow> (fresh_expand table name,
             if isNet then objs\<lparr>o_netCache := AList.update name (fresh_expand table name) cache\<rparr>
             else objs\<lparr>o_svcCache := AList.update name (fresh_expand table name) cache\<rparr>))"
    by (simp add: expand_def fresh_expand_def table_def cache_def Let_def split: option.splits)
  have got: "map_of cache name = Some v \<Longrightarrow> v = fresh_expand table name" for v
    using ok by (auto simp: cache_ok_def dest: map_of_SomeD)
  show "fst (expand name isNet objs) = fresh_expand (if isNet then o_nets objs else o_svcs objs) name"
    unfolding eq table_def [symmetric] using got
    by (cases "map_of table name"; cases "map_of cache name") (auto simp: fresh_expand_def)
  show "objs_ok (snd (expand name isNet objs))"
    unfolding eq using assms cache_update [OF ok, of name]
    by (cases "map_of table name"; cases "map_of cache name"; cases isNet)
      (simp_all add: objs_ok_def table_def)
  show "same_tables objs (snd (expand name isNet objs))"
    unfolding eq
    by (cases "map_of table name"; cases "map_of cache name"; cases isNet) (simp_all add: same_tables_def)
qed

text \<open>The objects the scan builds have empty caches.\<close>

lemma appendMember_caches [simp]:
  "o_netCache (appendMember k n m objs) = o_netCache objs" "o_svcCache (appendMember k n m objs) = o_svcCache objs"
  by (simp_all add: appendMember_def)

definition no_caches :: "asaScan \<Rightarrow> bool" where
  "no_caches s \<longleftrightarrow> o_netCache (sc_objs s) = [] \<and> o_svcCache (sc_objs s) = []"

lemma scan_line_caches: "no_caches s \<Longrightarrow> no_caches (scan_line idx raw s)"
  by (simp add: no_caches_def scan_line_def scan_header_def scan_member_def closeBlock_def Let_def
      split: option.split)

lemma scan_lines_caches: "no_caches s \<Longrightarrow> no_caches (scan_lines idx ls s)"
  by (induction ls arbitrary: idx s) (simp_all add: scan_line_caches)

lemma scan_objs_ok: "objs_ok (fst (scanASAObjects ls))"
  using scan_lines_caches [of "\<lparr>sc_objs = newASAObjects, sc_consumed = [], sc_kind = NoBlock, sc_name = ''''\<rparr>" 0 ls]
  by (simp add: scanASAObjects_def objs_ok_def cache_ok_def no_caches_def newASAObjects_def Let_def)

end
