(* ===== verification/AsaParse.thy ===== *)
theory AsaParse
  imports AsaObjects
begin

text \<open>
  Package \<open>fwparse\<close>, file \<open>ciscoasa.go\<close>: the parser of ASA \<open>access-list\<close> lines. The token
  readers work on the index into the token list as the code does, and hand the objects on,
  whose cache an expansion fills. \<open>None\<close> of a reader is \<open>ok = false\<close>. The facts show that the
  parser reads the same rules as one without a cache, and account for every line.
\<close>

section \<open>Token readers\<close>

definition asaAddr :: "string list \<Rightarrow> nat \<Rightarrow> asaObjects \<Rightarrow> (string list \<times> nat) option \<times> asaObjects" where
  "asaAddr toks i objs =
     (if i \<ge> length toks then (None, objs)
      else
        let t = toks ! i; more = (i + 1 < length toks) in
        if t = ''any'' \<or> t = ''any4'' \<or> t = ''any6'' then (Some ([''any''], i + 1), objs)
        else if t = ''host'' then (if more then Some ([toks ! (i + 1)], i + 2) else None, objs)
        else if t = ''object'' \<or> t = ''object-group'' then
          (if more then (let (out, objs) = expandNet (toks ! (i + 1)) objs in (Some (out, i + 2), objs))
           else (None, objs))
        else if t = ''interface'' then (if more then Some ([toks ! (i + 1)], i + 2) else None, objs)
        else if more \<and> isIP t \<and> isIP (toks ! (i + 1)) then (Some ([ipMaskToCIDR t (toks ! (i + 1))], i + 2), objs)
        else if isIP t then (Some ([t @ ''/32''], i + 1), objs)
        else (None, objs))"

text \<open>The sum of two Go ints wraps at 64 bits.\<close>

definition int_add :: "int \<Rightarrow> int \<Rightarrow> int" where
  "int_add a b = sint (word_of_int (a + b) :: 64 word)"

definition asaPort :: "string list \<Rightarrow> nat \<Rightarrow> asaObjects \<Rightarrow> (string list \<times> nat) \<times> asaObjects" where
  "asaPort toks i objs =
     (if i \<ge> length toks then (([''any''], i), objs)
      else
        let t = toks ! i; more = (i + 1 < length toks) in
        if (t = ''object'' \<or> t = ''object-group'') \<and> more \<and> hasSvc objs (toks ! (i + 1)) \<and> \<not> hasNet objs (toks ! (i + 1)) then
          (let (out, objs) = expandSvc (toks ! (i + 1)) objs in ((out, i + 2), objs))
        else if t = ''eq'' \<and> more then (([portName (toks ! (i + 1))], i + 2), objs)
        else if t = ''range'' \<and> i + 2 < length toks then
          (([portName (toks ! (i + 1)) @ ''-'' @ portName (toks ! (i + 2))], i + 3), objs)
        else if t = ''gt'' \<and> more \<and> Atoi (portName (toks ! (i + 1))) \<noteq> None then
          (([Itoa (int_add (the (Atoi (portName (toks ! (i + 1))))) 1) @ ''-65535''], i + 2), objs)
        else if t = ''lt'' \<and> more \<and> Atoi (portName (toks ! (i + 1))) \<noteq> None then
          (([''1-'' @ Itoa (int_add (the (Atoi (portName (toks ! (i + 1))))) (- 1))], i + 2), objs)
        else (([''any''], i), objs))"

fun asa_flags :: "string list \<Rightarrow> Rule \<Rightarrow> Rule" where
  "asa_flags [] r = r"
| "asa_flags (t # toks) r =
     asa_flags toks (if t = ''log'' then r\<lparr>rLog := True\<rparr> else if t = ''inactive'' then r\<lparr>rEnabled := False\<rparr> else r)"

text \<open>The part of \<open>parseASARule\<close> after the protocol.\<close>

definition asa_match :: "string list \<Rightarrow> nat \<Rightarrow> asaObjects \<Rightarrow> Rule \<Rightarrow> Rule option \<times> asaObjects" where
  "asa_match toks i objs r =
     (case asaAddr toks i objs of
        (None, objs) \<Rightarrow> (None, objs)
      | (Some (src, i), objs) \<Rightarrow>
          (let ((sport, i), objs) = asaPort toks i objs in
           case asaAddr toks i objs of
             (None, objs) \<Rightarrow> (None, objs)
           | (Some (dst, i), objs) \<Rightarrow>
               (let ((dport, i), objs) = asaPort toks i objs;
                    r = asa_flags (drop i toks)
                      (r\<lparr>rSrcAddrs := src, rSrcPorts := sport, rDstAddrs := dst, rDstPorts := dport\<rparr>);
                    r = (if length (rSrcPorts r) = 0 then r\<lparr>rSrcPorts := [''any'']\<rparr> else r);
                    r = (if length (rDstPorts r) = 0 then r\<lparr>rDstPorts := [''any'']\<rparr> else r)
                in (Some r, objs))))"

definition asa_action :: "string \<Rightarrow> Action option" where
  "asa_action t = (if t = ''permit'' then Some Allow else if t = ''deny'' then Some Deny else None)"

definition parseASARule :: "string list \<Rightarrow> string \<Rightarrow> asaObjects \<Rightarrow> Rule option \<times> asaObjects" where
  "parseASARule toks raw objs =
     (let r = zero_rule\<lparr>rEnabled := True, rRaw := raw, rName := toks ! 1\<rparr>;
          i = 2;
          i = (if i < length toks \<and> (toks ! i = ''extended'' \<or> toks ! i = ''standard'') then i + 1 else i);
          i = (if i < length toks \<and> toks ! i = ''line'' then i + 2 else i)
      in if i \<ge> length toks then (None, objs)
         else (case asa_action (toks ! i) of
             None \<Rightarrow> (None, objs)
           | Some act \<Rightarrow>
               if i + 1 \<ge> length toks then (None, objs)
               else asa_match toks (i + 2) objs (r\<lparr>rAction := act, rProto := ToLower (toks ! (i + 1))\<rparr>)))"

section \<open>The config\<close>

record asaState =
  as_res :: Result
  as_remarks :: "(string \<times> string) list"
  as_objs :: asaObjects

definition asa_unparsed :: "string \<Rightarrow> asaState \<Rightarrow> asaState" where
  "asa_unparsed line s = s\<lparr>as_res := (as_res s)\<lparr>resUnparsed := resUnparsed (as_res s) @ [line]\<rparr>\<rparr>"

definition asa_line :: "nat list \<Rightarrow> nat \<Rightarrow> string \<Rightarrow> asaState \<Rightarrow> asaState" where
  "asa_line consumed idx raw s =
     (let line = TrimSpace raw in
      if line = '''' \<or> HasPrefix line ''!'' \<or> idx \<in> set consumed then s
      else
        let toks = Fields line in
        if length toks < 2 \<or> toks ! 0 \<noteq> ''access-list'' then
          (if HasPrefix line ''access-group'' then s else asa_unparsed line s)
        else
          let acl = toks ! 1 in
          if length toks \<ge> 3 \<and> toks ! 2 = ''remark'' then
            s\<lparr>as_remarks := AList.update acl (TrimSpace (Join (drop 3 toks) '' '')) (as_remarks s)\<rparr>
          else (case parseASARule toks line (as_objs s) of
              (None, objs) \<Rightarrow> asa_unparsed line (s\<lparr>as_objs := objs\<rparr>)
            | (Some r, objs) \<Rightarrow>
                (let r = r\<lparr>rDesc := (case map_of (as_remarks s) acl of Some d \<Rightarrow> d | None \<Rightarrow> '''')\<rparr>
                 in s\<lparr>as_objs := objs, as_res := (as_res s)\<lparr>resRules := resRules (as_res s) @ [r]\<rparr>\<rparr>)))"

fun asa_lines :: "nat list \<Rightarrow> nat \<Rightarrow> string list \<Rightarrow> asaState \<Rightarrow> asaState" where
  "asa_lines consumed idx [] s = s"
| "asa_lines consumed idx (raw # rest) s = asa_lines consumed (idx + 1) rest (asa_line consumed idx raw s)"

definition parseCiscoASA :: "string \<Rightarrow> Result" where
  "parseCiscoASA config =
     (let ls = config_lines config;
          (objs, consumed) = scanASAObjects ls;
          s = asa_lines consumed 0 ls
            \<lparr>as_res = \<lparr>resVendor = ''cisco-asa'', resRules = [], resUnparsed = []\<rparr>, as_remarks = [], as_objs = objs\<rparr>;
          res = as_res s
      in res\<lparr>resRules := reindex (resRules res), resUnparsed := dedupeStrings (resUnparsed res)\<rparr>)"

section \<open>The reader depends on the tables only\<close>

text \<open>Two states of the objects with the same tables and sound caches give the same answer.\<close>

definition objs_agree :: "asaObjects \<Rightarrow> asaObjects \<Rightarrow> bool" where
  "objs_agree a b \<longleftrightarrow> objs_ok a \<and> objs_ok b \<and> same_tables a b"

lemma expand_agree:
  assumes "objs_agree a b"
  shows "fst (expand name isNet a) = fst (expand name isNet b)"
    and "objs_agree (snd (expand name isNet a)) (snd (expand name isNet b))"
  using assms expand_fresh [of a name isNet] expand_fresh [of b name isNet]
  unfolding objs_agree_def same_tables_def by auto

lemma asaAddr_agree:
  assumes "objs_agree a b"
  shows "fst (asaAddr toks i a) = fst (asaAddr toks i b) \<and> objs_agree (snd (asaAddr toks i a)) (snd (asaAddr toks i b))"
  using assms expand_agree [OF assms, of "toks ! (i + 1)" True]
  unfolding asaAddr_def Let_def expandNet_def
  by (auto simp: case_prod_beta split del: if_split split: if_splits)

lemma objs_agree_has: "objs_agree a b \<Longrightarrow> hasSvc a n = hasSvc b n \<and> hasNet a n = hasNet b n"
  by (simp add: objs_agree_def same_tables_def hasSvc_def hasNet_def)

lemma asaPort_agree:
  assumes "objs_agree a b"
  shows "fst (asaPort toks i a) = fst (asaPort toks i b) \<and> objs_agree (snd (asaPort toks i a)) (snd (asaPort toks i b))"
proof (cases "(toks ! i = ''object'' \<or> toks ! i = ''object-group'') \<and> i + 1 < length toks \<and> hasSvc b (toks ! (i + 1)) \<and>
    \<not> hasNet b (toks ! (i + 1))")
  case True
  then show ?thesis
    using expand_agree [OF assms, of "toks ! (i + 1)" False] objs_agree_has [OF assms]
    by (auto simp: asaPort_def Let_def expandSvc_def case_prod_beta)
next
  case False
  then have "snd (asaPort toks i a) = a" "snd (asaPort toks i b) = b" "fst (asaPort toks i a) = fst (asaPort toks i b)"
    unfolding asaPort_def Let_def using objs_agree_has [OF assms]
    by (simp_all only: if_False snd_conv fst_conv if_distrib [of snd] if_distrib [of fst] if_cancel)
  then show ?thesis using assms by simp
qed

lemma asa_match_agree:
  assumes "objs_agree a b"
  shows "fst (asa_match toks i a r) = fst (asa_match toks i b r) \<and>
    objs_agree (snd (asa_match toks i a r)) (snd (asa_match toks i b r))"
proof -
  obtain s1 a1 b1 where 1: "asaAddr toks i a = (s1, a1)" "asaAddr toks i b = (s1, b1)" "objs_agree a1 b1"
    using asaAddr_agree [OF assms, of toks i] by (metis prod.collapse)
  show ?thesis
  proof (cases s1)
    case None
    with 1 show ?thesis by (simp add: asa_match_def)
  next
    case (Some p)
    obtain src j where p: "p = (src, j)" by (cases p)
    obtain sp k a2 b2 where 2: "asaPort toks j a1 = ((sp, k), a2)" "asaPort toks j b1 = ((sp, k), b2)" "objs_agree a2 b2"
      using asaPort_agree [OF 1(3), of toks j] by (metis prod.collapse)
    obtain s3 a3 b3 where 3: "asaAddr toks k a2 = (s3, a3)" "asaAddr toks k b2 = (s3, b3)" "objs_agree a3 b3"
      using asaAddr_agree [OF 2(3), of toks k] by (metis prod.collapse)
    show ?thesis
    proof (cases s3)
      case None
      with 1 2 3 Some p show ?thesis by (simp add: asa_match_def)
    next
      case (Some q)
      obtain dst l where q: "q = (dst, l)" by (cases q)
      obtain dp m a4 b4 where "asaPort toks l a3 = ((dp, m), a4)" "asaPort toks l b3 = ((dp, m), b4)" "objs_agree a4 b4"
        using asaPort_agree [OF 3(3), of toks l] by (metis prod.collapse)
      with 1 2 3 \<open>s1 = Some p\<close> p Some q show ?thesis by (simp add: asa_match_def Let_def)
    qed
  qed
qed

lemma parseASARule_agree:
  assumes "objs_agree a b"
  shows "fst (parseASARule toks raw a) = fst (parseASARule toks raw b) \<and>
    objs_agree (snd (parseASARule toks raw a)) (snd (parseASARule toks raw b))"
  unfolding parseASARule_def Let_def
  using asa_match_agree [OF assms] assms by (simp split: option.split)

section \<open>Every line is accounted for\<close>

lemma asa_flags_raw [simp]: "rRaw (asa_flags toks r) = rRaw r"
  by (induction toks r rule: asa_flags.induct) auto

lemma asa_match_raw: "asa_match toks i objs r = (Some r', objs') \<Longrightarrow> rRaw r' = rRaw r"
  by (auto simp: asa_match_def Let_def case_prod_beta split: option.splits prod.splits if_splits)

lemma parseASARule_raw: "parseASARule toks raw objs = (Some r, objs') \<Longrightarrow> rRaw r = raw"
  unfolding parseASARule_def Let_def
  by (auto split: option.split_asm if_split_asm dest!: asa_match_raw)

text \<open>A line that is no rule and needs no report: empty, a comment, part of a definition, a binding, a remark.\<close>

definition asa_silent :: "nat list \<Rightarrow> nat \<Rightarrow> string \<Rightarrow> bool" where
  "asa_silent consumed idx line \<longleftrightarrow>
     line = '''' \<or> HasPrefix line ''!'' \<or> idx \<in> set consumed \<or> HasPrefix line ''access-group'' \<or>
     (length (Fields line) \<ge> 3 \<and> Fields line ! 2 = ''remark'')"

definition asa_reported :: "asaState \<Rightarrow> string \<Rightarrow> bool" where
  "asa_reported s line \<longleftrightarrow> line \<in> set (resUnparsed (as_res s)) \<or> line \<in> rRaw ` set (resRules (as_res s))"

lemma asa_line_reports:
  assumes "\<not> asa_silent consumed idx (TrimSpace raw)"
  shows "asa_reported (asa_line consumed idx raw s) (TrimSpace raw)"
proof (cases "parseASARule (Fields (TrimSpace raw)) (TrimSpace raw) (as_objs s)")
  case (Pair res objs)
  show ?thesis
  proof (cases res)
    case None
    with Pair assms show ?thesis
      by (auto simp: asa_line_def asa_silent_def asa_reported_def asa_unparsed_def Let_def)
  next
    case (Some r)
    with Pair have "rRaw r = TrimSpace raw" using parseASARule_raw by simp
    with Some Pair assms show ?thesis
      by (auto simp: asa_line_def asa_silent_def asa_reported_def asa_unparsed_def Let_def)
  qed
qed

lemma asa_line_keeps: "asa_reported s l \<Longrightarrow> asa_reported (asa_line consumed idx raw s) l"
  by (auto simp: asa_line_def asa_reported_def asa_unparsed_def Let_def split: prod.split option.split)

lemma asa_lines_keep: "asa_reported s l \<Longrightarrow> asa_reported (asa_lines consumed idx ls s) l"
  by (induction ls arbitrary: idx s) (simp_all add: asa_line_keeps)

lemma asa_lines_report:
  "k < length ls \<Longrightarrow> \<not> asa_silent consumed (idx + k) (TrimSpace (ls ! k)) \<Longrightarrow>
    asa_reported (asa_lines consumed idx ls s) (TrimSpace (ls ! k))"
proof (induction ls arbitrary: idx s k)
  case (Cons raw ls)
  show ?case
  proof (cases k)
    case 0
    with Cons.prems have "asa_reported (asa_line consumed idx raw s) (TrimSpace raw)"
      by (intro asa_line_reports) simp
    with 0 show ?thesis by (simp add: asa_lines_keep)
  next
    case (Suc k')
    with Cons.prems show ?thesis using Cons.IH [of k' "idx + 1"] by simp
  qed
qed simp

lemma asa_result_reported:
  assumes "k < length (config_lines config)"
    and "\<not> asa_silent (snd (scanASAObjects (config_lines config))) k (TrimSpace (config_lines config ! k))"
  shows "TrimSpace (config_lines config ! k) \<in> set (resUnparsed (parseCiscoASA config)) \<or>
    TrimSpace (config_lines config ! k) \<in> rRaw ` set (resRules (parseCiscoASA config))"
proof -
  have raw: "rRaw ` set (reindex rs) = rRaw ` set rs" for rs
  proof -
    have "map rRaw (reindex_from i rs) = map rRaw rs" for i
      by (induction rs arbitrary: i) auto
    then show ?thesis unfolding reindex_def by (metis list.set_map)
  qed
  have "TrimSpace (config_lines config ! k) \<noteq> ''''" using assms(2) by (simp add: asa_silent_def)
  with asa_lines_report [of k "config_lines config" "snd (scanASAObjects (config_lines config))" 0] assms
  show ?thesis
    by (auto simp: parseCiscoASA_def Let_def case_prod_beta set_dedupeStrings raw asa_reported_def)
qed

end
