(* ===== verification/VendorParse.thy ===== *)
theory VendorParse
  imports Iptables AsaParse
begin

text \<open>
  Package \<open>fwparse\<close>: the parsers of FortiGate policies (\<open>fortinet.go\<close>) and of pfSense/OPNsense
  exports (\<open>pfsense.go\<close>), and the dispatch \<open>Parse\<close> (\<open>parse.go\<close>). Decoding the XML text into the
  rule structs is \<open>encoding/xml\<close> under the struct tags; it is the parameter \<open>unmarshal\<close>, which
  answers an error text or the list of rules under \<open>filter\<close>.
\<close>

section \<open>FortiGate\<close>

definition fortiAddrs :: "string list \<Rightarrow> string list" where
  "fortiAddrs vals =
     (if length vals = 0 then [''any'']
      else if list_ex (\<lambda>v. EqualFold v ''all'') vals then [''any'']
      else vals)"

fun forti_services_loop :: "string list \<Rightarrow> string list \<Rightarrow> string list" where
  "forti_services_loop [] out = out"
| "forti_services_loop (v # vals) out =
     (if EqualFold v ''all'' then [''any''] else forti_services_loop vals (out @ [portName v]))"

definition fortiServices :: "string list \<Rightarrow> string list" where
  "fortiServices vals = (if length vals = 0 then [''any''] else forti_services_loop vals [])"

definition forti_action :: "string \<Rightarrow> Rule \<Rightarrow> Rule" where
  "forti_action v r =
     (let l = ToLower v in
      if l = ''accept'' \<or> l = ''allow'' then r\<lparr>rAction := Allow\<rparr>
      else if l = ''deny'' \<or> l = ''drop'' \<or> l = ''block'' then r\<lparr>rAction := Deny\<rparr>
      else r)"

definition applyFortiSet :: "Rule \<Rightarrow> string \<Rightarrow> Rule" where
  "applyFortiSet r kv =
     (let toks = fieldsRespectingQuotes kv in
      if length toks = 0 then r
      else
        let key = ToLower (toks ! 0); vals = unquoteAll (drop 1 toks); some = (length vals > 0) in
        if key = ''name'' then (if some then r\<lparr>rName := vals ! 0\<rparr> else r)
        else if key = ''srcaddr'' then r\<lparr>rSrcAddrs := fortiAddrs vals\<rparr>
        else if key = ''dstaddr'' then r\<lparr>rDstAddrs := fortiAddrs vals\<rparr>
        else if key = ''srcintf'' then (if some then r\<lparr>rIface := vals ! 0\<rparr> else r)
        else if key = ''service'' then r\<lparr>rDstPorts := fortiServices vals\<rparr>
        else if key = ''action'' then (if some then forti_action (vals ! 0) r else r)
        else if key = ''status'' then (if some \<and> ToLower (vals ! 0) = ''disable'' then r\<lparr>rEnabled := False\<rparr> else r)
        else if key = ''logtraffic'' then (if some \<and> ToLower (vals ! 0) \<noteq> ''disable'' then r\<lparr>rLog := True\<rparr> else r)
        else if key = ''comments'' \<or> key = ''comment'' then (if some then r\<lparr>rDesc := Join vals '' ''\<rparr> else r)
        else r)"

text \<open>The state of the scan: the rules done, whether inside the policy section, the open policy.\<close>

record fortiState =
  fs_rules :: "Rule list"
  fs_inPolicy :: bool
  fs_cur :: "Rule option"

definition forti_flush :: "fortiState \<Rightarrow> fortiState" where
  "forti_flush s =
     (case fs_cur s of None \<Rightarrow> s | Some r \<Rightarrow> s\<lparr>fs_rules := fs_rules s @ [r], fs_cur := None\<rparr>)"

definition forti_edit :: "string \<Rightarrow> Rule" where
  "forti_edit line = zero_rule\<lparr>rEnabled := True, rAction := Other, rProto := ''any'',
     rSrcAddrs := [''any''], rDstAddrs := [''any''], rSrcPorts := [''any''], rDstPorts := [''any''],
     rName := TrimSpace (drop (length ''edit '') line), rRaw := line\<rparr>"

definition forti_line :: "string \<Rightarrow> fortiState \<Rightarrow> fortiState" where
  "forti_line raw s =
     (let line = TrimSpace raw; low = ToLower line in
      if HasPrefix low ''config firewall policy'' then s\<lparr>fs_inPolicy := True\<rparr>
      else if fs_inPolicy s \<and> low = ''end'' then (forti_flush s)\<lparr>fs_inPolicy := False\<rparr>
      else if fs_inPolicy s \<and> HasPrefix low ''edit '' then (forti_flush s)\<lparr>fs_cur := Some (forti_edit line)\<rparr>
      else if fs_inPolicy s \<and> low = ''next'' then forti_flush s
      else (case fs_cur s of
          Some r \<Rightarrow>
            (if fs_inPolicy s \<and> HasPrefix low ''set ''
             then s\<lparr>fs_cur := Some (applyFortiSet r (drop (length ''set '') line))\<rparr> else s)
        | None \<Rightarrow> s))"

fun forti_lines :: "string list \<Rightarrow> fortiState \<Rightarrow> fortiState" where
  "forti_lines [] s = s"
| "forti_lines (raw # rest) s = forti_lines rest (forti_line raw s)"

definition parseFortinet :: "string \<Rightarrow> Result" where
  "parseFortinet config =
     (let s = forti_flush (forti_lines (config_lines config) \<lparr>fs_rules = [], fs_inPolicy = False, fs_cur = None\<rparr>)
      in \<lparr>resVendor = ''fortinet'', resRules = reindex (fs_rules s), resUnparsed = []\<rparr>)"

section \<open>pfSense\<close>

text \<open>A pointer to an empty struct is whether the element is present.\<close>

record pfEndpoint =
  pe_any :: bool
  pe_network :: string
  pe_address :: string
  pe_port :: string

record pfRule =
  pf_type :: string
  pf_interface :: string
  pf_protocol :: string
  pf_descr :: string
  pf_disabled :: bool
  pf_log :: bool
  pf_source :: pfEndpoint
  pf_destination :: pfEndpoint

definition pfAddr :: "pfEndpoint \<Rightarrow> string list" where
  "pfAddr e =
     (if pe_any e then [''any'']
      else if pe_address e \<noteq> '''' then [pe_address e]
      else if pe_network e \<noteq> '''' then
        (if ToLower (pe_network e) = ''any'' then [''any''] else [pe_network e])
      else [''any''])"

definition pfPort :: "pfEndpoint \<Rightarrow> string list" where
  "pfPort e =
     (if TrimSpace (pe_port e) = '''' then [''any''] else [ReplaceByte (pe_port e) (CHR '':'') (CHR ''-'')])"

definition protoOrAny :: "string \<Rightarrow> string" where
  "protoOrAny p = (let p = ToLower (TrimSpace p) in if p = '''' then ''any'' else p)"

definition pf_action :: "string \<Rightarrow> Action" where
  "pf_action t =
     (let l = ToLower t in
      if l = ''pass'' then Allow else if l = ''block'' \<or> l = ''reject'' then Deny else Other)"

definition pf_to_rule :: "pfRule \<Rightarrow> Rule" where
  "pf_to_rule pr =
     zero_rule\<lparr>rRaw := ''pf rule: '' @ pf_descr pr, rName := pf_descr pr, rDesc := pf_descr pr,
       rIface := pf_interface pr, rEnabled := \<not> pf_disabled pr, rLog := pf_log pr,
       rProto := protoOrAny (pf_protocol pr), rSrcAddrs := pfAddr (pf_source pr),
       rDstAddrs := pfAddr (pf_destination pr), rSrcPorts := pfPort (pf_source pr),
       rDstPorts := pfPort (pf_destination pr), rAction := pf_action (pf_type pr)\<rparr>"

datatype parse_error = InvalidXml string | UnsupportedVendor string

definition parsePfSense :: "(string \<Rightarrow> string + pfRule list) \<Rightarrow> string \<Rightarrow> parse_error + Result" where
  "parsePfSense unmarshal config =
     (case unmarshal config of
        Inl err \<Rightarrow> Inl (InvalidXml err)
      | Inr prs \<Rightarrow>
          if length prs = 0 then Inr \<lparr>resVendor = ''pfsense'', resRules = [], resUnparsed = []\<rparr>
          else Inr \<lparr>resVendor = ''pfsense'', resRules = reindex (map pf_to_rule prs), resUnparsed = []\<rparr>)"

section \<open>Dispatch\<close>

definition Parse :: "(string \<Rightarrow> string + pfRule list) \<Rightarrow> string \<Rightarrow> string \<Rightarrow> parse_error + Result" where
  "Parse unmarshal vendor config =
     (if vendor = ''iptables'' \<or> vendor = ''nftables'' then Inr (parseIptables vendor config)
      else if vendor = ''cisco-asa'' then Inr (parseCiscoASA config)
      else if vendor = ''pfsense'' then parsePfSense unmarshal config
      else if vendor = ''fortinet'' then Inr (parseFortinet config)
      else Inl (UnsupportedVendor vendor))"

section \<open>What every parser gives\<close>

lemma reindex_form: "\<exists>rs. resRules (parseIptables v c) = reindex rs" "\<exists>rs. resRules (parseCiscoASA c) = reindex rs"
  "\<exists>rs. resRules (parseFortinet c) = reindex rs"
  by (auto simp: parseIptables_def parseCiscoASA_def parseFortinet_def Let_def case_prod_beta)

lemma Parse_reindexed:
  assumes "Parse unmarshal vendor config = Inr res"
  shows "\<exists>rs. resRules res = reindex rs"
proof -
  have "reindex [] = []" by (simp add: reindex_def)
  then have "parsePfSense unmarshal config = Inr res \<Longrightarrow> ?thesis"
    by (auto simp: parsePfSense_def split: sum.splits if_splits) metis+
  then show ?thesis
    using assms reindex_form unfolding Parse_def by (metis sum.inject(2) sum.distinct(1))
qed

lemma Parse_vendor: "Parse unmarshal vendor config = Inl (UnsupportedVendor v) \<longleftrightarrow> vendor \<notin> set Vendors \<and> v = vendor"
  by (auto simp: Parse_def Vendors_def parsePfSense_def split: sum.split)

text \<open>The open policies of the scan: between a policy section's \<open>edit\<close> lines and its end, each becomes one rule.\<close>

lemma forti_flush_cur [simp]: "fs_cur (forti_flush s) = None"
  and forti_flush_rules: "fs_rules (forti_flush s) = fs_rules s @ (case fs_cur s of None \<Rightarrow> [] | Some r \<Rightarrow> [r])"
  by (auto simp: forti_flush_def split: option.split)

text \<open>The number of policies opened: \<open>edit\<close> lines inside the section.\<close>

fun forti_edits :: "bool \<Rightarrow> string list \<Rightarrow> nat" where
  "forti_edits inP [] = 0"
| "forti_edits inP (raw # rest) =
     (let low = ToLower (TrimSpace raw) in
      if HasPrefix low ''config firewall policy'' then forti_edits True rest
      else if inP \<and> low = ''end'' then forti_edits False rest
      else if inP \<and> HasPrefix low ''edit '' then Suc (forti_edits inP rest)
      else forti_edits inP rest)"

definition forti_count :: "fortiState \<Rightarrow> nat" where
  "forti_count s = length (fs_rules s) + (case fs_cur s of None \<Rightarrow> 0 | Some _ \<Rightarrow> 1)"

lemma forti_count_flush [simp]: "forti_count (forti_flush s) = forti_count s"
  by (auto simp: forti_count_def forti_flush_def split: option.split)

lemma forti_count_updates [simp]:
  "forti_count (s\<lparr>fs_inPolicy := b\<rparr>) = forti_count s"
  "forti_count ((forti_flush s)\<lparr>fs_cur := Some r\<rparr>) = Suc (forti_count s)"
  by (auto simp: forti_count_def forti_flush_def split: option.split)

lemma forti_flush_inPolicy [simp]: "fs_inPolicy (forti_flush s) = fs_inPolicy s"
  by (simp add: forti_flush_def split: option.split)

lemma forti_lines_count:
  "forti_count (forti_lines ls s) = forti_count s + forti_edits (fs_inPolicy s) ls"
proof (induction ls arbitrary: s)
  case (Cons raw ls)
  define low where "low = ToLower (TrimSpace raw)"
  have set: "forti_count (s\<lparr>fs_cur := Some r\<rparr>) = forti_count s" if "fs_cur s = Some r0" for r r0
    using that by (simp add: forti_count_def)
  show ?case
    by (simp add: Cons forti_line_def Let_def low_def [symmetric] set split: option.split)
qed simp

lemma parseFortinet_count: "length (resRules (parseFortinet config)) = forti_edits False (config_lines config)"
proof -
  let ?s = "forti_lines (config_lines config) \<lparr>fs_rules = [], fs_inPolicy = False, fs_cur = None\<rparr>"
  have "forti_count (forti_flush ?s) = forti_edits False (config_lines config)"
    unfolding forti_count_flush forti_lines_count by (simp add: forti_count_def)
  then show ?thesis by (simp add: parseFortinet_def forti_count_def Let_def)
qed

end
