(* ===== verification/ParseProperties.thy ===== *)
theory ParseProperties
  imports VendorParse FwProperties
begin

text \<open>
  The properties of package \<open>fwparse\<close>: what is read, that nothing a parser reports on is lost,
  that the analysers' answers apply to parsed configs, and where a parser takes a rule for more
  than it matches.
\<close>

section \<open>From a config to the analysers\<close>

text \<open>The rules of a parsed config are numbered apart, in any vendor's syntax, as the analysers suppose.\<close>

lemma parsed_rules_are_numbered:
  assumes "Parse unmarshal vendor config = Inr res"
  shows "distinct (map rIndex (resRules res))"
proof -
  obtain rs where "resRules res = reindex rs" using Parse_reindexed [OF assms] by blast
  then show ?thesis using reindex_distinct by simp
qed

text \<open>The dispatch refuses exactly the vendors that are not listed, and the only other error is that of the
  XML decoder on a pfSense export.\<close>

theorem Parse_error_cases:
  "Parse unmarshal vendor config = Inl e \<longleftrightarrow>
     vendor \<notin> set Vendors \<and> e = UnsupportedVendor vendor \<or>
     vendor = ''pfsense'' \<and> (\<exists>msg. unmarshal config = Inl msg \<and> e = InvalidXml msg)"
  by (cases "unmarshal config")
    (auto simp: Parse_def Vendors_def parsePfSense_def)

section \<open>iptables\<close>

text \<open>Every line of an iptables config is skipped as a table, chain, comment or commit line, becomes one rule, or
  is listed as unparsed; the rules come in the order of their lines.\<close>

theorem iptables_lines_accounted:
  "map (\<lambda>r. r\<lparr>rIndex := 0\<rparr>) (resRules (parseIptables vendor config)) =
     map (\<lambda>r. r\<lparr>rIndex := 0\<rparr>) (List.map_filter (\<lambda>raw. ipt_rule_line (TrimSpace raw)) (config_lines config)) \<and>
   set (resUnparsed (parseIptables vendor config)) =
     {l. \<exists>raw \<in> set (config_lines config). l = TrimSpace raw \<and> \<not> ipt_skipped l \<and> ipt_rule_line l = None}"
  by (simp add: parseIptables_rules parseIptables_unparsed reindex_same)

text \<open>A parsed iptables rule is conditional exactly when an option position of its line holds a negation, a long
  option or a match module the parser does not model; such a rule is never taken to cover another one, and is
  never reported as permissive.\<close>

theorem iptables_conditional:
  assumes "parseIptablesRule line = Some r"
  shows "rConditional r = list_ex narrowing (option_positions (fieldsRespectingQuotes line)) \<and>
    (rConditional r \<longrightarrow> (\<forall>i. \<not> Covers r i) \<and> permissive [r] = [])"
  using parse_conditional [OF assms] by (auto simp: Covers_def permissive_rule_def)

lemmas ipt_eval = parseIptablesRule_def fieldsRespectingQuotes_def ipt_option_def ipt_narrow_def modelledOption_def
  modelledModule_def str_eval ipt_target_def ToUpper_def upper_char_def zero_rule_def Let_def
  splitPorts_def Split_def normCIDR_text_def

theorem iptables_conditional_witness:
  "\<exists>r. parseIptablesRule ''-A INPUT -p tcp -m state --state NEW -j ACCEPT'' = Some r \<and> rConditional r \<and>
    (\<forall>i. \<not> Covers r i) \<and> permissive [r] = []"
proof -
  obtain r where r: "parseIptablesRule ''-A INPUT -p tcp -m state --state NEW -j ACCEPT'' = Some r" "rConditional r"
    by (simp add: ipt_eval)
  with iptables_conditional [OF r(1)] show ?thesis by blast
qed

text \<open>C25: The line that prints a rule of the modelled options (chain, interface, protocol, addresses, port lists,
  target) is parsed back to the rule.\<close>

theorem iptables_roundtrip:
  assumes "ipt_printable r"
  shows "parseIptablesRule (ipt_line r) = Some (r\<lparr>rRaw := ipt_line r\<rparr>)"
  by (rule ipt_roundtrip [OF assms])

definition printable_rule :: Rule where
  "printable_rule = zero_rule\<lparr>rName := ''FORWARD'', rAction := Deny, rSrcAddrs := [''10.0.0.0/8''],
     rDstAddrs := [''10.1.0.1''], rProto := ''tcp'', rSrcPorts := [''1024:65535''], rDstPorts := [''22'', ''80''],
     rIface := ''eth0'', rEnabled := True\<rparr>"

theorem iptables_roundtrip_witness:
  "parseIptablesRule (ipt_line printable_rule) = Some (printable_rule\<lparr>rRaw := ipt_line printable_rule\<rparr>)"
  by (rule iptables_roundtrip)
    (simp add: ipt_printable_def printable_rule_def zero_rule_def ipt_word_def str_eval)

text \<open>Two chains of one config.\<close>

definition chains_config :: string where
  "chains_config = ''-A INPUT -j DROP'' @ [CHR 0x0A] @ ''-A FORWARD -j ACCEPT''"

definition input_drop :: Rule where
  "input_drop = zero_rule\<lparr>rIndex := 1, rName := ''INPUT'', rAction := Deny, rSrcAddrs := [''any''],
    rDstAddrs := [''any''], rProto := ''any'', rDstPorts := [''any''], rEnabled := True, rRaw := ''-A INPUT -j DROP''\<rparr>"

definition forward_accept :: Rule where
  "forward_accept = input_drop\<lparr>rIndex := 2, rName := ''FORWARD'', rAction := Allow, rRaw := ''-A FORWARD -j ACCEPT''\<rparr>"

lemmas chain_rules = input_drop_def forward_accept_def zero_rule_def

lemma chains_parse: "resRules (parseIptables ''iptables'' chains_config) = [input_drop, forward_accept]"
proof -
  have c: "config_lines chains_config = [''-A INPUT -j DROP'', ''-A FORWARD -j ACCEPT'']"
    by (simp add: config_lines_def Split_def chains_config_def)
  have l: "ipt_rule_line (TrimSpace ''-A INPUT -j DROP'') = Some (input_drop\<lparr>rIndex := 0\<rparr>)"
    "ipt_rule_line (TrimSpace ''-A FORWARD -j ACCEPT'') = Some (forward_accept\<lparr>rIndex := 0\<rparr>)"
    by (simp_all add: ipt_rule_line_def ipt_skipped_def ipt_eval input_drop_def forward_accept_def)
  show ?thesis
    unfolding parseIptables_rules c
    by (simp add: List.map_filter_simps l reindex_def) (simp add: input_drop_def forward_accept_def)
qed

lemma chains_unmapped: "unmapped_rule input_drop" "unmapped_rule forward_accept"
  by (simp_all add: chain_rules unmapped_rule_def rule_examples)

lemma chains_shadow: "shadowAndDuplicate [input_drop, forward_accept] = Some [coverIssue input_drop forward_accept]"
proof -
  have cov: "Covers input_drop forward_accept"
    by (simp add: chain_rules Covers_iff ifaceCovers_cases protoCovers_def addrsCover_iff portsCover_iff rule_examples)
  have t: "terminating input_drop" "rEnabled input_drop" "rEnabled forward_accept"
    by (simp_all add: terminating_def chain_rules)
  have "shadowAndDuplicate [input_drop, forward_accept] = Some (shadowAndDuplicateQuadratic [input_drop, forward_accept])"
    using shadow_pass [of "[input_drop, forward_accept]"] unmapped_heads chains_unmapped by simp
  also have "shadowAndDuplicateQuadratic [input_drop, forward_accept] = [coverIssue input_drop forward_accept]"
    using t cov by (simp add: shadowAndDuplicateQuadratic_def quad_inner_first) (simp add: first_cover_def)
  finally show ?thesis .
qed

text \<open>The chain of an iptables rule is only its name: a drop in the INPUT chain makes the shadow pass report an
  accept in the FORWARD chain, which sees other packets, as shadowed.\<close>

theorem iptables_chains_conflated:
  "\<exists>drop_rule accept_rule. resRules (parseIptables ''iptables'' chains_config) = [drop_rule, accept_rule] \<and>
     rName drop_rule = ''INPUT'' \<and> rName accept_rule = ''FORWARD'' \<and>
     shadowAndDuplicate [drop_rule, accept_rule] = Some [coverIssue drop_rule accept_rule]"
  using chains_parse chains_shadow by (simp add: chain_rules)

text \<open>Of two interface options the last one wins without marking the rule conditional: an accept from eth0 to
  eth1 covers a drop from eth2 to eth1, which matches no packet of the former.\<close>

theorem iptables_interfaces_conflated:
  "\<exists>a b. parseIptablesRule ''-A FORWARD -i eth0 -o eth1 -j ACCEPT'' = Some a \<and>
     parseIptablesRule ''-A FORWARD -i eth2 -o eth1 -j DROP'' = Some b \<and>
     \<not> rConditional a \<and> rAction a = Allow \<and> rAction b = Deny \<and> Covers a b"
proof -
  define a where "a = zero_rule\<lparr>rName := ''FORWARD'', rAction := Allow, rSrcAddrs := [''any''], rDstAddrs := [''any''],
    rProto := ''any'', rDstPorts := [''any''], rIface := ''eth1'', rEnabled := True,
    rRaw := ''-A FORWARD -i eth0 -o eth1 -j ACCEPT''\<rparr>"
  define b where "b = a\<lparr>rAction := Deny, rRaw := ''-A FORWARD -i eth2 -o eth1 -j DROP''\<rparr>"
  have "parseIptablesRule ''-A FORWARD -i eth0 -o eth1 -j ACCEPT'' = Some a"
    "parseIptablesRule ''-A FORWARD -i eth2 -o eth1 -j DROP'' = Some b"
    by (simp_all add: ipt_eval a_def b_def)
  moreover have "Covers a b"
    by (simp add: a_def b_def zero_rule_def Covers_iff ifaceCovers_cases protoCovers_def addrsCover_iff portsCover_iff
        rule_examples)
  ultimately show ?thesis by (auto simp: a_def b_def zero_rule_def)
qed

section \<open>Cisco ASA\<close>

text \<open>C26: The expansion of an object or group name that stays under the cap is exactly the set of values reachable
  through nested groups, without duplicates and in order, and at most 256 of them. A group that refers back to itself is
  not left unexpanded: it has the values that are reachable from it.\<close>

theorem asa_expansion_exact:
  assumes "resolve table [] name = Some out"
  shows "set out = {x. contributes table name x} \<and> length out \<le> asaMaxExpand"
  using resolve_values(1) [OF assms] by (simp add: contributes_creach)

text \<open>A name comes back unchanged only when it is unknown, over the cap, or when no value is reachable from it, as in a cycle
  of groups without values.\<close>

definition hollow_table :: asaTable where
  "hollow_table = [(''A'', [mref ''B'']), (''B'', [mref ''A''])]"

lemma hollow_cycle_keeps_name: "resolve hollow_table [] ''A'' = Some []"
  by (simp add: hollow_table_def resolve.simps resolve_members.simps dedupeStrings_def asaMaxExpand_def)

definition cyclic_table :: asaTable where
  "cyclic_table = [(''A'', [lit ''10.0.0.1'', mref ''B'']), (''B'', [mref ''A'', lit ''10.0.0.2'', mref ''C''])]"

theorem asa_expansion_exact_witness:
  "set [''10.0.0.1'', ''10.0.0.2'', ''C''] = {x. contributes cyclic_table ''A'' x}"
proof -
  have "resolve cyclic_table [] ''A'' = Some [''10.0.0.1'', ''10.0.0.2'', ''C'']"
    by (simp add: cyclic_table_def resolve.simps resolve_members.simps dedupeStrings_def asaMaxExpand_def)
  from asa_expansion_exact [OF this] show ?thesis by simp
qed

text \<open>The cache of expansions never changes what is read: from objects whose cache holds only answers given
  before, a rule is parsed as from the same definitions with an empty cache, and the cache stays so.\<close>

theorem asa_cache_transparent:
  assumes "objs_ok objs"
  shows "fst (parseASARule toks raw objs) = fst (parseASARule toks raw (objs\<lparr>o_netCache := [], o_svcCache := []\<rparr>)) \<and>
    objs_ok (snd (parseASARule toks raw objs))"
proof -
  have "objs_agree objs (objs\<lparr>o_netCache := [], o_svcCache := []\<rparr>)"
    using assms by (simp add: objs_agree_def objs_ok_def cache_ok_def same_tables_def)
  from parseASARule_agree [OF this] show ?thesis by (simp add: objs_agree_def)
qed

theorem asa_cache_transparent_witness:
  "fst (parseASARule [''access-list'', ''A'', ''permit'', ''ip'', ''any'', ''any''] '''' (fst (scanASAObjects []))) =
   fst (parseASARule [''access-list'', ''A'', ''permit'', ''ip'', ''any'', ''any'']  ''''
     ((fst (scanASAObjects []))\<lparr>o_netCache := [], o_svcCache := []\<rparr>))"
  using asa_cache_transparent [OF scan_objs_ok] by blast

text \<open>Every ASA line that is not empty, a comment, part of a definition, a binding or a remark is either listed as
  unparsed or is the text of a parsed rule.\<close>

theorem asa_lines_accounted:
  assumes "k < length (config_lines config)"
    and "\<not> asa_silent (snd (scanASAObjects (config_lines config))) k (TrimSpace (config_lines config ! k))"
  shows "TrimSpace (config_lines config ! k) \<in> set (resUnparsed (parseCiscoASA config)) \<union>
    rRaw ` set (resRules (parseCiscoASA config))"
  using asa_result_reported [OF assms] by blast

theorem asa_lines_accounted_witness:
  "TrimSpace ''nat (inside) 1'' \<in> set (resUnparsed (parseCiscoASA ''nat (inside) 1'')) \<union>
    rRaw ` set (resRules (parseCiscoASA ''nat (inside) 1''))"
proof -
  have c: "config_lines ''nat (inside) 1'' = [''nat (inside) 1'']" by (simp add: config_lines_def Split_def)
  have "\<not> asa_silent (snd (scanASAObjects (config_lines ''nat (inside) 1''))) 0 (TrimSpace (config_lines ''nat (inside) 1'' ! 0))"
    unfolding c by (simp add: asa_silent_def str_eval Fields_def scanASAObjects_def scan_line_def Let_def)
  from asa_lines_accounted [OF _ this] show ?thesis by (simp add: c)
qed

text \<open>The port operator \<open>neq\<close> after the destination is read as no operator: the rule is taken for one on every
  port, unconditionally, so an allow for everything but SSH is taken to cover the deny of SSH below it.\<close>

theorem asa_neq_widens:
  "\<exists>a d. fst (parseASARule (Fields ''access-list A permit tcp any host 10.0.0.1 neq 22'') '''' newASAObjects) = Some a \<and>
     fst (parseASARule (Fields ''access-list A deny tcp any host 10.0.0.1 eq 22'') '''' newASAObjects) = Some d \<and>
     rDstPorts a = [''any''] \<and> \<not> rConditional a \<and> Covers a d"
proof -
  define a where "a = zero_rule\<lparr>rName := ''A'', rAction := Allow, rSrcAddrs := [''any''], rDstAddrs := [''10.0.0.1''],
    rProto := ''tcp'', rSrcPorts := [''any''], rDstPorts := [''any''], rEnabled := True\<rparr>"
  define d where "d = a\<lparr>rAction := Deny, rDstPorts := [''22'']\<rparr>"
  have "fst (parseASARule (Fields ''access-list A permit tcp any host 10.0.0.1 neq 22'') '''' newASAObjects) = Some a"
    "fst (parseASARule (Fields ''access-list A deny tcp any host 10.0.0.1 eq 22'') '''' newASAObjects) = Some d"
    by (simp_all add: Fields_def str_eval parseASARule_def asa_match_def asaAddr_def asaPort_def asa_action_def
        portName_def Let_def a_def d_def zero_rule_def)
  moreover have "Covers a d"
    by (simp add: a_def d_def zero_rule_def Covers_iff ifaceCovers_cases ifaceWildcard_def protoCovers_def addrsCover_refl
        portsCover_iff rule_examples str_eval)
  ultimately show ?thesis by (auto simp: a_def d_def zero_rule_def)
qed

text \<open>A mask whose ones are not leading, such as an IOS wildcard, gives prefix length 0: a network of 256
  addresses is taken for the whole address space.\<close>

theorem asa_wildcard_mask_widens:
  "ipMaskToCIDR ''10.0.0.0'' ''0.0.0.255'' = ''10.0.0.0/0'' \<and>
   (\<forall>env w. addr_matches env (ipMaskToCIDR ''10.0.0.0'' ''0.0.0.255'') (IP4 w))"
proof -
  have m: "ParseIP ''0.0.0.255'' = Some (IP16 0xFFFF000000FF)" by (simp add: net_eval str_eval)
  have "To4 (IP16 0xFFFF000000FF) = Some 255" by simp
  moreover have "Size (Mask4 255) = (0, 0)" by (simp add: simple_mask_length_def leading_ones_def upt_rec)
  ultimately have c: "ipMaskToCIDR ''10.0.0.0'' ''0.0.0.255'' = ''10.0.0.0/0''"
    by (simp add: ipMaskToCIDR_def m Itoa_def nat_str.simps char_of_eq_iff take_bit_eq_mod del: Size.simps To4.simps)
  have "elem_net ''10.0.0.0/0'' = Some \<lparr>net_ip = IP4 0, net_mask = Mask4 (cidr_mask 0)\<rparr>"
    by (simp add: net_eval str_eval)
  then show ?thesis by (simp add: c addr_matches_def net_has_def network_number_and_mask_def)
qed

section \<open>FortiGate\<close>

text \<open>A FortiGate config gives one rule for each \<open>edit\<close> line inside a policy section, and no line is ever listed
  as unparsed, understood or not.\<close>

theorem fortinet_rules_counted:
  "length (resRules (parseFortinet config)) = forti_edits False (config_lines config) \<and>
   resUnparsed (parseFortinet config) = []"
  using parseFortinet_count by (simp add: parseFortinet_def Let_def)

section \<open>Bare mapped addresses\<close>

text \<open>A bare IPv4-mapped IPv6 address is read as the network \<open>::/32\<close>: it matches every IPv6 address
  that starts with 32 zero bits, except the mapped ones, so not the address itself.\<close>

theorem bare_mapped_address_widens:
  "\<forall>env w. addr_matches env ''::ffff:10.0.0.1'' (IP16 w) = (drop_bit 96 w = 0 \<and> drop_bit 32 w \<noteq> 0xFFFF)"
proof -
  have net: "elem_net ''::ffff:10.0.0.1'' = Some \<lparr>net_ip = IP16 0, net_mask = Mask16 (cidr_mask 32)\<rparr>"
    by (simp add: net_eval str_eval cidr_mask_def mask_eq_exp_minus_1 parse_v6_def parse_v6_groups.simps
        hex_val_def hex_num_def expand_ellipsis_def groups_word_def Let_def replicate_numeral)
  have "0 = w AND cidr_mask 32 \<longleftrightarrow> drop_bit 96 w = 0" for w :: "128 word"
  proof
    assume "0 = w AND cidr_mask 32"
    then have "\<not> bit (w AND cidr_mask 32) i" for i by simp
    then have "96 \<le> i \<Longrightarrow> i < 128 \<Longrightarrow> \<not> bit w i" for i by (auto simp: bit_and_iff bit_cidr_mask)
    then have "\<not> bit w (96 + i)" for i
      using bit_imp_le_length [of w "96 + i"] by (cases "96 + i < 128") auto
    then show "drop_bit 96 w = 0" by (intro bit_word_eqI) (simp add: bit_drop_bit_eq add.commute)
  next
    assume "drop_bit 96 w = 0"
    then have "\<not> bit (drop_bit 96 w) i" for i by simp
    then have "\<not> bit w (96 + i)" for i by (simp add: bit_drop_bit_eq add.commute)
    then have "96 \<le> i \<Longrightarrow> \<not> bit w i" for i by (metis le_add_diff_inverse)
    then show "0 = w AND cidr_mask 32" by (intro bit_word_eqI) (auto simp: bit_and_iff bit_cidr_mask)
  qed
  then show ?thesis
    by (auto simp: addr_matches_def net net_has_def network_number_and_mask_def)
qed

end
