(* ===== verification/Json.thy ===== *)
theory Json
  imports GoStrings
begin

text \<open>
  The part of \<open>encoding/json\<close> that the source uses to write the evidence of a finding: values of
  \<open>any\<close> that are null, booleans, integers, strings, slices and string-keyed maps, and \<open>Marshal\<close> of
  them (keys sorted, HTML characters escaped). A value \<open>Marshal\<close> refuses, such as a channel, is
  \<open>JBad\<close>. Floating-point numbers, which no evidence of this program has, are left out; bytes of
  valid UTF-8 above 127 are written as they are.
\<close>

section \<open>Values\<close>

datatype json =
    JNull
  | JBool bool
  | JInt int
  | JString string
  | JArray "json list"
  | JObject "(string \<times> json) list"
  | JBad

type_synonym evidence = "(string \<times> json) list"

section \<open>Marshal\<close>

definition hex_char :: "nat \<Rightarrow> char" where
  "hex_char d = (if d < 10 then char_of (48 + d) else char_of (87 + d))"

text \<open>\<open>u00\<close> followed by two hexadecimal digits, after a backslash.\<close>

definition json_u00 :: "char \<Rightarrow> string" where
  "json_u00 c = CHR 0x5C # ''u00'' @ [hex_char (of_char c div 16), hex_char (of_char c mod 16)]"

definition json_escape :: "char \<Rightarrow> string" where
  "json_escape c =
     (if c = CHR 0x22 \<or> c = CHR 0x5C then [CHR 0x5C, c]
      else if c = CHR 0x08 then CHR 0x5C # ''b''
      else if c = CHR 0x0C then CHR 0x5C # ''f''
      else if c = CHR 0x0A then CHR 0x5C # ''n''
      else if c = CHR 0x0D then CHR 0x5C # ''r''
      else if c = CHR 0x09 then CHR 0x5C # ''t''
      else if c < CHR '' '' \<or> c = CHR ''<'' \<or> c = CHR ''>'' \<or> c = CHR ''&'' then json_u00 c
      else [c])"

definition json_string :: "string \<Rightarrow> string" where
  "json_string s = CHR 0x22 # concat (map json_escape s) @ [CHR 0x22]"

fun Marshal :: "json \<Rightarrow> string option" and marshal_list :: "json list \<Rightarrow> string list option"
  and marshal_fields :: "(string \<times> json) list \<Rightarrow> (string \<times> string) list option" where
  "Marshal JNull = Some ''null''"
| "Marshal (JBool b) = Some (if b then ''true'' else ''false'')"
| "Marshal (JInt i) = Some (Itoa i)"
| "Marshal (JString s) = Some (json_string s)"
| "Marshal (JArray js) = map_option (\<lambda>ws. ''['' @ Join ws '','' @ '']'') (marshal_list js)"
| "Marshal (JObject fs) =
     map_option (\<lambda>kvs. ''{'' @ Join (map (\<lambda>(k, w). json_string k @ '':'' @ w) (sort_key fst kvs)) '','' @ ''}'')
       (marshal_fields fs)"
| "Marshal JBad = None"
| "marshal_list [] = Some []"
| "marshal_list (j # js) =
     (case (Marshal j, marshal_list js) of (Some w, Some ws) \<Rightarrow> Some (w # ws) | _ \<Rightarrow> None)"
| "marshal_fields [] = Some []"
| "marshal_fields ((k, j) # fs) =
     (case (Marshal j, marshal_fields fs) of (Some w, Some kvs) \<Rightarrow> Some ((k, w) # kvs) | _ \<Rightarrow> None)"

definition marshal_evidence :: "evidence \<Rightarrow> string option" where
  "marshal_evidence ev = Marshal (JObject ev)"

end
