(* ===== verification/Sha256.thy ===== *)
theory Sha256
  imports Prelude "HOL-Library.Word"
begin

unbundle bit_operations_syntax

text \<open>
  \<open>crypto/sha256\<close> and \<open>encoding/hex\<close> as the source uses them: \<open>Sum256\<close> of a byte string (FIPS
  180-4, on 32-bit words) and lower-case hexadecimal text.
\<close>

text \<open>
  The constants of the standard are the first 32 bits of the fractional parts of the cube roots
  of the first 64 primes, and of the square roots of the first eight. \<open>int_root e n b r\<close> sets the
  lowest \<open>b\<close> bits of the root from the top.
\<close>

fun int_root :: "nat \<Rightarrow> nat \<Rightarrow> nat \<Rightarrow> nat \<Rightarrow> nat" where
  "int_root e n 0 r = r"
| "int_root e n (Suc b) r = int_root e n b (if (r + 2 ^ b) ^ e \<le> n then r + 2 ^ b else r)"

definition sha_primes :: "nat list" where
  "sha_primes =
    [2, 3, 5, 7, 11, 13, 17, 19, 23, 29, 31, 37, 41, 43, 47, 53, 59, 61, 67, 71, 73, 79, 83, 89, 97, 101, 103, 107,
     109, 113, 127, 131, 137, 139, 149, 151, 157, 163, 167, 173, 179, 181, 191, 193, 197, 199, 211, 223, 227, 229,
     233, 239, 241, 251, 257, 263, 269, 271, 277, 281, 283, 293, 307, 311]"

definition sha_K :: "32 word list" where
  "sha_K = map (\<lambda>p. word_of_nat (int_root 3 (p * 2 ^ 96) 36 0)) sha_primes"

definition sha_H0 :: "32 word list" where
  "sha_H0 = map (\<lambda>p. word_of_nat (int_root 2 (p * 2 ^ 64) 36 0)) (take 8 sha_primes)"

text \<open>The message, a one bit, zeros to 56 bytes of the last block, the length in bits.\<close>

definition sha_pad :: "string \<Rightarrow> nat list" where
  "sha_pad s =
     (let n = length s in
      map of_char s @ [128] @ replicate ((119 - n mod 64) mod 64) 0 @
      map (\<lambda>i. (8 * n) div 256 ^ (7 - i) mod 256) [0..<8])"

fun sha_words :: "nat list \<Rightarrow> 32 word list" where
  "sha_words (a # b # c # d # rest) = word_of_nat (((a * 256 + b) * 256 + c) * 256 + d) # sha_words rest"
| "sha_words _ = []"

definition sha_s0 :: "32 word \<Rightarrow> 32 word" where
  "sha_s0 w = (word_rotr 7 w XOR word_rotr 18 w) XOR drop_bit 3 w"

definition sha_s1 :: "32 word \<Rightarrow> 32 word" where
  "sha_s1 w = (word_rotr 17 w XOR word_rotr 19 w) XOR drop_bit 10 w"

fun sha_schedule :: "nat \<Rightarrow> 32 word list \<Rightarrow> 32 word list" where
  "sha_schedule 0 ws = ws"
| "sha_schedule (Suc k) ws =
     (let t = length ws in
      sha_schedule k (ws @ [sha_s1 (ws ! (t - 2)) + ws ! (t - 7) + sha_s0 (ws ! (t - 15)) + ws ! (t - 16)]))"

fun sha_round :: "32 word list \<Rightarrow> 32 word \<times> 32 word \<Rightarrow> 32 word list" where
  "sha_round [a, b, c, d, e, f, g, h] (k, w) =
     (let S1 = (word_rotr 6 e XOR word_rotr 11 e) XOR word_rotr 25 e;
          ch = (e AND f) XOR (NOT e AND g);
          t1 = h + S1 + ch + k + w;
          S0 = (word_rotr 2 a XOR word_rotr 13 a) XOR word_rotr 22 a;
          maj = ((a AND b) XOR (a AND c)) XOR (b AND c)
      in [t1 + (S0 + maj), a, b, c, d + t1, e, f, g])"
| "sha_round st _ = st"

definition sha_block :: "32 word list \<Rightarrow> 32 word list \<Rightarrow> 32 word list" where
  "sha_block H ws = map2 (+) H (foldl sha_round H (zip sha_K (sha_schedule 48 ws)))"

fun sha_blocks :: "nat \<Rightarrow> 32 word list \<Rightarrow> 32 word list \<Rightarrow> 32 word list" where
  "sha_blocks 0 H ws = H"
| "sha_blocks (Suc k) H ws = sha_blocks k (sha_block H (take 16 ws)) (drop 16 ws)"

text \<open>The 32 bytes of the digest.\<close>

definition Sum256 :: "string \<Rightarrow> nat list" where
  "Sum256 s =
     (let ws = sha_words (sha_pad s); H = sha_blocks (length ws div 16) sha_H0 ws
      in concat (map (\<lambda>w. let n = unat w in [n div 16777216, n div 65536 mod 256, n div 256 mod 256, n mod 256]) H))"

definition hex_nibble :: "nat \<Rightarrow> char" where
  "hex_nibble d = (if d < 10 then char_of (48 + d) else char_of (87 + d))"

definition hex_encode :: "nat list \<Rightarrow> string" where
  "hex_encode bs = concat (map (\<lambda>b. [hex_nibble (b div 16), hex_nibble (b mod 16)]) bs)"

lemma length_sha_schedule: "length (sha_schedule k ws) = k + length ws"
  by (induction k arbitrary: ws) (auto simp: Let_def)

lemma length_sha_round: "length H = 8 \<Longrightarrow> length (sha_round H kw) = 8"
  by (cases "(H, kw)" rule: sha_round.cases) (auto simp: Let_def)

lemma length_sha_rounds: "length H = 8 \<Longrightarrow> length (foldl sha_round H kws) = 8"
  by (induction kws arbitrary: H) (auto simp: length_sha_round)

lemma length_sha_blocks: "length H = 8 \<Longrightarrow> length (sha_blocks k H ws) = 8"
  by (induction k arbitrary: H ws) (auto simp: sha_block_def length_sha_rounds)

lemma length_concat_const: "\<forall>x \<in> set xs. length (f x) = k \<Longrightarrow> length (concat (map f xs)) = k * length xs"
  by (induction xs) auto

text \<open>The digest has 32 bytes.\<close>

lemma length_Sum256: "length (Sum256 s) = 32"
  unfolding Sum256_def Let_def
  by (subst length_concat_const [where k = 4]) (simp_all add: length_sha_blocks sha_H0_def sha_primes_def)

lemma length_hex_encode: "length (hex_encode bs) = 2 * length bs"
  unfolding hex_encode_def by (subst length_concat_const [where k = 2]) simp_all

end
