(* ===== verification/CoreFinding.thy ===== *)
theory CoreFinding
  imports Json Sha256
begin

text \<open>
  Package \<open>core\<close> (\<open>finding.go\<close>, \<open>collector.go\<close>): severities, the finding every module reports, the
  check a finding passes before it is stored, its fingerprint, and the module data the engine
  reads. A severity is a Go string; its model has the five known values and the rest. The order
  of severities by urgency is the instance of the library's class of preorders, so that
  "unknown severities sort lowest" is a statement about \<open>\<le>\<close>. Times are nanoseconds.
\<close>

section \<open>Severities\<close>

datatype Severity =
  SeverityCritical | SeverityHigh | SeverityMedium | SeverityLow | SeverityInfo | SeverityUnknown string

text \<open>The conversion \<open>core.Severity(s)\<close>, and back.\<close>

definition Severity_of :: "string \<Rightarrow> Severity" where
  "Severity_of s =
     (if s = ''critical'' then SeverityCritical
      else if s = ''high'' then SeverityHigh
      else if s = ''medium'' then SeverityMedium
      else if s = ''low'' then SeverityLow
      else if s = ''info'' then SeverityInfo
      else SeverityUnknown s)"

fun severity_str :: "Severity \<Rightarrow> string" where
  "severity_str SeverityCritical = ''critical''"
| "severity_str SeverityHigh = ''high''"
| "severity_str SeverityMedium = ''medium''"
| "severity_str SeverityLow = ''low''"
| "severity_str SeverityInfo = ''info''"
| "severity_str (SeverityUnknown s) = s"

fun rank :: "Severity \<Rightarrow> int" where
  "rank SeverityCritical = 4"
| "rank SeverityHigh = 3"
| "rank SeverityMedium = 2"
| "rank SeverityLow = 1"
| "rank SeverityInfo = 0"
| "rank (SeverityUnknown _) = -1"

definition Valid :: "Severity \<Rightarrow> bool" where
  "Valid s \<longleftrightarrow> rank s \<ge> 0"

instantiation Severity :: preorder
begin

definition less_eq_Severity :: "Severity \<Rightarrow> Severity \<Rightarrow> bool" where
  "less_eq_Severity a b \<longleftrightarrow> rank a \<le> rank b"

definition less_Severity :: "Severity \<Rightarrow> Severity \<Rightarrow> bool" where
  "less_Severity a b \<longleftrightarrow> rank a < rank b"

instance
  by standard (auto simp: less_eq_Severity_def less_Severity_def)

end

section \<open>Findings\<close>

definition StatusOpen :: string where "StatusOpen = ''open''"
definition StatusResolved :: string where "StatusResolved = ''resolved''"
definition StatusAcknowledged :: string where "StatusAcknowledged = ''acknowledged''"
definition StatusSuppressed :: string where "StatusSuppressed = ''suppressed''"

lemmas status_defs = StatusOpen_def StatusResolved_def StatusAcknowledged_def StatusSuppressed_def

definition MaxEvidenceBytes :: nat where
  "MaxEvidenceBytes = 64 * 1024"

text \<open>A nil map and a nil pointer are \<open>None\<close>.\<close>

record Finding =
  f_Fingerprint :: string
  f_Target :: string
  f_Check :: string
  f_Title :: string
  f_Severity :: Severity
  f_Remediation :: string
  f_Evidence :: "evidence option"
  f_ID :: string
  f_Module :: string
  f_Status :: string
  f_GroupID :: "string option"
  f_FirstSeen :: int
  f_LastSeen :: int
  f_ResolvedAt :: "int option"

record IngestError =
  ie_Field :: string
  ie_Reason :: string

definition ingest_error_str :: "IngestError \<Rightarrow> string" where
  "ingest_error_str e = ''invalid finding: '' @ ie_Field e @ '': '' @ ie_Reason e"

text \<open>\<open>None\<close> is the nil error.\<close>

definition ValidateForIngest :: "'a Finding_scheme \<Rightarrow> IngestError option" where
  "ValidateForIngest f =
     (if f_Fingerprint f = '''' then Some \<lparr>ie_Field = ''fingerprint'', ie_Reason = ''empty''\<rparr>
      else if f_Target f = '''' then Some \<lparr>ie_Field = ''target'', ie_Reason = ''empty''\<rparr>
      else if f_Check f = '''' then Some \<lparr>ie_Field = ''check'', ie_Reason = ''empty''\<rparr>
      else if f_Title f = '''' then Some \<lparr>ie_Field = ''title'', ie_Reason = ''empty''\<rparr>
      else if f_Remediation f = '''' then
        Some \<lparr>ie_Field = ''remediation'', ie_Reason = ''empty (every finding must tell the user what to do)''\<rparr>
      else if \<not> Valid (f_Severity f) then
        Some \<lparr>ie_Field = ''severity'', ie_Reason = ''unknown value: '' @ severity_str (f_Severity f)\<rparr>
      else None)"

definition Fingerprint :: "string \<Rightarrow> string \<Rightarrow> string \<Rightarrow> string \<Rightarrow> string" where
  "Fingerprint module target check discriminator =
     hex_encode (take 16 (Sum256 (module @ ''|'' @ target @ ''|'' @ check @ ''|'' @ discriminator)))"

section \<open>Modules and targets\<close>

record ModuleInfo =
  mi_ID :: string
  mi_Name :: string
  mi_Version :: string
  mi_TargetKind :: string
  mi_DefaultInterval :: int
  mi_ResolveAfter :: int

definition ResolveAfterOrDefault :: "ModuleInfo \<Rightarrow> int" where
  "ResolveAfterOrDefault m = (if mi_ResolveAfter m < 1 then 1 else mi_ResolveAfter m)"

record Target =
  t_Raw :: string
  t_Canonical :: string

section \<open>Facts\<close>

lemma ValidateForIngest_None:
  "ValidateForIngest f = None \<longleftrightarrow> f_Fingerprint f \<noteq> '''' \<and> f_Target f \<noteq> '''' \<and> f_Check f \<noteq> '''' \<and> f_Title f \<noteq> '''' \<and>
     f_Remediation f \<noteq> '''' \<and> Valid (f_Severity f)"
  by (simp add: ValidateForIngest_def)

lemma Severity_str_inverse [simp]: "severity_str (Severity_of s) = s"
  by (simp add: Severity_of_def)

lemma length_Fingerprint: "length (Fingerprint m t c d) = 32"
  by (simp add: Fingerprint_def length_hex_encode length_Sum256)

lemma Fingerprint_ne: "Fingerprint m t c d \<noteq> ''''"
  using length_Fingerprint [of m t c d] by auto

text \<open>A severity outside the known ones is strictly below every known one.\<close>

lemma unknown_lowest: "Valid b \<Longrightarrow> SeverityUnknown s < b"
  by (simp add: less_Severity_def Valid_def)

end
