(* ===== verification/Store.thy ===== *)
theory Store
  imports CoreFinding "HOL-Library.AList"
begin

text \<open>
  Package \<open>store\<close>: the record of a finding, the in-memory store (\<open>memory.go\<close>), and the reconcile
  engine (\<open>reconcile.go\<close>, \<open>store.go\<close>) over the operations of a store. The engine is a function of
  the store's operations, the clock's reading and the identifier source. An error returned by an
  operation stops the run as in the code, with the result and the store so far. The map of the
  in-memory store is an association list; its listings come in the list's order, where Go's are
  in any order.
\<close>

section \<open>Records and results\<close>

record Record = Finding +
  r_AbsentStreak :: int

abbreviation finding_of :: "Record \<Rightarrow> Finding" where
  "finding_of r \<equiv> Finding.truncate r"

record ReconcileResult =
  rr_NewlyOpen :: "Finding list"
  rr_Resolved :: "Finding list"
  rr_Rejected :: "(Finding \<times> IngestError) list"

section \<open>The in-memory store\<close>

record memTarget =
  mt_raw :: string
  mt_canonical :: string

record MemStore =
  ms_recs :: "(string \<times> Record) list"
  ms_targets :: "(string \<times> memTarget list) list"

definition NewMemStore :: MemStore where
  "NewMemStore = \<lparr>ms_recs = [], ms_targets = []\<rparr>"

definition store_key :: "string \<Rightarrow> string \<Rightarrow> string" where
  "store_key module fingerprint = module @ CHR 0x00 # fingerprint"

definition mem_ListByTarget :: "MemStore \<Rightarrow> string \<Rightarrow> string \<Rightarrow> Record list" where
  "mem_ListByTarget m module target =
     filter (\<lambda>r. f_Module r = module \<and> f_Target r = target) (map snd (ms_recs m))"

definition mem_Upsert :: "Record \<Rightarrow> MemStore \<Rightarrow> MemStore" where
  "mem_Upsert r m = m\<lparr>ms_recs := AList.update (store_key (f_Module r) (f_Fingerprint r)) r (ms_recs m)\<rparr>"

definition mem_Get :: "MemStore \<Rightarrow> string \<Rightarrow> string \<Rightarrow> Record option" where
  "mem_Get m module fingerprint = map_of (ms_recs m) (store_key module fingerprint)"

definition mem_ListOpen :: "MemStore \<Rightarrow> string \<Rightarrow> Record list" where
  "mem_ListOpen m module = filter (\<lambda>r. f_Module r = module \<and> f_Status r = ''open'') (map snd (ms_recs m))"

definition mem_ListAll :: "MemStore \<Rightarrow> string \<Rightarrow> Record list" where
  "mem_ListAll m module = filter (\<lambda>r. f_Module r = module) (map snd (ms_recs m))"

definition saved_targets :: "MemStore \<Rightarrow> string \<Rightarrow> memTarget list" where
  "saved_targets m module = (case map_of (ms_targets m) module of Some ts \<Rightarrow> ts | None \<Rightarrow> [])"

definition mem_SaveTarget :: "string \<Rightarrow> string \<Rightarrow> string \<Rightarrow> MemStore \<Rightarrow> MemStore" where
  "mem_SaveTarget module raw canonical m =
     (if list_ex (\<lambda>t. mt_canonical t = canonical) (saved_targets m module) then m
      else m\<lparr>ms_targets := AList.update module
        (saved_targets m module @ [\<lparr>mt_raw = raw, mt_canonical = canonical\<rparr>]) (ms_targets m)\<rparr>)"

definition mem_DeleteTarget :: "string \<Rightarrow> string \<Rightarrow> MemStore \<Rightarrow> MemStore" where
  "mem_DeleteTarget module canonical m =
     m\<lparr>ms_targets := AList.update module
       (filter (\<lambda>t. mt_canonical t \<noteq> canonical) (saved_targets m module)) (ms_targets m)\<rparr>"

definition mem_ListSavedTargets :: "MemStore \<Rightarrow> string \<Rightarrow> string list" where
  "mem_ListSavedTargets m module = map mt_raw (saved_targets m module)"

section \<open>Evidence\<close>

definition capEvidence :: "Finding \<Rightarrow> Finding" where
  "capEvidence f =
     (case f_Evidence f of
        None \<Rightarrow> f
      | Some ev \<Rightarrow>
          (case marshal_evidence ev of
             None \<Rightarrow> f\<lparr>f_Evidence := Some [(''_error'', JString ''evidence not serialisable; dropped'')]\<rparr>
           | Some b \<Rightarrow>
               if length b > MaxEvidenceBytes then
                 f\<lparr>f_Evidence := Some
                   [(''_truncated'', JBool True), (''_original_bytes'', JInt (int (length b))),
                    (''_note'', JString ''evidence exceeded MaxEvidenceBytes and was dropped'')]\<rparr>
               else f))"

section \<open>The engine\<close>

text \<open>The state of a run: the store, the identifier source, the result, the fingerprints seen.\<close>

record ('s, 'g) recon =
  rc_store :: 's
  rc_gen :: 'g
  rc_res :: ReconcileResult
  rc_seen :: "string list"

definition add_opened :: "Finding \<Rightarrow> ('s, 'g) recon \<Rightarrow> ('s, 'g) recon" where
  "add_opened f st = st\<lparr>rc_res := (rc_res st)\<lparr>rr_NewlyOpen := rr_NewlyOpen (rc_res st) @ [f]\<rparr>\<rparr>"

definition add_resolved :: "Finding \<Rightarrow> ('s, 'g) recon \<Rightarrow> ('s, 'g) recon" where
  "add_resolved f st = st\<lparr>rc_res := (rc_res st)\<lparr>rr_Resolved := rr_Resolved (rc_res st) @ [f]\<rparr>\<rparr>"

definition add_rejected :: "Finding \<Rightarrow> IngestError \<Rightarrow> ('s, 'g) recon \<Rightarrow> ('s, 'g) recon" where
  "add_rejected f e st = st\<lparr>rc_res := (rc_res st)\<lparr>rr_Rejected := rr_Rejected (rc_res st) @ [(f, e)]\<rparr>\<rparr>"

definition new_record :: "string \<Rightarrow> string \<Rightarrow> int \<Rightarrow> Finding \<Rightarrow> Record" where
  "new_record fid module now f =
     Finding.extend (f\<lparr>f_ID := fid, f_Module := module, f_Status := StatusOpen, f_FirstSeen := now, f_LastSeen := now\<rparr>)
       (Record.fields 0)"

definition merge_record :: "int \<Rightarrow> Record \<Rightarrow> Finding \<Rightarrow> Record" where
  "merge_record now prev f =
     (let merged = prev\<lparr>f_Title := f_Title f, f_Severity := f_Severity f, f_Remediation := f_Remediation f,
            f_Evidence := f_Evidence f, f_LastSeen := now, r_AbsentStreak := 0\<rparr>
      in if f_Status prev = StatusResolved then merged\<lparr>f_Status := StatusOpen, f_ResolvedAt := None\<rparr> else merged)"

text \<open>One fresh finding. The map \<open>byFP\<close> of the existing records is built before the loop.\<close>

definition fresh_step ::
  "(Record \<Rightarrow> 's \<Rightarrow> string + 's) \<Rightarrow> (int \<Rightarrow> 'g \<Rightarrow> (string + string) \<times> 'g) \<Rightarrow> int \<Rightarrow> string \<Rightarrow>
    (string \<Rightarrow> Record option) \<Rightarrow> Finding \<Rightarrow> ('s, 'g) recon \<Rightarrow> ('s, 'g) recon \<times> string option" where
  "fresh_step upsert newID now module byFP f st =
     (case ValidateForIngest f of
        Some e \<Rightarrow> (add_rejected f e st, None)
      | None \<Rightarrow>
          (let f = capEvidence f; st = st\<lparr>rc_seen := f_Fingerprint f # rc_seen st\<rparr> in
           case byFP (f_Fingerprint f) of
             None \<Rightarrow>
               (case newID now (rc_gen st) of
                  (Inl err, g) \<Rightarrow> (st\<lparr>rc_gen := g\<rparr>, Some err)
                | (Inr fid, g) \<Rightarrow>
                    (let st = st\<lparr>rc_gen := g\<rparr>; rec = new_record fid module now f in
                     case upsert rec (rc_store st) of
                       Inl err \<Rightarrow> (st, Some err)
                     | Inr s \<Rightarrow> (add_opened (finding_of rec) (st\<lparr>rc_store := s\<rparr>), None)))
           | Some prev \<Rightarrow>
               (let merged = merge_record now prev f in
                case upsert merged (rc_store st) of
                  Inl err \<Rightarrow> (st, Some err)
                | Inr s \<Rightarrow>
                    (let st = st\<lparr>rc_store := s\<rparr> in
                     if f_Status prev = StatusResolved then (add_opened (finding_of merged) st, None) else (st, None)))))"

fun fresh_loop ::
  "(Record \<Rightarrow> 's \<Rightarrow> string + 's) \<Rightarrow> (int \<Rightarrow> 'g \<Rightarrow> (string + string) \<times> 'g) \<Rightarrow> int \<Rightarrow> string \<Rightarrow>
    (string \<Rightarrow> Record option) \<Rightarrow> Finding list \<Rightarrow> ('s, 'g) recon \<Rightarrow> ('s, 'g) recon \<times> string option" where
  "fresh_loop upsert newID now module byFP [] st = (st, None)"
| "fresh_loop upsert newID now module byFP (f # fs) st =
     (case fresh_step upsert newID now module byFP f st of
        (st, Some err) \<Rightarrow> (st, Some err)
      | (st, None) \<Rightarrow> fresh_loop upsert newID now module byFP fs st)"

text \<open>One existing record the scan did not report: its next state, and whether it resolves now.\<close>

definition age_record :: "int \<Rightarrow> int \<Rightarrow> Record \<Rightarrow> Record" where
  "age_record now threshold r =
     (let r = r\<lparr>r_AbsentStreak := r_AbsentStreak r + 1\<rparr> in
      if r_AbsentStreak r \<ge> threshold then r\<lparr>f_Status := StatusResolved, f_ResolvedAt := Some now\<rparr> else r)"

fun absent_loop ::
  "(Record \<Rightarrow> 's \<Rightarrow> string + 's) \<Rightarrow> int \<Rightarrow> int \<Rightarrow> Record list \<Rightarrow> ('s, 'g) recon \<Rightarrow> ('s, 'g) recon \<times> string option" where
  "absent_loop upsert now threshold [] st = (st, None)"
| "absent_loop upsert now threshold (r # rs) st =
     (if f_Fingerprint r \<in> set (rc_seen st) \<or> f_Status r = StatusResolved \<or> f_Status r = StatusSuppressed
      then absent_loop upsert now threshold rs st
      else
        (let r' = age_record now threshold r;
             st = (if r_AbsentStreak r + 1 \<ge> threshold then add_resolved (finding_of r') st else st)
         in case upsert r' (rc_store st) of
              Inl err \<Rightarrow> (st, Some err)
            | Inr s \<Rightarrow> absent_loop upsert now threshold rs (st\<lparr>rc_store := s\<rparr>)))"

fun by_fingerprint :: "Record list \<Rightarrow> (string \<Rightarrow> Record option) \<Rightarrow> (string \<Rightarrow> Record option)" where
  "by_fingerprint [] m = m"
| "by_fingerprint (r # rs) m = by_fingerprint rs (m(f_Fingerprint r \<mapsto> r))"

definition empty_result :: ReconcileResult where
  "empty_result = \<lparr>rr_NewlyOpen = [], rr_Resolved = [], rr_Rejected = []\<rparr>"

definition Reconcile ::
  "('s \<Rightarrow> string \<Rightarrow> string \<Rightarrow> string + Record list) \<Rightarrow> (Record \<Rightarrow> 's \<Rightarrow> string + 's) \<Rightarrow>
    (int \<Rightarrow> 'g \<Rightarrow> (string + string) \<times> 'g) \<Rightarrow> int \<Rightarrow> ModuleInfo \<Rightarrow> string \<Rightarrow> Finding list \<Rightarrow> 's \<Rightarrow> 'g \<Rightarrow>
    ('s, 'g) recon \<times> string option" where
  "Reconcile listByTarget upsert newID now mi target fresh s g =
     (let st = \<lparr>rc_store = s, rc_gen = g, rc_res = empty_result, rc_seen = []\<rparr> in
      case listByTarget s (mi_ID mi) target of
        Inl err \<Rightarrow> (st, Some err)
      | Inr existing \<Rightarrow>
          (case fresh_loop upsert newID now (mi_ID mi) (by_fingerprint existing (\<lambda>_. None)) fresh st of
             (st, Some err) \<Rightarrow> (st, Some err)
           | (st, None) \<Rightarrow> absent_loop upsert now (ResolveAfterOrDefault mi) existing st))"

text \<open>The engine over the in-memory store.\<close>

definition mem_Reconcile where
  "mem_Reconcile = Reconcile (\<lambda>m module target. Inr (mem_ListByTarget m module target)) (\<lambda>r m. Inr (mem_Upsert r m))"

end
