(* ===== verification/StoreSpec.thy ===== *)
theory StoreSpec
  imports Store
begin

text \<open>
  The contract of a findings store (\<open>store.Store\<close> of \<open>store.go\<close>) as a locale, and what a
  reconcile run does to any store that meets it: every finding of the target moves by one
  transition of its life cycle, and nothing else changes. The locale is interpreted on the
  in-memory store.
\<close>

section \<open>The life cycle of one finding\<close>

definition ingested :: "Finding list \<Rightarrow> string \<Rightarrow> Finding option" where
  "ingested fresh fp = List.find (\<lambda>f. ValidateForIngest f = None \<and> f_Fingerprint f = fp) fresh"

definition age_step :: "int \<Rightarrow> int \<Rightarrow> Record \<Rightarrow> Record" where
  "age_step now threshold r =
     (if f_Status r = StatusResolved \<or> f_Status r = StatusSuppressed then r else age_record now threshold r)"

text \<open>The records that may replace the one a fingerprint had: the identifier of a new one is open.\<close>

definition transition :: "int \<Rightarrow> ModuleInfo \<Rightarrow> string \<Rightarrow> Finding option \<Rightarrow> Record option \<Rightarrow> Record option \<Rightarrow> bool" where
  "transition now mi target f prev res \<longleftrightarrow>
     (case (f, prev) of
        (Some f, None) \<Rightarrow> \<exists>fid. res = Some (new_record fid (mi_ID mi) now (capEvidence f))
      | (Some f, Some p) \<Rightarrow> res = Some (merge_record now p (capEvidence f))
      | (None, None) \<Rightarrow> res = None
      | (None, Some p) \<Rightarrow>
          res = Some (if f_Target p = target then age_step now (ResolveAfterOrDefault mi) p else p))"

text \<open>The fresh findings a run is about: those that pass the check name the target, with distinct fingerprints.\<close>

definition fresh_ok :: "string \<Rightarrow> Finding list \<Rightarrow> bool" where
  "fresh_ok target fresh \<longleftrightarrow>
     list_all (\<lambda>f. ValidateForIngest f = None \<longrightarrow> f_Target f = target) fresh \<and>
     distinct (map f_Fingerprint (filter (\<lambda>f. ValidateForIngest f = None) fresh))"

lemma capEvidence_fields [simp]:
  "f_Fingerprint (capEvidence f) = f_Fingerprint f" "f_Target (capEvidence f) = f_Target f"
  "f_Check (capEvidence f) = f_Check f" "f_Title (capEvidence f) = f_Title f" "f_ID (capEvidence f) = f_ID f"
  "f_Severity (capEvidence f) = f_Severity f" "f_Remediation (capEvidence f) = f_Remediation f"
  by (simp_all add: capEvidence_def split: option.split)

lemma new_record_fields [simp]:
  "f_Fingerprint (new_record fid m now f) = f_Fingerprint f" "f_Target (new_record fid m now f) = f_Target f"
  "f_Module (new_record fid m now f) = m" "f_Status (new_record fid m now f) = StatusOpen"
  "f_Title (new_record fid m now f) = f_Title f" "r_AbsentStreak (new_record fid m now f) = 0"
  "f_ResolvedAt (new_record fid m now f) = f_ResolvedAt f" "f_ID (new_record fid m now f) = fid"
  "f_Severity (new_record fid m now f) = f_Severity f" "f_Evidence (new_record fid m now f) = f_Evidence f"
  by (simp_all add: new_record_def Finding.defs Record.defs)

text \<open>The fields that identify a record.\<close>

definition same_identity :: "Record \<Rightarrow> Record \<Rightarrow> bool" where
  "same_identity a b \<longleftrightarrow> f_ID a = f_ID b \<and> f_Module a = f_Module b \<and> f_Fingerprint a = f_Fingerprint b \<and>
     f_Target a = f_Target b \<and> f_Check a = f_Check b \<and> f_FirstSeen a = f_FirstSeen b"

lemma merge_identity [simp]: "same_identity (merge_record now p f) p"
  by (simp add: same_identity_def merge_record_def Let_def)

lemma merge_values [simp]:
  "f_Severity (merge_record now p f) = f_Severity f" "f_Evidence (merge_record now p f) = f_Evidence f"
  by (simp_all add: merge_record_def Let_def)

lemma age_values [simp]: "f_Severity (age_record now k p) = f_Severity p" "f_Evidence (age_record now k p) = f_Evidence p"
  by (simp_all add: age_record_def Let_def)

lemma age_identity [simp]: "same_identity (age_record now k p) p"
  by (simp add: same_identity_def age_record_def Let_def)

lemma identity_fields:
  "same_identity a b \<Longrightarrow> f_Module a = f_Module b \<and> f_Fingerprint a = f_Fingerprint b \<and> f_Target a = f_Target b"
  by (simp add: same_identity_def)

lemmas merge_fields [simp] = merge_identity [THEN identity_fields, THEN conjunct1]
  merge_identity [THEN identity_fields, THEN conjunct2, THEN conjunct1]
  merge_identity [THEN identity_fields, THEN conjunct2, THEN conjunct2]

lemmas age_fields [simp] = age_identity [THEN identity_fields, THEN conjunct1]
  age_identity [THEN identity_fields, THEN conjunct2, THEN conjunct1]
  age_identity [THEN identity_fields, THEN conjunct2, THEN conjunct2]

text \<open>What one fresh finding does to the store.\<close>

definition stored :: "int \<Rightarrow> string \<Rightarrow> Finding \<Rightarrow> Record option \<Rightarrow> Record option \<Rightarrow> bool" where
  "stored now module f prev res \<longleftrightarrow>
     (case prev of
        None \<Rightarrow> \<exists>fid. res = Some (new_record fid module now (capEvidence f))
      | Some p \<Rightarrow> res = Some (merge_record now p (capEvidence f)))"

lemma add_simps [simp]:
  "rc_store (add_opened f st) = rc_store st" "rc_seen (add_opened f st) = rc_seen st"
  "rc_store (add_resolved f st) = rc_store st" "rc_seen (add_resolved f st) = rc_seen st"
  "rc_store (add_rejected f e st) = rc_store st" "rc_seen (add_rejected f e st) = rc_seen st"
  by (simp_all add: add_opened_def add_resolved_def add_rejected_def)

section \<open>The contract\<close>

text \<open>
  \<open>okm\<close> are the module identifiers the store keeps apart. A store may keep the identifying fields of
  the record it has when it is given another one under the same key (as the SQL upsert does), so
  the law of a write is about records that agree on them. A store may also keep the severity and the
  evidence in another form: \<open>okv\<close> are those that it gives back as they were written.
\<close>

locale finding_store =
  fixes listT :: "'s \<Rightarrow> string \<Rightarrow> string \<Rightarrow> string + Record list"
    and upsert :: "Record \<Rightarrow> 's \<Rightarrow> string + 's"
    and lookup :: "'s \<Rightarrow> string \<Rightarrow> string \<Rightarrow> Record option"
    and wf :: "'s \<Rightarrow> bool"
    and okm :: "string \<Rightarrow> bool"
    and okv :: "Severity \<Rightarrow> evidence option \<Rightarrow> bool"
  assumes lookup_key: "wf s \<Longrightarrow> okm m \<Longrightarrow> lookup s m fp = Some r \<Longrightarrow> f_Module r = m \<and> f_Fingerprint r = fp"
    and list_set: "wf s \<Longrightarrow> okm m \<Longrightarrow> listT s m t = Inr rs \<Longrightarrow>
      set rs = {r. lookup s m (f_Fingerprint r) = Some r \<and> f_Target r = t}"
    and list_distinct: "wf s \<Longrightarrow> okm m \<Longrightarrow> listT s m t = Inr rs \<Longrightarrow> distinct (map f_Fingerprint rs)"
    and lookup_okv: "wf s \<Longrightarrow> okm m \<Longrightarrow> lookup s m fp = Some r \<Longrightarrow> okv (f_Severity r) (f_Evidence r)"
    and upsert_wf: "wf s \<Longrightarrow> okm (f_Module r) \<Longrightarrow> okv (f_Severity r) (f_Evidence r) \<Longrightarrow> upsert r s = Inr s' \<Longrightarrow> wf s'"
    and upsert_lookup: "wf s \<Longrightarrow> okm (f_Module r) \<Longrightarrow> okm m \<Longrightarrow> okv (f_Severity r) (f_Evidence r) \<Longrightarrow> upsert r s = Inr s' \<Longrightarrow>
      (\<And>p. lookup s (f_Module r) (f_Fingerprint r) = Some p \<Longrightarrow> same_identity r p) \<Longrightarrow>
      lookup s' m fp = (if m = f_Module r \<and> fp = f_Fingerprint r then Some r else lookup s m fp)"
begin

definition ok_finding :: "Finding \<Rightarrow> bool" where
  "ok_finding f \<longleftrightarrow> okv (f_Severity f) (f_Evidence (capEvidence f))"

lemma ok_new: "ok_finding f \<Longrightarrow>
    okv (f_Severity (new_record fid m now (capEvidence f))) (f_Evidence (new_record fid m now (capEvidence f)))"
  by (simp add: ok_finding_def)

lemma ok_merge: "ok_finding f \<Longrightarrow> okv (f_Severity (merge_record now p (capEvidence f))) (f_Evidence (merge_record now p (capEvidence f)))"
  by (simp add: ok_finding_def)

lemma fresh_step_lookup:
  assumes wf: "wf (rc_store st)" and ok: "okm module" "okm m" and okf: "ValidateForIngest f = None \<Longrightarrow> ok_finding f"
    and step: "fresh_step upsert newID now module byFP f st = (st', None)"
    and cur: "ValidateForIngest f = None \<Longrightarrow> lookup (rc_store st) module (f_Fingerprint f) = byFP (f_Fingerprint f)"
    and byp: "\<forall>fp p. byFP fp = Some p \<longrightarrow> f_Module p = module \<and> f_Fingerprint p = fp"
  shows "wf (rc_store st')"
    and "ValidateForIngest f = None \<and> m = module \<and> fp = f_Fingerprint f \<Longrightarrow>
      stored now module f (byFP fp) (lookup (rc_store st') m fp)"
    and "\<not> (ValidateForIngest f = None \<and> m = module \<and> fp = f_Fingerprint f) \<Longrightarrow>
      lookup (rc_store st') m fp = lookup (rc_store st) m fp"
    and "set (rc_seen st') = set (rc_seen st) \<union> (if ValidateForIngest f = None then {f_Fingerprint f} else {})"
proof -
  have "wf (rc_store st') \<and>
    (if ValidateForIngest f = None \<and> m = module \<and> fp = f_Fingerprint f
     then stored now module f (byFP fp) (lookup (rc_store st') m fp)
     else lookup (rc_store st') m fp = lookup (rc_store st) m fp) \<and>
    set (rc_seen st') = set (rc_seen st) \<union> (if ValidateForIngest f = None then {f_Fingerprint f} else {})"
  proof (cases "ValidateForIngest f")
    case (Some e)
    with step have "st' = add_rejected f e st" by (simp add: fresh_step_def)
    with Some wf show ?thesis by simp
  next
    case valid: None
    show ?thesis
    proof (cases "byFP (f_Fingerprint f)")
      case None
      from step valid None obtain fid g s where u: "upsert (new_record fid module now (capEvidence f)) (rc_store st) = Inr s"
        and st': "rc_store st' = s" "rc_seen st' = f_Fingerprint f # rc_seen st"
        by (auto simp: fresh_step_def Let_def split: prod.splits sum.splits)
      have none: "lookup (rc_store st) module (f_Fingerprint f) = None" using cur valid None by simp
      have "lookup s m fp = (if m = module \<and> fp = f_Fingerprint f
          then Some (new_record fid module now (capEvidence f)) else lookup (rc_store st) m fp)"
        using upsert_lookup [OF wf _ ok(2) ok_new [OF okf [OF valid]] u] ok(1) none by simp
      moreover have "wf s" using upsert_wf [OF wf _ ok_new [OF okf [OF valid]] u] ok(1) by simp
      ultimately show ?thesis using valid None st' by (auto simp: stored_def)
    next
      case (Some p)
      with byp have p: "f_Module p = module" "f_Fingerprint p = f_Fingerprint f" by blast+
      let ?r = "merge_record now p (capEvidence f)"
      from step valid Some obtain s where u: "upsert ?r (rc_store st) = Inr s"
        and st': "rc_store st' = s" "rc_seen st' = f_Fingerprint f # rc_seen st"
        by (auto simp: fresh_step_def Let_def split: prod.splits sum.splits if_splits)
      have "lookup (rc_store st) module (f_Fingerprint f) = Some p" using cur valid Some by simp
      then have "lookup s m fp = (if m = module \<and> fp = f_Fingerprint f then Some ?r else lookup (rc_store st) m fp)"
        using upsert_lookup [OF wf _ ok(2) ok_merge [OF okf [OF valid]] u] ok(1) p by simp
      moreover have "wf s" using upsert_wf [OF wf _ ok_merge [OF okf [OF valid]] u] ok(1) p by simp
      ultimately show ?thesis using valid Some st' by (auto simp: stored_def)
    qed
  qed
  then show "wf (rc_store st')"
    and "ValidateForIngest f = None \<and> m = module \<and> fp = f_Fingerprint f \<Longrightarrow>
      stored now module f (byFP fp) (lookup (rc_store st') m fp)"
    and "\<not> (ValidateForIngest f = None \<and> m = module \<and> fp = f_Fingerprint f) \<Longrightarrow>
      lookup (rc_store st') m fp = lookup (rc_store st) m fp"
    and "set (rc_seen st') = set (rc_seen st) \<union> (if ValidateForIngest f = None then {f_Fingerprint f} else {})"
    by (simp_all split: if_splits)
qed

lemma fresh_loop_lookup:
  assumes "wf (rc_store st)" and "okm module" and "okm m"
    and "fresh_loop upsert newID now module byFP fresh st = (st', None)"
    and "distinct (map f_Fingerprint (filter (\<lambda>f. ValidateForIngest f = None) fresh))"
    and "\<And>f. f \<in> set fresh \<Longrightarrow> ValidateForIngest f = None \<Longrightarrow>
      lookup (rc_store st) module (f_Fingerprint f) = byFP (f_Fingerprint f)"
    and "\<forall>fp p. byFP fp = Some p \<longrightarrow> f_Module p = module \<and> f_Fingerprint p = fp"
    and "\<forall>f \<in> set fresh. ValidateForIngest f = None \<longrightarrow> ok_finding f"
  shows "wf (rc_store st') \<and>
    (case (if m = module then ingested fresh fp else None) of
       None \<Rightarrow> lookup (rc_store st') m fp = lookup (rc_store st) m fp
     | Some f \<Rightarrow> stored now module f (byFP fp) (lookup (rc_store st') m fp)) \<and>
    set (rc_seen st') = set (rc_seen st) \<union> f_Fingerprint ` {f \<in> set fresh. ValidateForIngest f = None}"
  using assms(1,4,5,6,8)
proof (induction fresh arbitrary: st)
  case Nil
  then show ?case by (simp add: ingested_def)
next
  case (Cons f fs)
  obtain st1 where st1: "fresh_step upsert newID now module byFP f st = (st1, None)"
    and rest: "fresh_loop upsert newID now module byFP fs st1 = (st', None)"
    using Cons.prems(2) by (auto split: prod.splits option.splits)
  have okf: "ValidateForIngest f = None \<Longrightarrow> ok_finding f" using Cons.prems(5) by simp
  note step = fresh_step_lookup [OF Cons.prems(1) assms(2) _ okf st1 _ assms(7)]
  have cur: "ValidateForIngest f = None \<Longrightarrow> lookup (rc_store st) module (f_Fingerprint f) = byFP (f_Fingerprint f)"
    using Cons.prems(4) by simp
  have dist: "distinct (map f_Fingerprint (filter (\<lambda>f. ValidateForIngest f = None) fs))"
    using Cons.prems(3) by (simp split: if_splits)
  have other: "f_Fingerprint g \<noteq> f_Fingerprint f" if "ValidateForIngest f = None" "g \<in> set fs" "ValidateForIngest g = None" for g
    using Cons.prems(3) that by (auto simp: image_iff)
  have cur': "lookup (rc_store st1) module (f_Fingerprint g) = byFP (f_Fingerprint g)"
    if "g \<in> set fs" "ValidateForIngest g = None" for g
  proof -
    have "\<not> (ValidateForIngest f = None \<and> module = module \<and> f_Fingerprint g = f_Fingerprint f)"
      using other that by blast
    from step(3) [OF assms(2) _ cur this] show ?thesis using Cons.prems(4) that by simp
  qed
  have okfs: "\<forall>g \<in> set fs. ValidateForIngest g = None \<longrightarrow> ok_finding g" using Cons.prems(5) by simp
  from Cons.IH [OF step(1) [OF assms(3) _ cur] rest dist cur' okfs]
  have IH: "wf (rc_store st')"
    "case (if m = module then ingested fs fp else None) of
       None \<Rightarrow> lookup (rc_store st') m fp = lookup (rc_store st1) m fp
     | Some f \<Rightarrow> stored now module f (byFP fp) (lookup (rc_store st') m fp)"
    "set (rc_seen st') = set (rc_seen st1) \<union> f_Fingerprint ` {f \<in> set fs. ValidateForIngest f = None}"
    by blast+
  have seen: "set (rc_seen st') = set (rc_seen st) \<union> f_Fingerprint ` {g \<in> set (f # fs). ValidateForIngest g = None}"
    using IH(3) step(4) [OF assms(3) _ cur] by (auto split: if_splits)
  show ?case
  proof (cases "ValidateForIngest f = None \<and> m = module \<and> fp = f_Fingerprint f")
    case True
    then have "ingested fs fp = None" using other by (auto simp: ingested_def find_None_iff)
    with IH(2) have "lookup (rc_store st') m fp = lookup (rc_store st1) m fp" by (simp split: if_splits)
    moreover have "stored now module f (byFP fp) (lookup (rc_store st1) m fp)"
      using step(2) [OF assms(3) _ cur True] .
    moreover have "ingested (f # fs) fp = Some f" using True by (simp add: ingested_def)
    ultimately show ?thesis using True IH(1) seen by simp
  next
    case False
    have "lookup (rc_store st1) m fp = lookup (rc_store st) m fp" using step(3) [OF assms(3) _ cur False] .
    moreover have "m = module \<Longrightarrow> ingested (f # fs) fp = ingested fs fp"
      using False by (auto simp: ingested_def)
    ultimately show ?thesis using IH(1,2) seen by (cases "m = module"; cases "ingested fs fp") simp_all
  qed
qed

text \<open>The records the scan did not report.\<close>

lemma absent_loop_lookup:
  assumes "wf (rc_store st)" and "okm module" and "okm m"
    and "absent_loop upsert now k rs st = (st', None)"
    and "distinct (map f_Fingerprint rs)" and "\<And>r. r \<in> set rs \<Longrightarrow> f_Module r = module"
    and "\<And>r. r \<in> set rs \<Longrightarrow> f_Fingerprint r \<notin> set (rc_seen st) \<Longrightarrow>
      lookup (rc_store st) module (f_Fingerprint r) = Some r"
    and "\<forall>r \<in> set rs. okv (f_Severity r) (f_Evidence r)"
  shows "wf (rc_store st') \<and> lookup (rc_store st') m fp =
    (case (if m = module \<and> fp \<notin> set (rc_seen st) then List.find (\<lambda>r. f_Fingerprint r = fp) rs else None) of
       None \<Rightarrow> lookup (rc_store st) m fp | Some r \<Rightarrow> Some (age_step now k r))"
  using assms(1,4-)
proof (induction rs arbitrary: st)
  case (Cons r rs)
  have dist: "distinct (map f_Fingerprint rs)" and mod_r: "f_Module r = module" using Cons.prems(3,4) by simp_all
  have notin: "List.find (\<lambda>q. f_Fingerprint q = f_Fingerprint r) rs = None"
    using Cons.prems(3) by (auto simp: find_None_iff) (metis image_eqI)
  show ?case
  proof (cases "f_Fingerprint r \<in> set (rc_seen st) \<or> f_Status r = StatusResolved \<or> f_Status r = StatusSuppressed")
    case True
    then have "absent_loop upsert now k rs st = (st', None)" using Cons.prems(2) by simp
    note IH = Cons.IH [OF Cons.prems(1) this dist]
    from IH Cons.prems(4-6) have IH': "wf (rc_store st') \<and> lookup (rc_store st') m fp =
      (case (if m = module \<and> fp \<notin> set (rc_seen st) then List.find (\<lambda>r. f_Fingerprint r = fp) rs else None) of
         None \<Rightarrow> lookup (rc_store st) m fp | Some r \<Rightarrow> Some (age_step now k r))" by simp
    show ?thesis
    proof (cases "m = module \<and> fp \<notin> set (rc_seen st) \<and> fp = f_Fingerprint r")
      case eq: True
      then have "lookup (rc_store st) m fp = Some r" using Cons.prems(5) [of r] by auto
      moreover have "age_step now k r = r" using True eq by (auto simp: age_step_def)
      ultimately show ?thesis using IH' eq notin by simp
    next
      case False
      then show ?thesis using IH' by auto
    qed
  next
    case False
    let ?r = "age_record now k r"
    obtain st1 where u: "upsert ?r (rc_store st) = Inr (rc_store st1)" and seen: "rc_seen st1 = rc_seen st"
      and rest: "absent_loop upsert now k rs st1 = (st', None)"
    proof -
      define st0 where "st0 = (if r_AbsentStreak r + 1 \<ge> k then add_resolved (finding_of ?r) st else st)"
      obtain s where "upsert ?r (rc_store st0) = Inr s" "absent_loop upsert now k rs (st0\<lparr>rc_store := s\<rparr>) = (st', None)"
        using Cons.prems(2) False unfolding absent_loop.simps Let_def st0_def [symmetric]
        by (auto split: sum.splits)
      then show thesis using that [of "st0\<lparr>rc_store := s\<rparr>"] by (simp add: st0_def split: if_splits)
    qed
    have cur: "lookup (rc_store st) module (f_Fingerprint r) = Some r" using Cons.prems(5) False by simp
    have okr: "okv (f_Severity ?r) (f_Evidence ?r)" using Cons.prems(6) by simp
    have wf1: "wf (rc_store st1)" using upsert_wf [OF Cons.prems(1) _ okr u] mod_r assms(2) by simp
    have upd: "lookup (rc_store st1) m' fp' =
        (if m' = module \<and> fp' = f_Fingerprint r then Some ?r else lookup (rc_store st) m' fp')" if "okm m'" for m' fp'
      using upsert_lookup [OF Cons.prems(1) _ that okr u] mod_r assms(2) cur by simp
    have "lookup (rc_store st1) module (f_Fingerprint q) = Some q"
      if "q \<in> set rs" "f_Fingerprint q \<notin> set (rc_seen st1)" for q
      using that Cons.prems(3,5) upd [OF assms(2)] seen by (auto simp: image_iff)
    from Cons.IH [OF wf1 rest dist _ this] Cons.prems(4,6)
    have IH: "wf (rc_store st') \<and> lookup (rc_store st') m fp =
      (case (if m = module \<and> fp \<notin> set (rc_seen st) then List.find (\<lambda>r. f_Fingerprint r = fp) rs else None) of
         None \<Rightarrow> lookup (rc_store st1) m fp | Some r \<Rightarrow> Some (age_step now k r))" using seen by simp
    show ?thesis
    proof (cases "m = module \<and> fp = f_Fingerprint r")
      case True
      then show ?thesis using IH notin False upd [OF assms(3), of fp] by (auto simp: age_step_def)
    next
      case neq: False
      then have same: "lookup (rc_store st1) m fp = lookup (rc_store st) m fp"
        using upd [OF assms(3), of fp] by auto
      have "List.find (\<lambda>q. f_Fingerprint q = fp) (r # rs) = List.find (\<lambda>q. f_Fingerprint q = fp) rs" if "m = module"
        using neq that by simp
      then show ?thesis using IH [unfolded same] by (cases "m = module") simp_all
    qed
  qed
qed simp

text \<open>A run that returns no error moves every finding of the target by one transition, and no other.\<close>

lemma by_fingerprint_find:
  "distinct (map f_Fingerprint rs) \<Longrightarrow>
    by_fingerprint rs m fp = (case List.find (\<lambda>r. f_Fingerprint r = fp) rs of None \<Rightarrow> m fp | Some r \<Rightarrow> Some r)"
proof (induction rs arbitrary: m)
  case (Cons r rs)
  have IH: "by_fingerprint rs (m(f_Fingerprint r \<mapsto> r)) fp =
      (case List.find (\<lambda>r. f_Fingerprint r = fp) rs of None \<Rightarrow> (m(f_Fingerprint r \<mapsto> r)) fp | Some r \<Rightarrow> Some r)"
    using Cons.IH Cons.prems by simp
  show ?case
  proof (cases "f_Fingerprint r = fp")
    case True
    then have "List.find (\<lambda>r. f_Fingerprint r = fp) rs = None"
      using Cons.prems by (auto simp: find_None_iff) (metis image_eqI)
    with True IH show ?thesis by simp
  next
    case False
    with IH show ?thesis by (cases "List.find (\<lambda>r. f_Fingerprint r = fp) rs") simp_all
  qed
qed simp

lemma reconcile_transitions:
  assumes wf: "wf s" and ok: "okm (mi_ID mi)" "okm m" and fresh: "fresh_ok target fresh"
    and foreign: "\<And>f r. f \<in> set fresh \<Longrightarrow> ValidateForIngest f = None \<Longrightarrow>
      lookup s (mi_ID mi) (f_Fingerprint f) = Some r \<Longrightarrow> f_Target r = target"
    and okf: "\<forall>f \<in> set fresh. ValidateForIngest f = None \<longrightarrow> ok_finding f"
    and run: "Reconcile listT upsert newID now mi target fresh s g = (st, None)"
  shows "wf (rc_store st)"
    and "transition now mi target (ingested fresh fp) (lookup s (mi_ID mi) fp) (lookup (rc_store st) (mi_ID mi) fp)"
    and "m \<noteq> mi_ID mi \<Longrightarrow> lookup (rc_store st) m fp = lookup s m fp"
proof -
  let ?st0 = "\<lparr>rc_store = s, rc_gen = g, rc_res = empty_result, rc_seen = []\<rparr>"
  obtain rs st1 where rs: "listT s (mi_ID mi) target = Inr rs"
    and fl: "fresh_loop upsert newID now (mi_ID mi) (by_fingerprint rs (\<lambda>_. None)) fresh ?st0 = (st1, None)"
    and al: "absent_loop upsert now (ResolveAfterOrDefault mi) rs st1 = (st, None)"
    using run by (auto simp: Reconcile_def Let_def split: sum.splits prod.splits option.splits)
  note dist = list_distinct [OF wf ok(1) rs] and set = list_set [OF wf ok(1) rs]
  define listed where "listed fp = List.find (\<lambda>r. f_Fingerprint r = fp) rs" for fp
  have byFP: "by_fingerprint rs (\<lambda>_. None) = listed"
    by (rule ext) (simp add: by_fingerprint_find [OF dist] listed_def split: option.split)
  have listed: "listed fp = (case lookup s (mi_ID mi) fp of
      None \<Rightarrow> None | Some r \<Rightarrow> if f_Target r = target then Some r else None)" for fp
  proof (cases "listed fp")
    case None
    then have "r \<notin> set rs" if "f_Fingerprint r = fp" for r using that by (auto simp: listed_def find_None_iff)
    with lookup_key [OF wf ok(1)] set None show ?thesis by (auto split: option.split)
  next
    case (Some r)
    then have "r \<in> set rs" "f_Fingerprint r = fp" using find_Some_in by (fastforce simp: listed_def)+
    with set Some show ?thesis by auto
  qed
  have cur: "lookup (rc_store ?st0) (mi_ID mi) (f_Fingerprint f) = listed (f_Fingerprint f)"
    if "f \<in> set fresh" "ValidateForIngest f = None" for f
    using foreign [OF that] by (simp add: listed split: option.split)
  have byp: "\<forall>fp p. listed fp = Some p \<longrightarrow> f_Module p = mi_ID mi \<and> f_Fingerprint p = fp"
    using lookup_key [OF wf ok(1)] by (auto simp: listed split: option.splits if_splits)
  have distf: "distinct (map f_Fingerprint (filter (\<lambda>f. ValidateForIngest f = None) fresh))"
    using fresh by (simp add: fresh_ok_def)
  have wf0: "wf (rc_store ?st0)" using wf by simp
  note L = fresh_loop_lookup [OF wf0 ok(1) _ fl [unfolded byFP] distf cur byp okf]
  have wf1: "wf (rc_store st1)" using L [OF ok(1)] by blast
  have seen: "set (rc_seen st1) = f_Fingerprint ` {f \<in> set fresh. ValidateForIngest f = None}"
    using L [OF ok(1)] by simp
  have unseen: "lookup (rc_store st1) (mi_ID mi) fp = lookup s (mi_ID mi) fp" if "fp \<notin> set (rc_seen st1)" for fp
  proof -
    have "ingested fresh fp = None" using that unfolding seen ingested_def find_None_iff by blast
    then show ?thesis using L [OF ok(1), of fp] by simp
  qed
  have rs_mod: "f_Module r = mi_ID mi" if "r \<in> set rs" for r
    using that set lookup_key [OF wf ok(1)] by auto
  have rs_cur: "lookup (rc_store st1) (mi_ID mi) (f_Fingerprint r) = Some r"
    if "r \<in> set rs" "f_Fingerprint r \<notin> set (rc_seen st1)" for r
    using unseen [OF that(2)] that(1) set by auto
  have rs_ok: "\<forall>r \<in> set rs. okv (f_Severity r) (f_Evidence r)"
    using set lookup_okv [OF wf ok(1)] by auto
  note A = absent_loop_lookup [OF wf1 ok(1) _ al dist rs_mod rs_cur rs_ok]
  show "wf (rc_store st)" using A [OF ok(1)] by blast
  show "m \<noteq> mi_ID mi \<Longrightarrow> lookup (rc_store st) m fp = lookup s m fp"
    using A [OF ok(2), of fp] L [OF ok(2), of fp] by simp
  show "transition now mi target (ingested fresh fp) (lookup s (mi_ID mi) fp) (lookup (rc_store st) (mi_ID mi) fp)"
  proof (cases "ingested fresh fp")
    case None
    then have notin: "fp \<notin> set (rc_seen st1)" unfolding seen ingested_def find_None_iff by blast
    then show ?thesis
      using A [OF ok(1), of fp] None unseen [OF notin] listed [of fp]
      by (auto simp: transition_def listed_def split: option.splits if_splits)
  next
    case (Some f)
    then have f: "f \<in> set fresh" "ValidateForIngest f = None" "f_Fingerprint f = fp"
      using find_Some_in by (fastforce simp: ingested_def)+
    then have "fp \<in> set (rc_seen st1)" unfolding seen by blast
    then have "lookup (rc_store st) (mi_ID mi) fp = lookup (rc_store st1) (mi_ID mi) fp"
      using A [OF ok(1), of fp] by simp
    moreover have "stored now (mi_ID mi) f (listed fp) (lookup (rc_store st1) (mi_ID mi) fp)"
      using L [OF ok(1), of fp] Some by simp
    moreover have "listed fp = lookup s (mi_ID mi) fp" using cur [OF f(1,2)] f(3) by simp
    ultimately show ?thesis using Some by (auto simp: transition_def stored_def split: option.splits)
  qed
qed

end

section \<open>Stores that do not fail\<close>

text \<open>The identifier source of the deployment reads the system's entropy; this is that it does not fail.\<close>

definition total_ids :: "(int \<Rightarrow> 'g \<Rightarrow> (string + string) \<times> 'g) \<Rightarrow> bool" where
  "total_ids newID \<longleftrightarrow> (\<forall>now g. \<exists>fid g'. newID now g = (Inr fid, g'))"

locale total_store = finding_store +
  assumes list_total: "wf s \<Longrightarrow> okm m \<Longrightarrow> \<exists>rs. listT s m t = Inr rs"
    and upsert_total: "wf s \<Longrightarrow> okm (f_Module r) \<Longrightarrow> okv (f_Severity r) (f_Evidence r) \<Longrightarrow> \<exists>s'. upsert r s = Inr s'"
begin

lemma upsert_done:
  assumes "wf s" and "okm (f_Module r)" and "okv (f_Severity r) (f_Evidence r)"
  obtains s' where "upsert r s = Inr s'" "wf s'"
  using upsert_total [OF assms] upsert_wf [OF assms] by blast

lemma fresh_step_total:
  assumes "total_ids newID" and wf: "wf (rc_store st)" and "okm module" and "ValidateForIngest f = None \<Longrightarrow> ok_finding f"
    and "\<forall>fp p. byFP fp = Some p \<longrightarrow> f_Module p = module"
  shows "\<exists>st'. fresh_step upsert newID now module byFP f st = (st', None) \<and> wf (rc_store st')"
proof (cases "ValidateForIngest f")
  case (Some e)
  then show ?thesis using wf by (simp add: fresh_step_def)
next
  case valid: None
  note okf = assms(4) [OF valid]
  show ?thesis
  proof (cases "byFP (f_Fingerprint f)")
    case None
    obtain fid g where id: "newID now (rc_gen st) = (Inr fid, g)" using assms(1) by (metis total_ids_def)
    have "okm (f_Module (new_record fid module now (capEvidence f)))" using assms(3) by simp
    from upsert_done [OF wf this ok_new [OF okf]] obtain s where
      "upsert (new_record fid module now (capEvidence f)) (rc_store st) = Inr s" "wf s" .
    then show ?thesis using valid None id by (simp add: fresh_step_def Let_def)
  next
    case (Some p)
    then have "f_Module p = module" using assms(5) by blast
    then have "okm (f_Module (merge_record now p (capEvidence f)))" using assms(3) by simp
    from upsert_done [OF wf this ok_merge [OF okf]] obtain s where
      "upsert (merge_record now p (capEvidence f)) (rc_store st) = Inr s" "wf s" .
    then show ?thesis using valid Some by (simp add: fresh_step_def Let_def)
  qed
qed

lemma fresh_loop_total:
  assumes "total_ids newID" and "okm module" and "\<forall>fp p. byFP fp = Some p \<longrightarrow> f_Module p = module"
    and "wf (rc_store st)" and "\<forall>f \<in> set fresh. ValidateForIngest f = None \<longrightarrow> ok_finding f"
  shows "\<exists>st'. fresh_loop upsert newID now module byFP fresh st = (st', None) \<and> wf (rc_store st')"
  using assms(4,5)
proof (induction fresh arbitrary: st)
  case (Cons f fs)
  have okf: "ValidateForIngest f = None \<Longrightarrow> ok_finding f" using Cons.prems(2) by simp
  obtain st1 where "fresh_step upsert newID now module byFP f st = (st1, None)" "wf (rc_store st1)"
    using fresh_step_total [OF assms(1) Cons.prems(1) assms(2) okf assms(3)] by blast
  then show ?case using Cons.IH [of st1] Cons.prems(2) by simp
qed simp

lemma absent_loop_total:
  assumes "okm module" and "wf (rc_store st)" and "\<forall>r \<in> set rs. f_Module r = module \<and> okv (f_Severity r) (f_Evidence r)"
  shows "\<exists>st'. absent_loop upsert now k rs st = (st', None)"
  using assms(2,3)
proof (induction rs arbitrary: st)
  case (Cons r rs)
  define st0 where "st0 = (if r_AbsentStreak r + 1 \<ge> k then add_resolved (finding_of (age_record now k r)) st else st)"
  have st0: "rc_store st0 = rc_store st" by (simp add: st0_def)
  have "okm (f_Module (age_record now k r))" "okv (f_Severity (age_record now k r)) (f_Evidence (age_record now k r))"
    using Cons.prems(2) assms(1) by simp_all
  then obtain s where s: "upsert (age_record now k r) (rc_store st0) = Inr s" "wf s"
    using upsert_done [OF Cons.prems(1)] unfolding st0 by metis
  obtain st1 where "absent_loop upsert now k rs (st0\<lparr>rc_store := s\<rparr>) = (st1, None)"
    using Cons.IH [of "st0\<lparr>rc_store := s\<rparr>"] Cons.prems(2) s(2) by auto
  moreover obtain st2 where "absent_loop upsert now k rs st = (st2, None)" using Cons.IH [OF Cons.prems(1)] Cons.prems(2) by auto
  ultimately show ?case unfolding absent_loop.simps Let_def st0_def [symmetric] using s(1) by simp
qed simp

lemma reconcile_total:
  assumes "total_ids newID" and wf: "wf s" and ok: "okm (mi_ID mi)"
    and "\<forall>f \<in> set fresh. ValidateForIngest f = None \<longrightarrow> ok_finding f"
  shows "\<exists>st. Reconcile listT upsert newID now mi target fresh s g = (st, None)"
proof -
  obtain rs where rs: "listT s (mi_ID mi) target = Inr rs" using list_total [OF wf ok] by blast
  have mod: "f_Module r = mi_ID mi \<and> okv (f_Severity r) (f_Evidence r)" if "r \<in> set rs" for r
    using that list_set [OF wf ok rs] lookup_key [OF wf ok] lookup_okv [OF wf ok] by blast
  have byp: "\<forall>fp p. by_fingerprint rs (\<lambda>_. None) fp = Some p \<longrightarrow> f_Module p = mi_ID mi"
    using mod by (auto simp: by_fingerprint_find [OF list_distinct [OF wf ok rs]] dest!: find_Some_in split: option.splits)
  obtain st1 where st1: "fresh_loop upsert newID now (mi_ID mi) (by_fingerprint rs (\<lambda>_. None)) fresh
      \<lparr>rc_store = s, rc_gen = g, rc_res = empty_result, rc_seen = []\<rparr> = (st1, None)" "wf (rc_store st1)"
    using fresh_loop_total [OF assms(1) ok byp _ assms(4)] wf by force
  obtain st where "absent_loop upsert now (ResolveAfterOrDefault mi) rs st1 = (st, None)"
    using absent_loop_total [OF ok st1(2)] mod by blast
  then show ?thesis using rs st1(1) by (simp add: Reconcile_def Let_def)
qed

end

section \<open>The in-memory store meets the contract\<close>

text \<open>The key of a record is its module and its fingerprint around a NUL byte.\<close>

definition no_nul :: "string \<Rightarrow> bool" where
  "no_nul m \<longleftrightarrow> CHR 0x00 \<notin> set m"

definition mem_wf :: "MemStore \<Rightarrow> bool" where
  "mem_wf s \<longleftrightarrow> distinct (map fst (ms_recs s)) \<and>
     list_all (\<lambda>(k, r). no_nul (f_Module r) \<and> k = store_key (f_Module r) (f_Fingerprint r)) (ms_recs s)"

lemma store_key_inj:
  "no_nul m \<Longrightarrow> no_nul m' \<Longrightarrow> store_key m fp = store_key m' fp' \<longleftrightarrow> m = m' \<and> fp = fp'"
  unfolding store_key_def no_nul_def
proof (induction m arbitrary: m')
  case Nil
  then show ?case by (cases m') auto
next
  case (Cons c m)
  then show ?case by (cases m') auto
qed

lemma mem_wf_in:
  "mem_wf s \<Longrightarrow> (k, r) \<in> set (ms_recs s) \<Longrightarrow> no_nul (f_Module r) \<and> k = store_key (f_Module r) (f_Fingerprint r)"
  by (auto simp: mem_wf_def list_all_iff)

lemma mem_Get_iff:
  assumes "mem_wf s" and "no_nul m"
  shows "mem_Get s m fp = Some r \<longleftrightarrow> r \<in> snd ` set (ms_recs s) \<and> f_Module r = m \<and> f_Fingerprint r = fp"
proof
  assume "mem_Get s m fp = Some r"
  then have "(store_key m fp, r) \<in> set (ms_recs s)" by (auto simp: mem_Get_def dest: map_of_SomeD)
  with mem_wf_in [OF assms(1) this] store_key_inj assms(2)
  show "r \<in> snd ` set (ms_recs s) \<and> f_Module r = m \<and> f_Fingerprint r = fp" by force
next
  assume "r \<in> snd ` set (ms_recs s) \<and> f_Module r = m \<and> f_Fingerprint r = fp"
  then obtain k where "(k, r) \<in> set (ms_recs s)" "f_Module r = m" "f_Fingerprint r = fp" by auto
  moreover from this mem_wf_in [OF assms(1)] have "k = store_key m fp" by blast
  ultimately show "mem_Get s m fp = Some r" using assms(1) by (simp add: mem_Get_def mem_wf_def)
qed

lemma mem_wf_map:
  "mem_wf s \<longleftrightarrow> distinct (map fst (ms_recs s)) \<and>
    (\<forall>k r. map_of (ms_recs s) k = Some r \<longrightarrow> no_nul (f_Module r) \<and> k = store_key (f_Module r) (f_Fingerprint r))"
  unfolding mem_wf_def list_all_iff by (simp add: ball_Un map_of_eq_Some_iff cong: conj_cong) auto

lemma mem_Upsert_wf: "mem_wf s \<Longrightarrow> no_nul (f_Module r) \<Longrightarrow> mem_wf (mem_Upsert r s)"
  unfolding mem_wf_map by (simp add: mem_Upsert_def distinct_update update_conv')

lemma mem_Upsert_Get:
  "no_nul m \<Longrightarrow> no_nul (f_Module r) \<Longrightarrow> mem_Get (mem_Upsert r s) m fp =
    (if m = f_Module r \<and> fp = f_Fingerprint r then Some r else mem_Get s m fp)"
  by (auto simp: mem_Get_def mem_Upsert_def update_conv' store_key_inj)

lemma mem_ListByTarget_set:
  "mem_wf s \<Longrightarrow> no_nul m \<Longrightarrow>
    set (mem_ListByTarget s m t) = {r. mem_Get s m (f_Fingerprint r) = Some r \<and> f_Target r = t}"
  by (auto simp: mem_Get_iff mem_ListByTarget_def)

lemma mem_ListByTarget_distinct:
  assumes "mem_wf s" and "no_nul m"
  shows "distinct (map f_Fingerprint (mem_ListByTarget s m t))"
proof -
  let ?rs = "filter (\<lambda>kr. f_Module (snd kr) = m \<and> f_Target (snd kr) = t) (ms_recs s)"
  have list: "mem_ListByTarget s m t = map snd ?rs"
    by (simp add: mem_ListByTarget_def filter_map comp_def)
  have "map fst ?rs = map (store_key m) (map f_Fingerprint (mem_ListByTarget s m t))"
    unfolding list using mem_wf_in [OF assms(1)] by auto
  moreover have "distinct (map fst ?rs)" using assms(1) by (simp add: mem_wf_def distinct_map_filter)
  ultimately show ?thesis by (metis distinct_map)
qed

interpretation mem: total_store "\<lambda>s m t. Inr (mem_ListByTarget s m t)" "\<lambda>r s. Inr (mem_Upsert r s)" mem_Get mem_wf no_nul
  "\<lambda>_ _. True"
  by unfold_locales
    (auto simp: mem_Get_iff mem_Upsert_Get mem_Upsert_wf mem_ListByTarget_distinct mem_ListByTarget_set, force)

end
