(* ===== verification/StoreProperties.thy ===== *)
theory StoreProperties
  imports StoreSpec
begin

text \<open>
  What the reconcile engine guarantees over the in-memory store: the life cycle of a finding
  across scans, the lists it hands to the notifier, and the bound on stored evidence.
\<close>

section \<open>The result lists\<close>

definition news :: "(string \<Rightarrow> Record option) \<Rightarrow> Finding \<Rightarrow> bool" where
  "news byFP f \<longleftrightarrow> ValidateForIngest f = None \<and>
     (case byFP (f_Fingerprint f) of None \<Rightarrow> True | Some r \<Rightarrow> f_Status r = StatusResolved)"

definition resolves :: "int \<Rightarrow> Record \<Rightarrow> bool" where
  "resolves k r \<longleftrightarrow> f_Status r \<noteq> StatusResolved \<and> f_Status r \<noteq> StatusSuppressed \<and> r_AbsentStreak r + 1 \<ge> k"

lemma add_results [simp]:
  "rr_NewlyOpen (rc_res (add_opened f st)) = rr_NewlyOpen (rc_res st) @ [f]"
  "rr_Resolved (rc_res (add_opened f st)) = rr_Resolved (rc_res st)"
  "rr_Rejected (rc_res (add_opened f st)) = rr_Rejected (rc_res st)"
  "rr_NewlyOpen (rc_res (add_resolved f st)) = rr_NewlyOpen (rc_res st)"
  "rr_Resolved (rc_res (add_resolved f st)) = rr_Resolved (rc_res st) @ [f]"
  "rr_Rejected (rc_res (add_resolved f st)) = rr_Rejected (rc_res st)"
  "rr_NewlyOpen (rc_res (add_rejected f e st)) = rr_NewlyOpen (rc_res st)"
  "rr_Resolved (rc_res (add_rejected f e st)) = rr_Resolved (rc_res st)"
  "rr_Rejected (rc_res (add_rejected f e st)) = rr_Rejected (rc_res st) @ [(f, e)]"
  by (simp_all add: add_opened_def add_resolved_def add_rejected_def)

lemma finding_of_Fingerprint [simp]: "f_Fingerprint (finding_of r) = f_Fingerprint r"
  by (simp add: Finding.defs)

lemma fresh_step_results:
  assumes "total_ids newID" and "\<forall>fp p. byFP fp = Some p \<longrightarrow> f_Fingerprint p = fp"
  obtains st' where "fresh_step (\<lambda>r s. Inr (u r s)) newID now module byFP f st = (st', None)"
    and "map f_Fingerprint (rr_NewlyOpen (rc_res st')) =
      map f_Fingerprint (rr_NewlyOpen (rc_res st)) @ (if news byFP f then [f_Fingerprint f] else [])"
    and "rr_Resolved (rc_res st') = rr_Resolved (rc_res st)"
    and "rr_Rejected (rc_res st') = rr_Rejected (rc_res st) @ (case ValidateForIngest f of None \<Rightarrow> [] | Some e \<Rightarrow> [(f, e)])"
    and "set (rc_seen st') = set (rc_seen st) \<union> (if ValidateForIngest f = None then {f_Fingerprint f} else {})"
proof (cases "ValidateForIngest f")
  case (Some e)
  then show thesis by (intro that [of "add_rejected f e st"]) (simp_all add: fresh_step_def news_def)
next
  case valid: None
  obtain fid g where new_id: "newID now (rc_gen st) = (Inr fid, g)" using assms(1) by (auto simp: total_ids_def) metis
  show thesis
  proof (cases "byFP (f_Fingerprint f)")
    case None
    show thesis
      by (rule that [of "fst (fresh_step (\<lambda>r s. Inr (u r s)) newID now module byFP f st)"]) (use valid None new_id in \<open>auto simp: fresh_step_def Let_def news_def\<close>)
  next
    case (Some p)
    with assms(2) have "f_Fingerprint p = f_Fingerprint f" by blast
    then show thesis
      by (cases "f_Status p = StatusResolved"; intro that [of "fst (fresh_step (\<lambda>r s. Inr (u r s)) newID now module byFP f st)"])
        (use valid Some in \<open>auto simp: fresh_step_def Let_def news_def\<close>)
  qed
qed

lemma fresh_loop_results:
  assumes "total_ids newID" and "\<forall>fp p. byFP fp = Some p \<longrightarrow> f_Fingerprint p = fp"
  shows "\<exists>st'. fresh_loop (\<lambda>r s. Inr (u r s)) newID now module byFP fresh st = (st', None) \<and>
    map f_Fingerprint (rr_NewlyOpen (rc_res st')) =
      map f_Fingerprint (rr_NewlyOpen (rc_res st)) @ map f_Fingerprint (filter (news byFP) fresh) \<and>
    rr_Resolved (rc_res st') = rr_Resolved (rc_res st) \<and>
    rr_Rejected (rc_res st') = rr_Rejected (rc_res st) @
      map (\<lambda>f. (f, the (ValidateForIngest f))) (filter (\<lambda>f. ValidateForIngest f \<noteq> None) fresh) \<and>
    set (rc_seen st') = set (rc_seen st) \<union> f_Fingerprint ` {f \<in> set fresh. ValidateForIngest f = None}"
proof (induction fresh arbitrary: st)
  case (Cons f fs)
  obtain st1 where st1: "fresh_step (\<lambda>r s. Inr (u r s)) newID now module byFP f st = (st1, None)"
    and "map f_Fingerprint (rr_NewlyOpen (rc_res st1)) =
      map f_Fingerprint (rr_NewlyOpen (rc_res st)) @ (if news byFP f then [f_Fingerprint f] else [])"
    and "rr_Resolved (rc_res st1) = rr_Resolved (rc_res st)"
    and "rr_Rejected (rc_res st1) = rr_Rejected (rc_res st) @ (case ValidateForIngest f of None \<Rightarrow> [] | Some e \<Rightarrow> [(f, e)])"
    and "set (rc_seen st1) = set (rc_seen st) \<union> (if ValidateForIngest f = None then {f_Fingerprint f} else {})"
    using fresh_step_results [OF assms] .
  with Cons.IH [of st1] show ?case by (auto split: option.splits)
qed simp

lemma absent_loop_results:
  "\<exists>st'. absent_loop (\<lambda>r s. Inr (u r s)) now k rs st = (st', None) \<and>
    rr_NewlyOpen (rc_res st') = rr_NewlyOpen (rc_res st) \<and> rr_Rejected (rc_res st') = rr_Rejected (rc_res st) \<and>
    rr_Resolved (rc_res st') = rr_Resolved (rc_res st) @
      map (\<lambda>r. finding_of (age_record now k r)) (filter (\<lambda>r. f_Fingerprint r \<notin> set (rc_seen st) \<and> resolves k r) rs)"
proof (induction rs arbitrary: st)
  case (Cons r rs)
  define st1 where "st1 = (if f_Fingerprint r \<in> set (rc_seen st) \<or> f_Status r = StatusResolved \<or> f_Status r = StatusSuppressed
    then st else
      (let st0 = (if r_AbsentStreak r + 1 \<ge> k then add_resolved (finding_of (age_record now k r)) st else st)
       in st0\<lparr>rc_store := u (age_record now k r) (rc_store st0)\<rparr>))"
  have "absent_loop (\<lambda>r s. Inr (u r s)) now k (r # rs) st = absent_loop (\<lambda>r s. Inr (u r s)) now k rs st1"
    by (simp add: st1_def Let_def)
  moreover have "rr_NewlyOpen (rc_res st1) = rr_NewlyOpen (rc_res st) \<and> rr_Rejected (rc_res st1) = rr_Rejected (rc_res st) \<and>
    rc_seen st1 = rc_seen st \<and>
    rr_Resolved (rc_res st1) = rr_Resolved (rc_res st) @
      (if f_Fingerprint r \<notin> set (rc_seen st) \<and> resolves k r then [finding_of (age_record now k r)] else [])"
    by (simp add: st1_def Let_def resolves_def)
  ultimately show ?case using Cons.IH [of st1] by auto
qed simp

section \<open>One run over the in-memory store\<close>

definition target_record :: "MemStore \<Rightarrow> ModuleInfo \<Rightarrow> string \<Rightarrow> string \<Rightarrow> Record option" where
  "target_record s mi target fp =
     (case mem_Get s (mi_ID mi) fp of None \<Rightarrow> None | Some r \<Rightarrow> if f_Target r = target then Some r else None)"

lemma by_fingerprint_target:
  assumes "mem_wf s" and "no_nul (mi_ID mi)"
  shows "by_fingerprint (mem_ListByTarget s (mi_ID mi) target) (\<lambda>_. None) = target_record s mi target"
proof
  fix fp
  let ?rs = "mem_ListByTarget s (mi_ID mi) target"
  note rs = mem_ListByTarget_set [OF assms, of target]
  show "by_fingerprint ?rs (\<lambda>_. None) fp = target_record s mi target fp"
  proof (cases "List.find (\<lambda>r. f_Fingerprint r = fp) ?rs")
    case None
    then have "r \<notin> set ?rs" if "f_Fingerprint r = fp" for r using that by (auto simp: find_None_iff)
    moreover have "f_Fingerprint r = fp" if "mem_Get s (mi_ID mi) fp = Some r" for r
      using that mem_Get_iff [OF assms] by simp
    ultimately show ?thesis
      using None rs
      by (auto simp: mem.by_fingerprint_find [OF mem_ListByTarget_distinct [OF assms]] target_record_def split: option.split)
  next
    case (Some r)
    then have "r \<in> set ?rs" "f_Fingerprint r = fp" using find_Some_in by fastforce+
    with rs Some show ?thesis
      by (auto simp: mem.by_fingerprint_find [OF mem_ListByTarget_distinct [OF assms]] target_record_def)
  qed
qed

definition reported :: "Finding list \<Rightarrow> string set" where
  "reported fresh = f_Fingerprint ` {f \<in> set fresh. ValidateForIngest f = None}"

lemma mem_Reconcile_results:
  assumes "total_ids newID" and "mem_wf s" and "no_nul (mi_ID mi)"
  shows "\<exists>st. mem_Reconcile newID now mi target fresh s g = (st, None) \<and>
    map f_Fingerprint (rr_NewlyOpen (rc_res st)) = map f_Fingerprint (filter (news (target_record s mi target)) fresh) \<and>
    rr_Rejected (rc_res st) =
      map (\<lambda>f. (f, the (ValidateForIngest f))) (filter (\<lambda>f. ValidateForIngest f \<noteq> None) fresh) \<and>
    rr_Resolved (rc_res st) = map (\<lambda>r. finding_of (age_record now (ResolveAfterOrDefault mi) r))
      (filter (\<lambda>r. f_Fingerprint r \<notin> reported fresh \<and> resolves (ResolveAfterOrDefault mi) r)
        (mem_ListByTarget s (mi_ID mi) target))"
proof -
  let ?st = "\<lparr>rc_store = s, rc_gen = g, rc_res = empty_result, rc_seen = []\<rparr>"
  have ident: "\<forall>fp p. target_record s mi target fp = Some p \<longrightarrow> f_Fingerprint p = fp"
    using mem_Get_iff [OF assms(2,3)] by (auto simp: target_record_def split: option.splits if_splits)
  obtain st1 where st1: "fresh_loop (\<lambda>r s. Inr (mem_Upsert r s)) newID now (mi_ID mi) (target_record s mi target) fresh ?st
      = (st1, None)"
    and res: "map f_Fingerprint (rr_NewlyOpen (rc_res st1)) = map f_Fingerprint (filter (news (target_record s mi target)) fresh)"
      "rr_Resolved (rc_res st1) = []"
      "rr_Rejected (rc_res st1) =
        map (\<lambda>f. (f, the (ValidateForIngest f))) (filter (\<lambda>f. ValidateForIngest f \<noteq> None) fresh)"
      "set (rc_seen st1) = reported fresh"
    using fresh_loop_results [OF assms(1) ident, where u = mem_Upsert and now = now and module = "mi_ID mi" and fresh = fresh and st = ?st]
    by (auto simp: empty_result_def reported_def)
  then show ?thesis
    using absent_loop_results [of mem_Upsert now "ResolveAfterOrDefault mi" "mem_ListByTarget s (mi_ID mi) target" st1]
    by (fastforce simp: mem_Reconcile_def Reconcile_def by_fingerprint_target [OF assms(2,3)])
qed

text \<open>A record stored under the fingerprint of a fresh finding is one of the same target.\<close>

definition no_foreign :: "MemStore \<Rightarrow> ModuleInfo \<Rightarrow> string \<Rightarrow> Finding list \<Rightarrow> bool" where
  "no_foreign s mi target fresh \<longleftrightarrow>
     list_all (\<lambda>f. ValidateForIngest f = None \<longrightarrow>
       (case mem_Get s (mi_ID mi) (f_Fingerprint f) of None \<Rightarrow> True | Some r \<Rightarrow> f_Target r = target)) fresh"

definition run_ok :: "MemStore \<Rightarrow> ModuleInfo \<Rightarrow> string \<Rightarrow> Finding list \<Rightarrow> bool" where
  "run_ok s mi target fresh \<longleftrightarrow> mem_wf s \<and> no_nul (mi_ID mi) \<and> fresh_ok target fresh \<and> no_foreign s mi target fresh"

lemma mem_run:
  assumes "total_ids newID" and "run_ok s mi target fresh"
  obtains st where "mem_Reconcile newID now mi target fresh s g = (st, None)" and "mem_wf (rc_store st)"
    and "\<forall>fp. transition now mi target (ingested fresh fp) (mem_Get s (mi_ID mi) fp) (mem_Get (rc_store st) (mi_ID mi) fp)"
    and "\<forall>m fp. no_nul m \<longrightarrow> m \<noteq> mi_ID mi \<longrightarrow> mem_Get (rc_store st) m fp = mem_Get s m fp"
proof -
  have wf: "mem_wf s" and ok: "no_nul (mi_ID mi)" and fr: "fresh_ok target fresh"
    and foreign: "\<And>f r. f \<in> set fresh \<Longrightarrow> ValidateForIngest f = None \<Longrightarrow>
      mem_Get s (mi_ID mi) (f_Fingerprint f) = Some r \<Longrightarrow> f_Target r = target"
    using assms(2) by (auto simp: run_ok_def no_foreign_def list_all_iff split: option.splits)
  obtain st where run: "mem_Reconcile newID now mi target fresh s g = (st, None)"
    using mem_Reconcile_results [OF assms(1) wf ok] by blast
  have okf: "\<forall>f \<in> set fresh. ValidateForIngest f = None \<longrightarrow> mem.ok_finding f" by (simp add: mem.ok_finding_def)
  note T = mem.reconcile_transitions [OF wf ok _ fr foreign okf run [unfolded mem_Reconcile_def]]
  show thesis by (rule that [OF run]) (use T ok in auto)
qed

text \<open>The whole content of the store after a run is given: every finding moves by one transition.\<close>

text \<open>C3: A reconcile run over the in-memory store never fails when the identifier source does not, and
  moves every finding of the module by exactly one transition of its life cycle: a reported finding
  without a record becomes an open record; a reported one with a record keeps its identity and status
  (a resolved one reopens); an unreported one of this target ages towards resolution unless it is
  resolved or suppressed; every record of another target or module is untouched.\<close>

theorem reconcile_life_cycle:
  assumes "total_ids newID" and "run_ok s mi target fresh"
  shows "snd (mem_Reconcile newID now mi target fresh s g) = None \<and>
    (\<forall>fp. transition now mi target (ingested fresh fp) (mem_Get s (mi_ID mi) fp)
      (mem_Get (rc_store (fst (mem_Reconcile newID now mi target fresh s g))) (mi_ID mi) fp)) \<and>
    (\<forall>m fp. no_nul m \<longrightarrow> m \<noteq> mi_ID mi \<longrightarrow>
      mem_Get (rc_store (fst (mem_Reconcile newID now mi target fresh s g))) m fp = mem_Get s m fp)"
  by (rule mem_run [OF assms, where now = now and g = g]) simp

text \<open>C21: What a run hands to the notifier is exact: newly open are the valid findings that had no record
  of this target or a resolved one, in order; resolved are exactly the unreported, still open records
  whose absence reaches the threshold in this run; rejected are exactly the malformed findings, each
  with its reason.\<close>

theorem reconcile_announces:
  assumes "total_ids newID" and "mem_wf s" and "no_nul (mi_ID mi)"
  shows "case mem_Reconcile newID now mi target fresh s g of (st, err) \<Rightarrow>
    err = None \<and>
    map f_Fingerprint (rr_NewlyOpen (rc_res st)) = map f_Fingerprint (filter (news (target_record s mi target)) fresh) \<and>
    rr_Rejected (rc_res st) =
      map (\<lambda>f. (f, the (ValidateForIngest f))) (filter (\<lambda>f. ValidateForIngest f \<noteq> None) fresh) \<and>
    rr_Resolved (rc_res st) = map (\<lambda>r. finding_of (age_record now (ResolveAfterOrDefault mi) r))
      (filter (\<lambda>r. f_Fingerprint r \<notin> reported fresh \<and> resolves (ResolveAfterOrDefault mi) r)
        (mem_ListByTarget s (mi_ID mi) target))"
  using mem_Reconcile_results [OF assms, of now target fresh g] by auto

text \<open>The engine reads the existing records once, before its loop, so a batch that holds the same new
  finding twice announces it twice.\<close>

theorem duplicate_announced_twice:
  assumes "total_ids newID" and "mem_wf s" and "no_nul (mi_ID mi)" and "ValidateForIngest f = None"
    and "mem_Get s (mi_ID mi) (f_Fingerprint f) = None"
  shows "map f_Fingerprint (rr_NewlyOpen (rc_res (fst (mem_Reconcile newID now mi target [f, f] s g)))) =
    [f_Fingerprint f, f_Fingerprint f]"
proof -
  have "news (target_record s mi target) f" using assms(4,5) by (simp add: news_def target_record_def)
  then show ?thesis using mem_Reconcile_results [OF assms(1-3), of now target "[f, f]" g] by auto
qed

section \<open>Runs in sequence\<close>

lemma merge_status: "f_Status (merge_record now p f) = (if f_Status p = StatusResolved then StatusOpen else f_Status p)"
  by (simp add: merge_record_def Let_def)

lemma status_ne [simp]: "StatusOpen \<noteq> StatusResolved" "StatusOpen \<noteq> StatusSuppressed" "StatusAcknowledged \<noteq> StatusResolved"
  "StatusSuppressed \<noteq> StatusResolved" "StatusAcknowledged \<noteq> StatusSuppressed"
  by (simp_all add: status_defs)

lemma ingested_Some:
  "ingested fresh fp = Some f \<Longrightarrow> f \<in> set fresh \<and> ValidateForIngest f = None \<and> f_Fingerprint f = fp"
  unfolding ingested_def by (drule find_Some_in) auto

lemma ingested_reported: "fp \<in> reported fresh \<longleftrightarrow> (\<exists>f. ingested fresh fp = Some f)"
  unfolding reported_def using find_None_iff [of "\<lambda>f. ValidateForIngest f = None \<and> f_Fingerprint f = fp" fresh]
  by (auto simp: ingested_def)

text \<open>After a run, a reported finding has a record of the target that is not resolved.\<close>

lemma run_reported:
  assumes "run_ok s mi target fresh" and "fp \<in> reported fresh"
    and "transition now mi target (ingested fresh fp) (mem_Get s (mi_ID mi) fp) res"
  shows "\<exists>r. res = Some r \<and> f_Target r = target \<and> f_Status r \<noteq> StatusResolved"
proof -
  obtain f where f: "ingested fresh fp = Some f" using assms(2) ingested_reported by blast
  with ingested_Some have fin: "f \<in> set fresh" "ValidateForIngest f = None" "f_Fingerprint f = fp" by blast+
  then have "f_Target f = target" using assms(1) by (auto simp: run_ok_def fresh_ok_def list_all_iff)
  moreover have "f_Target p = target" if "mem_Get s (mi_ID mi) fp = Some p" for p
    using assms(1) fin that by (auto simp: run_ok_def no_foreign_def list_all_iff)
  ultimately show ?thesis using assms(3) f
    by (auto simp: transition_def merge_status split: option.splits)
qed

text \<open>With a threshold of one, a record of the target that a run leaves neither reported nor suppressed is resolved.\<close>

lemma run_unreported:
  assumes "ResolveAfterOrDefault mi = 1" and "fp \<notin> reported fresh" and "f_Target r = target"
    and "transition now mi target (ingested fresh fp) prev (Some r)"
    and "\<And>p. prev = Some p \<Longrightarrow> 0 \<le> r_AbsentStreak p"
  shows "\<not> resolves 1 r"
proof -
  have none: "ingested fresh fp = None" using assms(2) by (simp add: ingested_reported)
  obtain p where p: "prev = Some p" "r = (if f_Target p = target then age_step now 1 p else p)"
    using assms(1,4) none by (auto simp: transition_def split: option.splits)
  then have "r = age_step now 1 p" using assms(3) by (simp split: if_splits)
  then show ?thesis using assms(5) [OF p(1)] by (auto simp: age_step_def age_record_def resolves_def Let_def)
qed

text \<open>C22: A scan that reports the same findings as the scan before it announces no finding as new, and, with the threshold of
  RuleHawk's module, none as resolved: nothing is notified twice while it stays. The records' counts of absences are not
  negative.\<close>

theorem rescan_is_silent:
  assumes "total_ids newID" and "run_ok s mi target fresh" and "\<forall>r \<in> snd ` set (ms_recs s). 0 \<le> r_AbsentStreak r"
  shows "case mem_Reconcile newID now mi target fresh s g of (st, _) \<Rightarrow>
    (case mem_Reconcile newID later mi target fresh (rc_store st) (rc_gen st) of (st', _) \<Rightarrow>
      rr_NewlyOpen (rc_res st') = [] \<and> (mi_ResolveAfter mi \<le> 1 \<longrightarrow> rr_Resolved (rc_res st') = []))"
proof -
  obtain st where st: "mem_Reconcile newID now mi target fresh s g = (st, None)" and wf: "mem_wf (rc_store st)"
    and T: "\<forall>fp. transition now mi target (ingested fresh fp) (mem_Get s (mi_ID mi) fp) (mem_Get (rc_store st) (mi_ID mi) fp)"
    using mem_run [OF assms(1,2), where now = now and g = g] by metis
  have "\<not> news (target_record (rc_store st) mi target) f" if "f \<in> set fresh" for f
  proof (cases "ValidateForIngest f = None")
    case True
    with that have "f_Fingerprint f \<in> reported fresh" by (auto simp: reported_def)
    from run_reported [OF assms(2) this T [rule_format]] show ?thesis
      by (auto simp: news_def target_record_def)
  qed (simp add: news_def)
  then have none: "filter (news (target_record (rc_store st) mi target)) fresh = []" by (simp add: filter_empty_conv)
  have nn: "no_nul (mi_ID mi)" and wf0: "mem_wf s" using assms(2) by (simp_all add: run_ok_def)
  have quiet: "filter (\<lambda>r. f_Fingerprint r \<notin> reported fresh \<and> resolves (ResolveAfterOrDefault mi) r)
      (mem_ListByTarget (rc_store st) (mi_ID mi) target) = []" if "mi_ResolveAfter mi \<le> 1"
  proof -
    have k: "ResolveAfterOrDefault mi = 1" using that by (auto simp: ResolveAfterOrDefault_def)
    have "\<not> resolves 1 r" if "r \<in> set (mem_ListByTarget (rc_store st) (mi_ID mi) target)" "f_Fingerprint r \<notin> reported fresh" for r
    proof (rule run_unreported [OF k that(2)])
      have r: "mem_Get (rc_store st) (mi_ID mi) (f_Fingerprint r) = Some r" "f_Target r = target"
        using that(1) mem_ListByTarget_set [OF wf nn] by auto
      show "f_Target r = target" by (rule r(2))
      show "transition now mi target (ingested fresh (f_Fingerprint r)) (mem_Get s (mi_ID mi) (f_Fingerprint r)) (Some r)"
        using T [rule_format, of "f_Fingerprint r"] r(1) by simp
      show "0 \<le> r_AbsentStreak p" if "mem_Get s (mi_ID mi) (f_Fingerprint r) = Some p" for p
        using that mem_Get_iff [OF wf0 nn] assms(3) by blast
    qed
    then show ?thesis by (auto simp: k filter_empty_conv)
  qed
  obtain st' where st': "mem_Reconcile newID later mi target fresh (rc_store st) (rc_gen st) = (st', None)"
    "map f_Fingerprint (rr_NewlyOpen (rc_res st')) = map f_Fingerprint (filter (news (target_record (rc_store st) mi target)) fresh)"
    "rr_Resolved (rc_res st') = map (\<lambda>r. finding_of (age_record later (ResolveAfterOrDefault mi) r))
      (filter (\<lambda>r. f_Fingerprint r \<notin> reported fresh \<and> resolves (ResolveAfterOrDefault mi) r)
        (mem_ListByTarget (rc_store st) (mi_ID mi) target))"
    using mem_Reconcile_results [OF assms(1) wf nn, of later target fresh "rc_gen st"] by blast
  then show ?thesis using none quiet by (simp add: st)
qed

lemma run_decisions:
  assumes "total_ids newID" and "run_ok s mi target fresh" and "mem_Get s (mi_ID mi) fp = Some p"
  shows "\<exists>r. mem_Get (rc_store (fst (mem_Reconcile newID now mi target fresh s g))) (mi_ID mi) fp = Some r \<and>
    same_identity r p \<and> (f_Status p = StatusSuppressed \<longrightarrow> f_Status r = StatusSuppressed) \<and>
    (f_Status p = StatusAcknowledged \<longrightarrow> fp \<in> reported fresh \<longrightarrow> f_Status r = StatusAcknowledged)"
proof -
  obtain st where st: "mem_Reconcile newID now mi target fresh s g = (st, None)"
    and T: "transition now mi target (ingested fresh fp) (Some p) (mem_Get (rc_store st) (mi_ID mi) fp)"
    using mem_run [OF assms(1,2), where now = now and g = g] assms(3) by metis
  have self: "same_identity p p" by (simp add: same_identity_def)
  show ?thesis
  proof (cases "ingested fresh fp")
    case None
    then show ?thesis using T st self
      by (auto simp: transition_def age_step_def ingested_reported split: if_splits)
  next
    case (Some f)
    then show ?thesis using T st by (auto simp: transition_def merge_status)
  qed
qed

text \<open>C23: The user's decisions and the identity of a finding survive every scan: a suppressed finding stays
  suppressed whether it is reported or not, an acknowledged one stays acknowledged while it is
  reported, and the identifier, the check and the first-seen time of a record never change.\<close>

theorem decisions_survive:
  assumes "total_ids newID" and "run_ok s mi target fresh" and "mem_Get s (mi_ID mi) fp = Some p"
  shows "\<exists>r. mem_Get (rc_store (fst (mem_Reconcile newID now mi target fresh s g))) (mi_ID mi) fp = Some r \<and>
    same_identity r p \<and> (f_Status p = StatusSuppressed \<longrightarrow> f_Status r = StatusSuppressed) \<and>
    (f_Status p = StatusAcknowledged \<longrightarrow> fp \<in> reported fresh \<longrightarrow> f_Status r = StatusAcknowledged)"
  using assms by (rule run_decisions)

section \<open>Resolution\<close>

text \<open>The runs of one target one after the other, each at its time with its findings.\<close>

fun scan_runs ::
  "(int \<Rightarrow> 'g \<Rightarrow> (string + string) \<times> 'g) \<Rightarrow> ModuleInfo \<Rightarrow> string \<Rightarrow> (int \<times> Finding list) list \<Rightarrow> MemStore \<Rightarrow> 'g \<Rightarrow>
    MemStore" where
  "scan_runs newID mi target [] s g = s"
| "scan_runs newID mi target ((now, fresh) # runs) s g =
     (case mem_Reconcile newID now mi target fresh s g of
        (st, _) \<Rightarrow> scan_runs newID mi target runs (rc_store st) (rc_gen st))"

lemma run_keeps_no_foreign:
  assumes "run_ok s mi target fresh" and "no_foreign s mi target fresh'" and "fresh_ok target fresh'"
    and "\<forall>fp. transition now mi target (ingested fresh fp) (mem_Get s (mi_ID mi) fp) (mem_Get s' (mi_ID mi) fp)"
  shows "no_foreign s' mi target fresh'"
  unfolding no_foreign_def list_all_iff
proof (intro ballI impI)
  fix f assume f: "f \<in> set fresh'" "ValidateForIngest f = None"
  note T = assms(4) [rule_format, of "f_Fingerprint f"]
  show "case mem_Get s' (mi_ID mi) (f_Fingerprint f) of None \<Rightarrow> True | Some r \<Rightarrow> f_Target r = target"
  proof (cases "f_Fingerprint f \<in> reported fresh")
    case True
    from run_reported [OF assms(1) this T] show ?thesis by auto
  next
    case False
    then have "ingested fresh (f_Fingerprint f) = None" using ingested_reported by (cases "ingested fresh (f_Fingerprint f)") auto
    with T assms(2) f show ?thesis
      by (auto simp: transition_def no_foreign_def list_all_iff age_step_def split: option.splits if_splits)
  qed
qed

lemma age_times:
  assumes "f_Status r \<noteq> StatusResolved" and "f_Status r \<noteq> StatusSuppressed" and "k \<ge> 1" and "r_AbsentStreak r = int n"
    and "int n < k"
  shows "fold (\<lambda>t. age_step t k) ts r =
    (if int n + int (length ts) < k then r\<lparr>r_AbsentStreak := int n + int (length ts)\<rparr>
     else r\<lparr>r_AbsentStreak := k, f_Status := StatusResolved, f_ResolvedAt := Some (ts ! (nat k - 1 - n))\<rparr>)"
  using assms(1,2,4,5)
proof (induction ts arbitrary: r n)
  case (Cons t ts)
  show ?case
  proof (cases "int n + 1 < k")
    case True
    then have step: "age_step t k r = r\<lparr>r_AbsentStreak := int (Suc n)\<rparr>"
      using Cons.prems by (simp add: age_step_def age_record_def)
    have "nat k - 1 - n = Suc (nat k - 1 - Suc n)" using True by linarith
    then show ?thesis
      using Cons.IH [of "r\<lparr>r_AbsentStreak := int (Suc n)\<rparr>" "Suc n"] Cons.prems True
      by (simp add: step algebra_simps)
  next
    case False
    then have k: "k = int n + 1" using Cons.prems by simp
    then have step: "age_step t k r = r\<lparr>r_AbsentStreak := k, f_Status := StatusResolved, f_ResolvedAt := Some t\<rparr>"
      using Cons.prems by (simp add: age_step_def age_record_def)
    have "fold (\<lambda>t. age_step t k) ts q = q" if "f_Status q = StatusResolved" for q
      using that by (induction ts) (simp_all add: age_step_def)
    then show ?thesis using k step by simp
  qed
qed simp

lemma scan_runs_absent:
  assumes "total_ids newID" and "mem_wf s" and "no_nul (mi_ID mi)"
    and "list_all (\<lambda>(now, fresh). fresh_ok target fresh \<and> no_foreign s mi target fresh \<and> fp \<notin> reported fresh) runs"
    and "mem_Get s (mi_ID mi) fp = Some r" and "f_Target r = target"
  shows "mem_Get (scan_runs newID mi target runs s g) (mi_ID mi) fp =
    Some (fold (\<lambda>t. age_step t (ResolveAfterOrDefault mi)) (map fst runs) r)"
  using assms(2,4,5,6)
proof (induction runs arbitrary: s g r)
  case (Cons run runs)
  obtain now fresh where run: "run = (now, fresh)" by (cases run)
  have ok: "run_ok s mi target fresh" and absent: "fp \<notin> reported fresh"
    using Cons.prems assms(3) by (simp_all add: run run_ok_def)
  obtain st where st: "mem_Reconcile newID now mi target fresh s g = (st, None)" and wf: "mem_wf (rc_store st)"
    and T: "\<forall>fp. transition now mi target (ingested fresh fp) (mem_Get s (mi_ID mi) fp) (mem_Get (rc_store st) (mi_ID mi) fp)"
    using mem_run [OF assms(1) ok, where now = now and g = g] by metis
  have none: "ingested fresh fp = None" using absent ingested_reported by (cases "ingested fresh fp") auto
  have r': "mem_Get (rc_store st) (mi_ID mi) fp = Some (age_step now (ResolveAfterOrDefault mi) r)"
    using T [rule_format, of fp] none Cons.prems(3,4) by (simp add: transition_def)
  have target: "f_Target (age_step now (ResolveAfterOrDefault mi) r) = target"
    using Cons.prems(4) by (simp add: age_step_def)
  have rest: "list_all (\<lambda>(now, fresh). fresh_ok target fresh \<and> no_foreign (rc_store st) mi target fresh \<and>
      fp \<notin> reported fresh) runs"
    using Cons.prems(2) run_keeps_no_foreign [OF ok _ _ T] by (auto simp: list_all_iff)
  show ?case using Cons.IH [OF wf rest r' target, of "rc_gen st"] by (simp add: run st)
qed simp

text \<open>C5: A finding that stops being reported is resolved by exactly the scan that completes the module's
  threshold of absences, at that scan's time, and by no earlier one; until then only its streak counts.
  The other findings of the scans may be anything.\<close>

theorem absent_finding_resolves:
  assumes "total_ids newID" and "mem_wf s" and "no_nul (mi_ID mi)"
    and "list_all (\<lambda>(now, fresh). fresh_ok target fresh \<and> no_foreign s mi target fresh \<and> fp \<notin> reported fresh) runs"
    and "mem_Get s (mi_ID mi) fp = Some r" and "f_Target r = target"
    and "f_Status r = StatusOpen \<or> f_Status r = StatusAcknowledged" and "r_AbsentStreak r = 0"
  shows "mem_Get (scan_runs newID mi target runs s g) (mi_ID mi) fp =
    Some (if int (length runs) < ResolveAfterOrDefault mi then r\<lparr>r_AbsentStreak := int (length runs)\<rparr>
      else r\<lparr>r_AbsentStreak := ResolveAfterOrDefault mi, f_Status := StatusResolved,
             f_ResolvedAt := Some (fst (runs ! (nat (ResolveAfterOrDefault mi) - 1)))\<rparr>)"
proof -
  have k: "1 \<le> ResolveAfterOrDefault mi" by (simp add: ResolveAfterOrDefault_def)
  have st: "f_Status r \<noteq> StatusResolved" "f_Status r \<noteq> StatusSuppressed" using assms(7) by auto
  have nth: "map fst runs ! (nat (ResolveAfterOrDefault mi) - 1) = fst (runs ! (nat (ResolveAfterOrDefault mi) - 1))"
    if "\<not> int (length runs) < ResolveAfterOrDefault mi" using that k by (intro nth_map) linarith
  show ?thesis
    using scan_runs_absent [OF assms(1-6)] age_times [OF st k, of 0 "map fst runs"] assms(8) k nth by auto
qed

section \<open>Evidence\<close>

lemma length_nat_str: "n < 10 ^ k \<Longrightarrow> 0 < k \<Longrightarrow> length (nat_str n) \<le> k"
proof (induction k arbitrary: n)
  case (Suc k)
  show ?case
  proof (cases "n < 10")
    case False
    then have "0 < k" using Suc.prems(1) by (cases k) auto
    moreover have "n div 10 < 10 ^ k" using Suc.prems(1) by (simp add: div_less_iff_less_mult mult.commute)
    ultimately show ?thesis using Suc.IH [of "n div 10"] False by (simp add: nat_str.simps [of n])
  qed (simp add: nat_str.simps [of n])
qed simp

lemma length_json_string: "length (json_string s) \<le> 6 * length s + 2"
proof -
  have "length (json_escape c) \<le> 6" for c by (simp add: json_escape_def json_u00_def)
  then have "length (concat (map json_escape s)) \<le> 6 * length s"
    by (induction s) (auto intro: order_trans [OF add_mono])
  then show ?thesis by (simp add: json_string_def)
qed

text \<open>The length of a serialised object of three fields, in any order.\<close>

lemma length_object3:
  "marshal_evidence [(a, x), (b, y), (c, z)] = Some w \<Longrightarrow>
    \<exists>x' y' z'. Marshal x = Some x' \<and> Marshal y = Some y' \<and> Marshal z = Some z' \<and>
      length w \<le> 6 * (length a + length b + length c) + length x' + length y' + length z' + 13"
  using length_json_string [of a] length_json_string [of b] length_json_string [of c]
  by (auto simp: marshal_evidence_def split: option.splits)

text \<open>The evidence of a finding that reaches the store serialises to at most \<open>MaxEvidenceBytes\<close>,
  whatever the collector put into it: what does not serialise or is larger is replaced by a marker. The
  bound on the original is the range of a Go length.\<close>

theorem capEvidence_bound:
  assumes "\<forall>ev b. f_Evidence f = Some ev \<longrightarrow> marshal_evidence ev = Some b \<longrightarrow> length b < 2 ^ 63"
  shows "(f_Evidence (capEvidence f) = None \<longleftrightarrow> f_Evidence f = None) \<and>
    (case f_Evidence (capEvidence f) of None \<Rightarrow> True
     | Some ev \<Rightarrow> (case marshal_evidence ev of None \<Rightarrow> False | Some b \<Rightarrow> length b \<le> MaxEvidenceBytes))"
proof (cases "f_Evidence f")
  case (Some ev)
  show ?thesis
  proof (cases "marshal_evidence ev")
    case None
    then show ?thesis
      using Some length_json_string [of "''_error''"] length_json_string [of "''evidence not serialisable; dropped''"]
      by (simp add: capEvidence_def marshal_evidence_def MaxEvidenceBytes_def)
  next
    case b: (Some b)
    have "length b < 10 ^ 19" using assms Some b by (auto intro: less_trans [of _ "2 ^ 63"])
    then have "length (Itoa (int (length b))) \<le> 19" using length_nat_str [of "length b" 19] by (simp add: Itoa_def)
    let ?mark = "[(''_truncated'', JBool True), (''_original_bytes'', JInt (int (length b))),
      (''_note'', JString ''evidence exceeded MaxEvidenceBytes and was dropped'')]"
    obtain w where w: "marshal_evidence ?mark = Some w" by (simp add: marshal_evidence_def)
    have "length w \<le> MaxEvidenceBytes"
      using length_object3 [OF w] \<open>length (Itoa (int (length b))) \<le> 19\<close>
        length_json_string [of "''evidence exceeded MaxEvidenceBytes and was dropped''"]
      by (simp add: MaxEvidenceBytes_def)
    then show ?thesis using Some b w by (simp add: capEvidence_def)
  qed
qed (simp add: capEvidence_def)

section \<open>Concrete runs\<close>

definition ex_finding :: Finding where
  "ex_finding = \<lparr>f_Fingerprint = ''f1'', f_Target = ''edge'', f_Check = ''any-any'', f_Title = ''wide rule'',
     f_Severity = SeverityHigh, f_Remediation = ''narrow it'', f_Evidence = Some [(''line'', JInt 3)], f_ID = '''', f_Module = '''',
     f_Status = '''', f_GroupID = None, f_FirstSeen = 0, f_LastSeen = 0, f_ResolvedAt = None\<rparr>"

definition ex_info :: ModuleInfo where
  "ex_info = \<lparr>mi_ID = ''rulehawk'', mi_Name = '''', mi_Version = '''', mi_TargetKind = '''', mi_DefaultInterval = 1, mi_ResolveAfter = 2\<rparr>"

definition ex_ids :: "int \<Rightarrow> nat \<Rightarrow> (string + string) \<times> nat" where
  "ex_ids now n = (Inr (Itoa (int n)), n + 1)"

definition ex_record :: Record where
  "ex_record = new_record ''1'' ''rulehawk'' 5 ex_finding"

definition ex_store :: MemStore where
  "ex_store = mem_Upsert ex_record NewMemStore"

lemma ex_total: "total_ids ex_ids"
  by (simp add: total_ids_def ex_ids_def)

lemma ex_valid: "ValidateForIngest ex_finding = None"
  by (simp add: ValidateForIngest_None ex_finding_def Valid_def)

lemma ex_no_nul: "no_nul (mi_ID ex_info)" "no_nul (f_Module ex_record)"
  by (simp_all add: no_nul_def ex_info_def ex_record_def)

lemma ex_wf: "mem_wf NewMemStore" "mem_wf ex_store"
proof -
  show "mem_wf NewMemStore" by (simp add: mem_wf_def NewMemStore_def)
  then show "mem_wf ex_store" unfolding ex_store_def by (rule mem_Upsert_wf) (rule ex_no_nul)
qed

lemma ex_Get: "mem_Get ex_store (mi_ID ex_info) ''f1'' = Some ex_record" "mem_Get NewMemStore m fp = None"
  by (simp_all add: mem_Get_def ex_store_def mem_Upsert_def NewMemStore_def ex_record_def ex_info_def ex_finding_def)

lemma ex_run_ok: "run_ok ex_store ex_info ''edge'' [ex_finding]" "run_ok NewMemStore ex_info ''edge'' [ex_finding]"
  "run_ok ex_store ex_info ''edge'' []"
  using ex_valid ex_Get ex_no_nul ex_wf
  by (simp_all add: run_ok_def fresh_ok_def no_foreign_def ex_finding_def ex_record_def)

text \<open>The first scan of a finding stores it, and the store holds it afterwards.\<close>

lemma reconcile_life_cycle_witness:
  "(case mem_Reconcile ex_ids 5 ex_info ''edge'' [ex_finding] NewMemStore 0 of (st, err) \<Rightarrow>
     err = None \<and> (\<exists>fid. mem_Get (rc_store st) ''rulehawk'' ''f1'' = Some (new_record fid ''rulehawk'' 5 (capEvidence ex_finding))))"
proof -
  have "ingested [ex_finding] ''f1'' = Some ex_finding"
    using ex_valid by (simp add: ingested_def ex_finding_def)
  moreover have "mi_ID ex_info = ''rulehawk''" by (simp add: ex_info_def)
  ultimately show ?thesis
    using reconcile_life_cycle [OF ex_total ex_run_ok(2), of 5 0, THEN conjunct2, THEN conjunct1, rule_format, of "''f1''"]
      reconcile_life_cycle [OF ex_total ex_run_ok(2), of 5 0, THEN conjunct1] ex_Get(2)
    by (auto simp: transition_def split: prod.split)
qed

lemma reconcile_announces_witness:
  "map f_Fingerprint (rr_NewlyOpen (rc_res (fst (mem_Reconcile ex_ids 5 ex_info ''edge'' [ex_finding] NewMemStore 0)))) = [''f1'']"
proof -
  have "news (target_record NewMemStore ex_info ''edge'') ex_finding"
    using ex_valid ex_Get(2) by (simp add: news_def target_record_def)
  then show ?thesis
    using reconcile_announces [OF ex_total ex_wf(1) ex_no_nul(1), where now = 5 and target = "''edge''" and fresh = "[ex_finding]" and g = 0]
    by (auto simp: ex_finding_def split: prod.splits)
qed

lemma duplicate_announced_twice_witness:
  "map f_Fingerprint (rr_NewlyOpen (rc_res (fst (mem_Reconcile ex_ids 5 ex_info ''edge'' [ex_finding, ex_finding] NewMemStore 0)))) =
    [f_Fingerprint ex_finding, f_Fingerprint ex_finding]"
  by (rule duplicate_announced_twice [OF ex_total ex_wf(1) ex_no_nul(1) ex_valid ex_Get(2)])

lemma rescan_is_silent_witness:
  "case mem_Reconcile ex_ids 5 ex_info ''edge'' [ex_finding] NewMemStore 0 of (st, _) \<Rightarrow>
    (case mem_Reconcile ex_ids 6 ex_info ''edge'' [ex_finding] (rc_store st) (rc_gen st) of (st', _) \<Rightarrow>
      rr_NewlyOpen (rc_res st') = [])"
proof -
  have "\<forall>r \<in> snd ` set (ms_recs NewMemStore). 0 \<le> r_AbsentStreak r" by (simp add: NewMemStore_def)
  from rescan_is_silent [OF ex_total ex_run_ok(2) this, where now = 5 and g = 0 and later = 6] show ?thesis
    by (simp split: prod.splits)
qed

lemma decisions_survive_witness:
  "\<exists>r. mem_Get (rc_store (fst (mem_Reconcile ex_ids 6 ex_info ''edge'' [] ex_store 2))) (mi_ID ex_info) ''f1'' = Some r \<and>
    same_identity r ex_record"
  using decisions_survive [OF ex_total ex_run_ok(3) ex_Get(1), of 6 2] by blast

lemma absent_finding_resolves_witness:
  "mem_Get (scan_runs ex_ids ex_info ''edge'' [(6, []), (7, []), (8, [])] ex_store 2) (mi_ID ex_info) ''f1'' =
    Some (ex_record\<lparr>r_AbsentStreak := 2, f_Status := StatusResolved, f_ResolvedAt := Some 7\<rparr>)"
  using absent_finding_resolves [OF ex_total ex_wf(2) ex_no_nul(1) _ ex_Get(1), of "''edge''" "[(6, []), (7, []), (8, [])]" 2]
  by (simp add: fresh_ok_def no_foreign_def reported_def ex_record_def ex_finding_def ResolveAfterOrDefault_def ex_info_def)

lemma capEvidence_bound_witness:
  "case f_Evidence (capEvidence ex_finding) of None \<Rightarrow> False
   | Some ev \<Rightarrow> (case marshal_evidence ev of None \<Rightarrow> False | Some b \<Rightarrow> length b \<le> MaxEvidenceBytes)"
proof -
  have "\<forall>ev b. f_Evidence ex_finding = Some ev \<longrightarrow> marshal_evidence ev = Some b \<longrightarrow> length b < 2 ^ 63"
    by (simp add: ex_finding_def marshal_evidence_def json_string_def json_escape_def Itoa_def nat_str.simps
        less_char_def json_u00_def)
  moreover have "f_Evidence ex_finding \<noteq> None" by (simp add: ex_finding_def)
  ultimately show ?thesis using capEvidence_bound [of ex_finding] by (auto split: option.splits)
qed

end
