(* ===== verification/Rulehawk.thy ===== *)
theory Rulehawk
  imports VendorParse Store
begin

text \<open>
  Package \<open>rulehawk\<close>: the stored configs (\<open>memstore.go\<close>), the collector that audits one of them
  (\<open>rulehawk.go\<close>), and the handlers of the console (\<open>console.go\<close>). A config store is the record of
  its operations, as the Go interface has them. The context of a scan is read once per issue: it is
  a function from the number of the read to the context's error. A \<open>None\<close> of the collector is the
  panic that the analysers could raise. The handlers take the decoded request and give the status
  code with the value that is encoded as the body; the callbacks act on a state of their own.
\<close>

section \<open>Configs and their store\<close>

text \<open>\<open>c_UpdatedAt\<close> is 0 for the zero time.\<close>

record Config =
  c_Name :: string
  c_Vendor :: string
  c_Current :: string
  c_Baseline :: string
  c_HasBase :: bool
  c_UpdatedAt :: int

record 's ConfigStore =
  s_PutConfig :: "Config \<Rightarrow> 's \<Rightarrow> string + 's"
  s_GetConfig :: "string \<Rightarrow> 's \<Rightarrow> string + Config option"
  s_ListConfigs :: "'s \<Rightarrow> string + Config list"
  s_DeleteConfig :: "string \<Rightarrow> 's \<Rightarrow> string + 's"

type_synonym cfgMem = "(string \<times> Config) list"

definition cfg_PutConfig :: "Config \<Rightarrow> cfgMem \<Rightarrow> cfgMem" where
  "cfg_PutConfig c m = (let c = c\<lparr>c_HasBase := TrimSpace (c_Baseline c) \<noteq> ''''\<rparr> in AList.update (c_Name c) c m)"

definition cfg_GetConfig :: "string \<Rightarrow> cfgMem \<Rightarrow> Config option" where
  "cfg_GetConfig name m = map_of m name"

definition cfg_ListConfigs :: "cfgMem \<Rightarrow> Config list" where
  "cfg_ListConfigs m = sort_key c_Name (map snd m)"

definition cfg_DeleteConfig :: "string \<Rightarrow> cfgMem \<Rightarrow> cfgMem" where
  "cfg_DeleteConfig name m = AList.delete name m"

definition cfg_MemStore :: "cfgMem ConfigStore" where
  "cfg_MemStore = \<lparr>s_PutConfig = (\<lambda>c m. Inr (cfg_PutConfig c m)), s_GetConfig = (\<lambda>name m. Inr (cfg_GetConfig name m)),
     s_ListConfigs = (\<lambda>m. Inr (cfg_ListConfigs m)), s_DeleteConfig = (\<lambda>name m. Inr (cfg_DeleteConfig name m))\<rparr>"

section \<open>The collector\<close>

definition ModuleID :: string where
  "ModuleID = ''rulehawk''"

definition Describe :: ModuleInfo where
  "Describe = \<lparr>mi_ID = ModuleID, mi_Name = ''RuleHawk'', mi_Version = ''0.1.3'', mi_TargetKind = ''config'',
     mi_DefaultInterval = 24 * 3600 * 1000000000, mi_ResolveAfter = 1\<rparr>"

definition ValidateTarget :: "string \<Rightarrow> IngestError + Target" where
  "ValidateTarget raw =
     (let name = TrimSpace raw in
      if name = '''' then Inl \<lparr>ie_Field = ''target'', ie_Reason = ''empty config name''\<rparr>
      else Inr \<lparr>t_Raw = raw, t_Canonical = name\<rparr>)"

text \<open>A finding as a collector builds it: the fields the core owns are zero.\<close>

definition collected :: "string \<Rightarrow> string \<Rightarrow> string \<Rightarrow> string \<Rightarrow> Severity \<Rightarrow> string \<Rightarrow> evidence \<Rightarrow> Finding" where
  "collected fp target check title sev fix ev =
     \<lparr>f_Fingerprint = fp, f_Target = target, f_Check = check, f_Title = title, f_Severity = sev, f_Remediation = fix,
      f_Evidence = Some ev, f_ID = '''', f_Module = '''', f_Status = '''', f_GroupID = None, f_FirstSeen = 0,
      f_LastSeen = 0, f_ResolvedAt = None\<rparr>"

definition issueFinding :: "Config \<Rightarrow> Issue \<Rightarrow> Finding" where
  "issueFinding cfg iss =
     (let sev = Severity_of (iSeverity iss); sev = (if \<not> Valid sev then SeverityLow else sev);
          fix = iFix iss; fix = (if TrimSpace fix = '''' then ''Review this rule.'' else fix)
      in collected (Fingerprint ModuleID (c_Name cfg) (iCheck iss) (iKey iss)) (c_Name cfg) (iCheck iss) (iTitle iss)
           sev fix
           [(''detail'', JString (iDetail iss)), (''rule_index'', JInt (iRuleIndex iss)), (''vendor'', JString (c_Vendor cfg))])"

definition unparsedFinding :: "Config \<Rightarrow> string list \<Rightarrow> Finding" where
  "unparsedFinding cfg unparsed =
     (let sample = (if length unparsed > 8 then take 8 unparsed else unparsed) in
      collected (Fingerprint ModuleID (c_Name cfg) ''config.unparsed'' '''') (c_Name cfg) ''config.unparsed''
        (Itoa (int (length unparsed)) @ '' config line(s) could not be parsed for '' @ VendorLabel (c_Vendor cfg))
        SeverityLow
        (''Review these lines '' @ em_dash @ '' RuleHawk skipped them, so any rules they contain were not audited.'')
        [(''count'', JInt (int (length unparsed))), (''sample'', JArray (map JString sample)), (''vendor'', JString (c_Vendor cfg))])"

datatype collect_error = StoreError string | ParseError parse_error | ContextError string

text \<open>The loop over the issues, which stops when the context has an error.\<close>

fun collect_loop :: "(nat \<Rightarrow> string option) \<Rightarrow> Config \<Rightarrow> nat \<Rightarrow> Issue list \<Rightarrow> collect_error + Finding list" where
  "collect_loop ctx cfg k [] = Inr []"
| "collect_loop ctx cfg k (iss # rest) =
     (case ctx k of
        Some err \<Rightarrow> Inl (ContextError err)
      | None \<Rightarrow>
          (case collect_loop ctx cfg (k + 1) rest of
             Inl err \<Rightarrow> Inl err
           | Inr out \<Rightarrow> Inr (issueFinding cfg iss # out)))"

definition Collect ::
  "'s ConfigStore \<Rightarrow> (string \<Rightarrow> string + pfRule list) \<Rightarrow> (nat \<Rightarrow> string option) \<Rightarrow> Target \<Rightarrow> 's \<Rightarrow>
    (collect_error + Finding list) option" where
  "Collect iface unmarshal ctx t s =
     (case s_GetConfig iface (t_Canonical t) s of
        Inl err \<Rightarrow> Some (Inl (StoreError err))
      | Inr None \<Rightarrow> Some (Inr [])
      | Inr (Some cfg) \<Rightarrow>
          (case Parse unmarshal (c_Vendor cfg) (c_Current cfg) of
             Inl err \<Rightarrow> Some (Inl (ParseError err))
           | Inr parsed \<Rightarrow>
               (case Analyze (resRules parsed) of
                  None \<Rightarrow> None
                | Some issues \<Rightarrow>
                    (let issues =
                       (if TrimSpace (c_Baseline cfg) \<noteq> '''' then
                          (case Parse unmarshal (c_Vendor cfg) (c_Baseline cfg) of
                             Inr baseParsed \<Rightarrow> issues @ Drift (resRules baseParsed) (resRules parsed)
                           | Inl _ \<Rightarrow> issues)
                        else issues)
                     in case collect_loop ctx cfg 0 issues of
                          Inl err \<Rightarrow> Some (Inl err)
                        | Inr out \<Rightarrow>
                            Some (Inr (if length (resUnparsed parsed) > 0
                              then out @ [unparsedFinding cfg (resUnparsed parsed)] else out))))))"

section \<open>The console\<close>

datatype body =
    ErrorBody string
  | ConfigsBody "Config list" "(string \<times> string) list"
  | SavedBody string nat nat
  | BaselineBody string
  | DeletedBody string

record response =
  rs_code :: nat
  rs_body :: body

record ('s, 'w) Console =
  cn_Store :: "'s ConfigStore"
  cn_Caps :: "('w \<Rightarrow> int) option"
  cn_OnSaved :: "(string \<Rightarrow> 'w \<Rightarrow> string option \<times> 'w) option"
  cn_OnDelete :: "(string \<Rightarrow> 'w \<Rightarrow> 'w) option"

definition httpErr :: "nat \<Rightarrow> string \<Rightarrow> response" where
  "httpErr code msg = \<lparr>rs_code = code, rs_body = ErrorBody msg\<rparr>"

definition vendorOptions :: "(string \<times> string) list" where
  "vendorOptions = map (\<lambda>v. (v, VendorLabel v)) Vendors"

definition validVendor :: "string \<Rightarrow> bool" where
  "validVendor v = list_ex (\<lambda>x. x = v) Vendors"

record saveRequest =
  sq_Name :: string
  sq_Vendor :: string
  sq_Config :: string

definition handleList :: "('s, 'w) Console \<Rightarrow> 's \<Rightarrow> response" where
  "handleList c s =
     (case s_ListConfigs (cn_Store c) s of
        Inl err \<Rightarrow> httpErr 500 err
      | Inr cfgs \<Rightarrow> \<lparr>rs_code = 200, rs_body = ConfigsBody cfgs vendorOptions\<rparr>)"

text \<open>Whether the tier's limit refuses a new config. The error of the listing is ignored, as in the code.\<close>

definition over_limit :: "('s, 'w) Console \<Rightarrow> 's \<Rightarrow> 'w \<Rightarrow> bool" where
  "over_limit c s w =
     (case cn_Caps c of
        None \<Rightarrow> False
      | Some caps \<Rightarrow>
          caps w \<noteq> 0 \<and> int (length (case s_ListConfigs (cn_Store c) s of Inl _ \<Rightarrow> [] | Inr cfgs \<Rightarrow> cfgs)) \<ge> caps w)"

text \<open>The rest of \<open>handleSave\<close> once the limit is passed.\<close>

definition save_config ::
  "('s, 'w) Console \<Rightarrow> saveRequest \<Rightarrow> Result \<Rightarrow> Config option \<Rightarrow> 's \<times> 'w \<Rightarrow> response \<times> 's \<times> 'w" where
  "save_config c req parsed existing sw =
     (let cfg = \<lparr>c_Name = sq_Name req, c_Vendor = sq_Vendor req, c_Current = sq_Config req, c_Baseline = '''',
            c_HasBase = False, c_UpdatedAt = 0\<rparr>;
          cfg = (case existing of Some e \<Rightarrow> cfg\<lparr>c_Baseline := c_Baseline e\<rparr> | None \<Rightarrow> cfg);
          ok = \<lparr>rs_code = 200, rs_body = SavedBody (sq_Name req) (length (resRules parsed)) (length (resUnparsed parsed))\<rparr>
      in case s_PutConfig (cn_Store c) cfg (fst sw) of
           Inl err \<Rightarrow> (httpErr 500 err, sw)
         | Inr s \<Rightarrow>
             (case cn_OnSaved c of
                None \<Rightarrow> (ok, s, snd sw)
              | Some onSaved \<Rightarrow>
                  (case onSaved (sq_Name req) (snd sw) of
                     (Some err, w) \<Rightarrow> (httpErr 409 err, s, w)
                   | (None, w) \<Rightarrow> (ok, s, w))))"

definition parse_error_str :: "parse_error \<Rightarrow> string" where
  "parse_error_str e =
     (case e of
        InvalidXml err \<Rightarrow> ''invalid pfSense/OPNsense config.xml: '' @ err
      | UnsupportedVendor v \<Rightarrow>
          ''unsupported vendor: '' @ [CHR 0x22] @ v @ [CHR 0x22] @ '' (supported: ['' @ Join Vendors '' '' @ ''])'')"

definition handleSave ::
  "('s, 'w) Console \<Rightarrow> (string \<Rightarrow> string + pfRule list) \<Rightarrow> saveRequest option \<Rightarrow> 's \<times> 'w \<Rightarrow> response \<times> 's \<times> 'w" where
  "handleSave c unmarshal decoded sw =
     (case decoded of
        None \<Rightarrow> (httpErr 400 ''invalid JSON'', sw)
      | Some req \<Rightarrow>
          (let req = req\<lparr>sq_Name := TrimSpace (sq_Name req)\<rparr> in
           if sq_Name req = '''' then (httpErr 400 ''a config name is required'', sw)
           else if TrimSpace (sq_Config req) = '''' then (httpErr 400 ''the config text is empty'', sw)
           else if \<not> validVendor (sq_Vendor req) then (httpErr 400 (''unknown vendor: '' @ sq_Vendor req), sw)
           else (case Parse unmarshal (sq_Vendor req) (sq_Config req) of
               Inl err \<Rightarrow> (httpErr 400 (parse_error_str err), sw)
             | Inr parsed \<Rightarrow>
                 (let existing = (case s_GetConfig (cn_Store c) (sq_Name req) (fst sw) of Inl _ \<Rightarrow> None | Inr e \<Rightarrow> e) in
                  if existing = None \<and> over_limit c (fst sw) (snd sw)
                  then (httpErr 403 (''config limit reached for your tier '' @ em_dash @ '' upgrade to add more''), sw)
                  else save_config c req parsed existing sw))))"

text \<open>The request of \<open>handleBaseline\<close> is a name.\<close>

definition handleBaseline :: "('s, 'w) Console \<Rightarrow> string option \<Rightarrow> 's \<times> 'w \<Rightarrow> response \<times> 's \<times> 'w" where
  "handleBaseline c decoded sw =
     (case decoded of
        None \<Rightarrow> (httpErr 400 ''invalid JSON'', sw)
      | Some name \<Rightarrow>
          (case s_GetConfig (cn_Store c) (TrimSpace name) (fst sw) of
             Inr (Some cfg) \<Rightarrow>
               (let cfg = cfg\<lparr>c_Baseline := c_Current cfg\<rparr>; ok = \<lparr>rs_code = 200, rs_body = BaselineBody (c_Name cfg)\<rparr>
                in case s_PutConfig (cn_Store c) cfg (fst sw) of
                     Inl err \<Rightarrow> (httpErr 500 err, sw)
                   | Inr s \<Rightarrow>
                       (case cn_OnSaved c of
                          None \<Rightarrow> (ok, s, snd sw)
                        | Some onSaved \<Rightarrow> (ok, s, snd (onSaved (c_Name cfg) (snd sw)))))
           | _ \<Rightarrow> (httpErr 404 ''no such config'', sw)))"

definition handleDelete :: "('s, 'w) Console \<Rightarrow> string \<Rightarrow> 's \<times> 'w \<Rightarrow> response \<times> 's \<times> 'w" where
  "handleDelete c query sw =
     (let name = TrimSpace query in
      if name = '''' then (httpErr 400 ''name is required'', sw)
      else
        (let w = (case cn_OnDelete c of None \<Rightarrow> snd sw | Some onDelete \<Rightarrow> onDelete name (snd sw))
         in case s_DeleteConfig (cn_Store c) name (fst sw) of
              Inl err \<Rightarrow> (httpErr 500 err, fst sw, w)
            | Inr s \<Rightarrow> (\<lparr>rs_code = 200, rs_body = DeletedBody name\<rparr>, s, w)))"

text \<open>The routes that change state.\<close>

datatype console_request =
    PostConfig "saveRequest option"
  | PostBaseline "string option"
  | DeleteConfig string

fun Console_Register ::
  "('s, 'w) Console \<Rightarrow> (string \<Rightarrow> string + pfRule list) \<Rightarrow> console_request \<Rightarrow> 's \<times> 'w \<Rightarrow> response \<times> 's \<times> 'w" where
  "Console_Register c unmarshal (PostConfig r) sw = handleSave c unmarshal r sw"
| "Console_Register c unmarshal (PostBaseline r) sw = handleBaseline c r sw"
| "Console_Register c unmarshal (DeleteConfig name) sw = handleDelete c name sw"

end
