(* ===== verification/RulehawkSpec.thy ===== *)
theory RulehawkSpec
  imports Rulehawk StoreProperties ParseProperties
begin

text \<open>
  The contract of a config store as a locale, interpreted on the in-memory store, and what the
  console and the collector guarantee: what is accepted can be audited and is what was sent, the
  tier's limit holds, and every finding of an audit passes the check at the door of the store.
\<close>

section \<open>The contract of a config store\<close>

text \<open>A store may set the update time and the derived flag of what it is given.\<close>

definition same_config :: "Config \<Rightarrow> Config \<Rightarrow> bool" where
  "same_config a b \<longleftrightarrow> c_Name a = c_Name b \<and> c_Vendor a = c_Vendor b \<and> c_Current a = c_Current b \<and>
     c_Baseline a = c_Baseline b"

definition uploaded :: "saveRequest \<Rightarrow> Config option \<Rightarrow> Config \<Rightarrow> bool" where
  "uploaded req prev cfg \<longleftrightarrow> c_Name cfg = TrimSpace (sq_Name req) \<and> c_Vendor cfg = sq_Vendor req \<and>
     c_Current cfg = sq_Config req \<and> c_Baseline cfg = (case prev of None \<Rightarrow> '''' | Some e \<Rightarrow> c_Baseline e)"

locale config_store =
  fixes iface :: "'s ConfigStore"
    and view :: "'s \<Rightarrow> string \<Rightarrow> Config option"
    and wf :: "'s \<Rightarrow> bool"
  assumes get: "wf s \<Longrightarrow> s_GetConfig iface name s = Inr (view s name)"
    and put: "wf s \<Longrightarrow> \<exists>s' c'. s_PutConfig iface c s = Inr s' \<and> wf s' \<and> same_config c' c \<and>
      view s' = (view s)(c_Name c \<mapsto> c')"
    and del: "wf s \<Longrightarrow> \<exists>s'. s_DeleteConfig iface name s = Inr s' \<and> wf s' \<and> view s' = (view s)(name := None)"
    and listed: "wf s \<Longrightarrow> \<exists>cs. s_ListConfigs iface s = Inr cs \<and> length cs = card (dom (view s))"
    and finite_view: "wf s \<Longrightarrow> finite (dom (view s))"
    and named: "wf s \<Longrightarrow> view s name = Some c \<Longrightarrow> c_Name c = name"
begin

lemma save_result:
  assumes wf: "wf s" and c: "cn_Store c = iface"
    and run: "handleSave c unmarshal (Some req) (s, w) = (r, s', w')"
  shows "wf s' \<and> (view s' = view s \<and> rs_code r \<noteq> 200 \<or>
    (\<exists>cfg. view s' = (view s)(TrimSpace (sq_Name req) \<mapsto> cfg) \<and> uploaded req (view s (TrimSpace (sq_Name req))) cfg \<and>
      (\<exists>parsed. Parse unmarshal (sq_Vendor req) (sq_Config req) = Inr parsed) \<and>
      (view s (TrimSpace (sq_Name req)) \<noteq> None \<or> \<not> over_limit c s w)))"
proof -
  let ?name = "TrimSpace (sq_Name req)"
  let ?req = "req\<lparr>sq_Name := ?name\<rparr>"
  show ?thesis
  proof (cases "?name = '''' \<or> TrimSpace (sq_Config req) = '''' \<or> \<not> validVendor (sq_Vendor req) \<or>
      (\<exists>e. Parse unmarshal (sq_Vendor req) (sq_Config req) = Inl e) \<or> (view s ?name = None \<and> over_limit c s w)")
    case True
    then have "s' = s \<and> rs_code r \<noteq> 200"
      using run get [OF wf] c
      by (auto simp: handleSave_def Let_def httpErr_def split: if_splits sum.splits)
    with wf show ?thesis by simp
  next
    case False
    then obtain parsed where parsed: "Parse unmarshal (sq_Vendor req) (sq_Config req) = Inr parsed"
      by (cases "Parse unmarshal (sq_Vendor req) (sq_Config req)") auto
    have run': "save_config c ?req parsed (view s ?name) (s, w) = (r, s', w')"
      using run False parsed get [OF wf] c by (cases "view s ?name") (simp_all add: handleSave_def Let_def)
    define cfg where "cfg = (case view s ?name of
        Some e \<Rightarrow> \<lparr>c_Name = ?name, c_Vendor = sq_Vendor req, c_Current = sq_Config req, c_Baseline = c_Baseline e,
          c_HasBase = False, c_UpdatedAt = 0\<rparr>
      | None \<Rightarrow> \<lparr>c_Name = ?name, c_Vendor = sq_Vendor req, c_Current = sq_Config req, c_Baseline = '''',
          c_HasBase = False, c_UpdatedAt = 0\<rparr>)"
    obtain s2 c2 where s2: "s_PutConfig iface cfg s = Inr s2" "wf s2" "same_config c2 cfg"
      "view s2 = (view s)(c_Name cfg \<mapsto> c2)" using put [OF wf] by blast
    have "s' = s2" using run' s2(1) c
      by (auto simp: save_config_def cfg_def Let_def split: option.splits prod.splits)
    moreover have "c_Name cfg = ?name" "c_Vendor cfg = sq_Vendor req" "c_Current cfg = sq_Config req"
      "c_Baseline cfg = (case view s ?name of None \<Rightarrow> '''' | Some e \<Rightarrow> c_Baseline e)"
      by (simp_all add: cfg_def split: option.split)
    ultimately show ?thesis using s2 parsed False by (auto simp: same_config_def uploaded_def)
  qed
qed

text \<open>The number of configs after a save: a new one is admitted only below the limit.\<close>

lemma save_count:
  assumes wf: "wf s" and c: "cn_Store c = iface" and caps: "cn_Caps c = Some caps" "caps w \<noteq> 0"
    and run: "handleSave c unmarshal (Some req) (s, w) = (r, s', w')"
    and le: "int (card (dom (view s))) \<le> caps w"
  shows "int (card (dom (view s'))) \<le> caps w"
proof -
  consider "view s' = view s" | cfg where "view s' = (view s)(TrimSpace (sq_Name req) \<mapsto> cfg)"
      "view s (TrimSpace (sq_Name req)) \<noteq> None \<or> \<not> over_limit c s w"
    using save_result [OF wf c run] by blast
  then show ?thesis
  proof cases
    case 1
    then show ?thesis using le by simp
  next
    case 2
    show ?thesis
    proof (cases "TrimSpace (sq_Name req) \<in> dom (view s)")
      case True
      then show ?thesis using 2(1) le by (simp add: insert_absorb)
    next
      case False
      then have "\<not> over_limit c s w" using 2(2) by (simp add: domIff)
      moreover obtain cs where "s_ListConfigs iface s = Inr cs" "length cs = card (dom (view s))" using listed [OF wf] by blast
      ultimately have "int (card (dom (view s))) < caps w" using caps c by (simp add: over_limit_def)
      then show ?thesis using 2(1) False finite_view [OF wf] by (simp add: card_insert_disjoint)
    qed
  qed
qed

end

section \<open>The in-memory config store\<close>

definition cfg_wf :: "cfgMem \<Rightarrow> bool" where
  "cfg_wf m \<longleftrightarrow> distinct (map fst m) \<and> list_all (\<lambda>(k, c). c_Name c = k) m"

definition cfg_view :: "cfgMem \<Rightarrow> string \<Rightarrow> Config option" where
  "cfg_view m name = cfg_GetConfig name m"

lemma cfg_wf_map:
  "cfg_wf m \<longleftrightarrow> distinct (map fst m) \<and> (\<forall>k c. map_of m k = Some c \<longrightarrow> c_Name c = k)"
  unfolding cfg_wf_def list_all_iff by (simp add: map_of_eq_Some_iff cong: conj_cong) auto

lemma cfg_dom: "dom (cfg_view m) = fst ` set m"
  by (simp add: cfg_view_def [abs_def] cfg_GetConfig_def dom_map_of_conv_image_fst)

interpretation cfg_mem: config_store cfg_MemStore cfg_view cfg_wf
proof unfold_locales
  fix s :: cfgMem and name c
  assume wf: "cfg_wf s"
  show "s_GetConfig cfg_MemStore name s = Inr (cfg_view s name)"
    by (simp add: cfg_MemStore_def cfg_view_def)
  show "\<exists>s' c'. s_PutConfig cfg_MemStore c s = Inr s' \<and> cfg_wf s' \<and> same_config c' c \<and>
      cfg_view s' = (cfg_view s)(c_Name c \<mapsto> c')"
    using wf
    by (intro exI [of _ "cfg_PutConfig c s"] exI [of _ "c\<lparr>c_HasBase := TrimSpace (c_Baseline c) \<noteq> ''''\<rparr>"])
      (simp add: cfg_MemStore_def cfg_wf_map cfg_PutConfig_def Let_def distinct_update update_conv' same_config_def
        cfg_view_def [abs_def] cfg_GetConfig_def)
  show "\<exists>s'. s_DeleteConfig cfg_MemStore name s = Inr s' \<and> cfg_wf s' \<and> cfg_view s' = (cfg_view s)(name := None)"
    using wf
    by (auto simp: cfg_MemStore_def cfg_wf_map cfg_DeleteConfig_def distinct_delete delete_conv'
        cfg_view_def [abs_def] cfg_GetConfig_def)
  have "card (set (map fst s)) = length (map fst s)" using wf by (intro distinct_card) (simp add: cfg_wf_def)
  then show "\<exists>cs. s_ListConfigs cfg_MemStore s = Inr cs \<and> length cs = card (dom (cfg_view s))"
    by (simp add: cfg_MemStore_def cfg_ListConfigs_def cfg_dom)
  show "finite (dom (cfg_view s))" by (simp add: cfg_dom)
  show "cfg_view s name = Some c \<Longrightarrow> c_Name c = name"
    using wf by (simp add: cfg_view_def cfg_GetConfig_def cfg_wf_map)
qed

section \<open>Issues make valid findings\<close>

definition issue_ok :: "Issue \<Rightarrow> bool" where
  "issue_ok iss \<longleftrightarrow> iCheck iss \<noteq> '''' \<and> iTitle iss \<noteq> ''''"

lemma coverIssue_ok: "issue_ok (coverIssue rj ri)"
  unfolding issue_ok_def coverIssue_def
  by (cases "SameMatch rj ri \<and> rAction rj = rAction ri"; cases "rAction ri = Deny \<and> rAction rj = Allow") simp_all

lemma shadow_loop_ok:
  "shadow_loop rules i rest ix out = Some res \<Longrightarrow> list_all issue_ok out \<Longrightarrow> list_all issue_ok res"
  by (induction rest arbitrary: i ix out) (auto simp: coverIssue_ok Let_def split: if_splits coverer.splits)

lemma permissive_ok: "list_all issue_ok (permissive rs)"
  by (induction rs) (auto simp: issue_ok_def permissive_rule_def Let_def)

lemma hygiene_ok: "list_all issue_ok (hygiene rs)"
  by (induction rs) (auto simp: issue_ok_def hygiene_rule_def)

lemma Analyze_ok: "Analyze rs = Some issues \<Longrightarrow> list_all issue_ok issues"
  using shadow_loop_ok [of rs 0 rs newCoverIndex "[]"] permissive_ok hygiene_ok
  by (auto simp: Analyze_def shadowAndDuplicate_def split: option.splits)

lemma drift_added_ok: "list_all issue_ok (drift_added base rs)"
  by (induction rs) (auto simp: issue_ok_def Let_def split: prod.splits)

lemma drift_removed_ok: "list_all issue_ok (drift_removed cur rs)"
  by (induction rs) (auto simp: issue_ok_def Let_def split: prod.splits)

lemma Drift_ok: "list_all issue_ok (Drift baseline current)"
  by (simp add: Drift_def drift_added_ok drift_removed_ok)

lemma issueFinding_valid:
  assumes "issue_ok iss" and "c_Name cfg \<noteq> ''''"
  shows "ValidateForIngest (issueFinding cfg iss) = None \<and> f_Target (issueFinding cfg iss) = c_Name cfg"
proof -
  have "TrimSpace '''' = ''''" by (simp add: TrimSpace_def trim_by_def)
  then have "(if TrimSpace v = '''' then ''Review this rule.'' else v) \<noteq> ''''" for v by auto
  moreover have "Valid (if \<not> Valid sev then SeverityLow else sev)" for sev by (simp add: Valid_def)
  ultimately show ?thesis
    using assms by (simp add: issueFinding_def Let_def collected_def ValidateForIngest_None issue_ok_def Fingerprint_ne)
qed

lemma unparsedFinding_valid:
  "c_Name cfg \<noteq> '''' \<Longrightarrow> ValidateForIngest (unparsedFinding cfg us) = None \<and> f_Target (unparsedFinding cfg us) = c_Name cfg"
  by (simp add: unparsedFinding_def Let_def collected_def ValidateForIngest_None Fingerprint_ne Valid_def)

lemma collect_loop_map:
  "collect_loop ctx cfg k issues = Inr out \<Longrightarrow> out = map (issueFinding cfg) issues"
  by (induction issues arbitrary: k out) (auto split: option.splits sum.splits)

lemma collect_loop_alive: "collect_loop (\<lambda>_. None) cfg k issues = Inr (map (issueFinding cfg) issues)"
  by (induction issues arbitrary: k) auto

text \<open>The findings of an audit: those of the analysis, those of the drift, and the one about unparsed lines.\<close>

lemma Collect_result:
  assumes "Collect iface unmarshal ctx t s = Some (Inr fs)" and "s_GetConfig iface (t_Canonical t) s = Inr (Some cfg)"
  obtains parsed issues extra rest where "Parse unmarshal (c_Vendor cfg) (c_Current cfg) = Inr parsed"
    and "Analyze (resRules parsed) = Some issues" and "list_all issue_ok extra"
    and "fs = map (issueFinding cfg) (issues @ extra) @ rest"
    and "set rest \<subseteq> {unparsedFinding cfg (resUnparsed parsed)}"
proof -
  obtain parsed issues where p: "Parse unmarshal (c_Vendor cfg) (c_Current cfg) = Inr parsed"
    and i: "Analyze (resRules parsed) = Some issues"
    using assms by (auto simp: Collect_def split: sum.splits option.splits)
  define extra where "extra = (if TrimSpace (c_Baseline cfg) \<noteq> '''' then
      (case Parse unmarshal (c_Vendor cfg) (c_Baseline cfg) of
         Inr b \<Rightarrow> Drift (resRules b) (resRules parsed) | Inl _ \<Rightarrow> []) else [])"
  have all: "(if TrimSpace (c_Baseline cfg) \<noteq> '''' then
      (case Parse unmarshal (c_Vendor cfg) (c_Baseline cfg) of
         Inr b \<Rightarrow> issues @ Drift (resRules b) (resRules parsed) | Inl _ \<Rightarrow> issues) else issues) = issues @ extra"
    by (simp add: extra_def split: sum.split)
  obtain out where out: "collect_loop ctx cfg 0 (issues @ extra) = Inr out"
    and fs: "fs = (if length (resUnparsed parsed) > 0 then out @ [unparsedFinding cfg (resUnparsed parsed)] else out)"
    using assms p i all by (auto simp: Collect_def Let_def split: sum.splits)
  have "list_all issue_ok extra" by (simp add: extra_def Drift_ok split: sum.split)
  moreover have "fs = map (issueFinding cfg) (issues @ extra) @
      (if length (resUnparsed parsed) > 0 then [unparsedFinding cfg (resUnparsed parsed)] else [])"
    unfolding fs collect_loop_map [OF out] by simp
  ultimately show thesis using p i by (intro that) (auto split: if_splits)
qed

lemma ValidateTarget_name: "ValidateTarget raw = Inr t \<Longrightarrow> t_Canonical t = TrimSpace raw \<and> t_Canonical t \<noteq> ''''"
  by (auto simp: ValidateTarget_def Let_def split: if_splits)

lemma no_nul_Describe: "no_nul (mi_ID Describe)"
  by (simp add: no_nul_def Describe_def ModuleID_def)

lemma Collect_total:
  assumes "cfg_GetConfig (t_Canonical t) s = Some cfg" and "Parse unmarshal (c_Vendor cfg) (c_Current cfg) = Inr parsed"
  shows "\<exists>fs. Collect cfg_MemStore unmarshal (\<lambda>_. None) t s = Some (Inr fs)"
proof -
  obtain issues where "Analyze (resRules parsed) = Some issues"
    using shadow_genuine [of "resRules parsed"] by (auto simp: Analyze_def)
  then show ?thesis
    using assms by (simp add: Collect_def cfg_MemStore_def collect_loop_alive Let_def split: sum.split)
qed

section \<open>Properties\<close>

text \<open>C28: Every finding of an audit of a stored config passes the check at the door of the store and names the
  target, so a reconcile run over the in-memory store rejects none of them.\<close>

theorem audit_findings_ingested:
  assumes "ValidateTarget raw = Inr t" and "cfg_wf s" and "Collect cfg_MemStore unmarshal ctx t s = Some (Inr fs)"
    and "total_ids newID" and "mem_wf m"
  shows "list_all (\<lambda>f. ValidateForIngest f = None \<and> f_Target f = t_Canonical t) fs \<and>
    rr_Rejected (rc_res (fst (mem_Reconcile newID now Describe (t_Canonical t) fs m g))) = []"
proof -
  note t = ValidateTarget_name [OF assms(1)]
  have valid: "list_all (\<lambda>f. ValidateForIngest f = None \<and> f_Target f = t_Canonical t) fs"
  proof (cases "cfg_view s (t_Canonical t)")
    case None
    then show ?thesis using assms(3) cfg_mem.get [OF assms(2)] by (simp add: Collect_def)
  next
    case (Some cfg)
    then have get: "s_GetConfig cfg_MemStore (t_Canonical t) s = Inr (Some cfg)" and name: "c_Name cfg = t_Canonical t"
      using cfg_mem.get [OF assms(2)] cfg_mem.named [OF assms(2)] by auto
    from Collect_result [OF assms(3) get] obtain parsed issues extra rest where
      "Parse unmarshal (c_Vendor cfg) (c_Current cfg) = Inr parsed" and issues: "Analyze (resRules parsed) = Some issues"
      and extra: "list_all issue_ok extra" and fs: "fs = map (issueFinding cfg) (issues @ extra) @ rest"
      and rest: "set rest \<subseteq> {unparsedFinding cfg (resUnparsed parsed)}" .
    have ne: "c_Name cfg \<noteq> ''''" using t name by metis
    have "list_all issue_ok (issues @ extra)" using Analyze_ok [OF issues] extra by simp
    then have "list_all (\<lambda>f. ValidateForIngest f = None \<and> f_Target f = c_Name cfg) (map (issueFinding cfg) (issues @ extra))"
      using issueFinding_valid ne by (auto simp: list_all_iff)
    moreover have "list_all (\<lambda>f. ValidateForIngest f = None \<and> f_Target f = c_Name cfg) rest"
      using rest unparsedFinding_valid [OF ne] by (auto simp: list_all_iff)
    ultimately show ?thesis unfolding fs name by simp
  qed
  then have "filter (\<lambda>f. ValidateForIngest f \<noteq> None) fs = []" by (simp add: filter_empty_conv list_all_iff)
  with valid show ?thesis
    using mem_Reconcile_results [OF assms(4,5) no_nul_Describe, of now "t_Canonical t" fs g] by auto
qed

text \<open>C27: A config that the console accepts is stored as it was sent, under the trimmed name and with the baseline
  it had, no other config changes, and its audit then returns findings: neither an error nor a panic.\<close>

theorem accepted_config_is_audited:
  assumes "cfg_wf s" and "cn_Store c = cfg_MemStore"
    and "handleSave c unmarshal (Some req) (s, w) = (r, s', w')" and "rs_code r = 200"
  shows "(\<exists>cfg. cfg_GetConfig (TrimSpace (sq_Name req)) s' = Some cfg \<and>
      uploaded req (cfg_GetConfig (TrimSpace (sq_Name req)) s) cfg) \<and>
    (\<forall>name. name = TrimSpace (sq_Name req) \<or> cfg_GetConfig name s' = cfg_GetConfig name s) \<and>
    (\<exists>fs. Collect cfg_MemStore unmarshal (\<lambda>_. None)
      \<lparr>t_Raw = sq_Name req, t_Canonical = TrimSpace (sq_Name req)\<rparr> s' = Some (Inr fs))"
proof -
  let ?name = "TrimSpace (sq_Name req)"
  obtain cfg parsed where wf: "cfg_wf s'" and v: "cfg_view s' = (cfg_view s)(?name \<mapsto> cfg)"
    and up: "uploaded req (cfg_view s ?name) cfg"
    and p: "Parse unmarshal (sq_Vendor req) (sq_Config req) = Inr parsed"
    using cfg_mem.save_result [OF assms(1-3)] assms(4) by auto
  have get: "cfg_GetConfig n s' = (if n = ?name then Some cfg else cfg_GetConfig n s)" for n
    using fun_cong [OF v, of n] by (simp add: cfg_view_def)
  have "\<exists>fs. Collect cfg_MemStore unmarshal (\<lambda>_. None) \<lparr>t_Raw = sq_Name req, t_Canonical = ?name\<rparr> s' = Some (Inr fs)"
    using p up get by (intro Collect_total [where cfg = cfg and parsed = parsed]) (simp_all add: uploaded_def)
  then show ?thesis using get up by (auto simp: cfg_view_def)
qed

text \<open>C29: The console never lets the number of configs grow past the tier's limit.\<close>

theorem config_limit_kept:
  assumes "cfg_wf s" and "cn_Store c = cfg_MemStore" and "cn_Caps c = Some caps" and "caps w \<noteq> 0"
    and "int (length (cfg_ListConfigs s)) \<le> caps w"
  shows "int (length (cfg_ListConfigs (fst (snd (handleSave c unmarshal (Some req) (s, w)))))) \<le> caps w"
proof -
  obtain r s' w' where run: "handleSave c unmarshal (Some req) (s, w) = (r, s', w')"
    by (cases "handleSave c unmarshal (Some req) (s, w)") auto
  have len: "length (cfg_ListConfigs m) = card (dom (cfg_view m))" if "cfg_wf m" for m
    using cfg_mem.listed [OF that] by (simp add: cfg_MemStore_def)
  have "cfg_wf s'" using cfg_mem.save_result [OF assms(1,2) run] by blast
  then show ?thesis
    using cfg_mem.save_count [OF assms(1,2,3,4) run] assms(5) len assms(1) run by simp
qed

text \<open>Two rules that the key of an issue does not tell apart.\<close>

definition undescribed_allow :: "Rule \<Rightarrow> bool" where
  "undescribed_allow r \<longleftrightarrow> rEnabled r \<and> rAction r = Allow \<and> TrimSpace (rDesc r) = ''''"

definition nodesc_fingerprint :: "Config \<Rightarrow> Rule \<Rightarrow> string" where
  "nodesc_fingerprint cfg r = Fingerprint ModuleID (c_Name cfg) ''rule.hygiene'' (''nodesc|'' @ MatchKey r)"

lemma nodesc_reported:
  "undescribed_allow r \<Longrightarrow> nodesc_fingerprint cfg r \<in> set (map (\<lambda>i. f_Fingerprint (issueFinding cfg i)) (hygiene_rule r))"
  by (simp add: undescribed_allow_def hygiene_rule_def issueFinding_def Let_def collected_def nodesc_fingerprint_def)

lemma hygiene_append: "hygiene (xs @ ys) = hygiene xs @ hygiene ys"
  by (induction xs) auto

text \<open>The key of an issue leaves out the position of its rule, so two enabled allow rules of the same match
  without a description give two findings of one fingerprint: the findings of an audit are not distinct,
  and the reconcile run over them announces the finding twice and stores it under the second identifier.\<close>

theorem equal_rules_share_fingerprint:
  assumes "cfg_GetConfig (t_Canonical t) s = Some cfg"
    and "Parse unmarshal (c_Vendor cfg) (c_Current cfg) = Inr parsed" and "resRules parsed = us @ a # ms @ b # vs"
    and "undescribed_allow a" and "undescribed_allow b" and "MatchKey a = MatchKey b"
    and "Collect cfg_MemStore unmarshal ctx t s = Some (Inr fs)"
  shows "\<not> distinct (map f_Fingerprint fs)"
proof -
  have get: "s_GetConfig cfg_MemStore (t_Canonical t) s = Inr (Some cfg)" using assms(1) by (simp add: cfg_MemStore_def)
  from Collect_result [OF assms(7) get] obtain parsed' issues extra rest where
      "Parse unmarshal (c_Vendor cfg) (c_Current cfg) = Inr parsed'" and issues: "Analyze (resRules parsed') = Some issues"
      and fs: "fs = map (issueFinding cfg) (issues @ extra) @ rest" by metis
  then obtain shadows where "issues = shadows @ permissive (resRules parsed) @ hygiene (resRules parsed)"
    using assms(2) by (auto simp: Analyze_def split: option.splits)
  moreover have "hygiene (resRules parsed) = hygiene us @ hygiene_rule a @ hygiene ms @ hygiene_rule b @ hygiene vs"
    by (simp add: assms(3) hygiene_append)
  moreover have "nodesc_fingerprint cfg a = nodesc_fingerprint cfg b" using assms(6) by (simp add: nodesc_fingerprint_def)
  ultimately show ?thesis
    using nodesc_reported [OF assms(4), of cfg] nodesc_reported [OF assms(5), of cfg]
    unfolding fs by (auto simp: comp_def)
qed

section \<open>Concrete runs\<close>

definition ex_line :: string where
  "ex_line = ''-A INPUT -s 10.0.0.1 -j ACCEPT''"

definition ex_text :: string where
  "ex_text = ex_line @ [CHR 0x0A] @ ex_line"

definition ex_allow :: Rule where
  "ex_allow = zero_rule\<lparr>rIndex := 1, rName := ''INPUT'', rAction := Allow, rSrcAddrs := [''10.0.0.1''],
    rDstAddrs := [''any''], rProto := ''any'', rDstPorts := [''any''], rEnabled := True, rRaw := ex_line\<rparr>"

lemma ex_parse: "resRules (parseIptables ''iptables'' ex_text) = [ex_allow, ex_allow\<lparr>rIndex := 2\<rparr>]"
proof -
  have c: "config_lines ex_text = [ex_line, ex_line]" by (simp add: config_lines_def Split_def ex_text_def ex_line_def)
  have l: "ipt_rule_line (TrimSpace ex_line) = Some (ex_allow\<lparr>rIndex := 0\<rparr>)"
    by (simp add: ipt_rule_line_def ipt_skipped_def ipt_eval ex_allow_def ex_line_def)
  show ?thesis
    unfolding parseIptables_rules c by (simp add: List.map_filter_simps l reindex_def) (simp add: ex_allow_def)
qed

lemma ex_Parse: "Parse unmarshal ''iptables'' c = Inr (parseIptables ''iptables'' c)"
  by (simp add: Parse_def)

definition ex_config :: Config where
  "ex_config = \<lparr>c_Name = ''edge'', c_Vendor = ''iptables'', c_Current = ex_text, c_Baseline = '''', c_HasBase = False, c_UpdatedAt = 0\<rparr>"

definition ex_cfgs :: cfgMem where
  "ex_cfgs = [(''edge'', ex_config)]"

definition ex_target :: Target where
  "ex_target = \<lparr>t_Raw = ''edge'', t_Canonical = ''edge''\<rparr>"

definition ex_console :: "(cfgMem, unit) Console" where
  "ex_console = \<lparr>cn_Store = cfg_MemStore, cn_Caps = Some (\<lambda>_. 1), cn_OnSaved = None, cn_OnDelete = None\<rparr>"

definition ex_request :: saveRequest where
  "ex_request = \<lparr>sq_Name = '' edge'', sq_Vendor = ''iptables'', sq_Config = ex_text\<rparr>"

lemma ex_cfgs_ok: "cfg_wf ex_cfgs" "cfg_wf []" "cfg_GetConfig ''edge'' ex_cfgs = Some ex_config"
  by (simp_all add: cfg_wf_def ex_cfgs_def ex_config_def cfg_GetConfig_def)

lemma ex_trim: "TrimSpace ''edge'' = ''edge''" "TrimSpace '' edge'' = ''edge''" "TrimSpace ex_text \<noteq> ''''"
  by (simp_all add: str_eval ex_text_def ex_line_def)

lemma ex_collect: "\<exists>fs. Collect cfg_MemStore unmarshal (\<lambda>_. None) ex_target ex_cfgs = Some (Inr fs)"
  by (rule Collect_total [where cfg = ex_config])
    (simp_all add: ex_target_def ex_cfgs_ok ex_config_def ex_Parse)

lemma audit_findings_ingested_witness:
  "\<exists>fs. Collect cfg_MemStore (\<lambda>_. Inl '''') (\<lambda>_. None) ex_target ex_cfgs = Some (Inr fs) \<and>
    list_all (\<lambda>f. ValidateForIngest f = None \<and> f_Target f = ''edge'') fs \<and>
    rr_Rejected (rc_res (fst (mem_Reconcile ex_ids 5 Describe ''edge'' fs NewMemStore 0))) = []"
proof -
  obtain fs where fs: "Collect cfg_MemStore (\<lambda>_. Inl '''') (\<lambda>_. None) ex_target ex_cfgs = Some (Inr fs)"
    using ex_collect by blast
  have t: "ValidateTarget ''edge'' = Inr ex_target" by (simp add: ValidateTarget_def Let_def ex_trim ex_target_def)
  from audit_findings_ingested [OF t ex_cfgs_ok(1) fs ex_total ex_wf(1), of 5 0] fs show ?thesis
    by (auto simp: ex_target_def)
qed

lemma ex_save:
  "\<exists>r s'. handleSave ex_console unmarshal (Some ex_request) ([], ()) = (r, s', ()) \<and> rs_code r = 200 \<and> cfg_GetConfig ''edge'' s' \<noteq> None"
  by (simp add: handleSave_def Let_def ex_request_def ex_trim ex_Parse validVendor_def Vendors_def ex_console_def
      over_limit_def cfg_MemStore_def cfg_GetConfig_def cfg_ListConfigs_def save_config_def cfg_PutConfig_def)

lemma accepted_config_is_audited_witness:
  "\<exists>s' fs. Collect cfg_MemStore (\<lambda>_. Inl '''') (\<lambda>_. None) \<lparr>t_Raw = '' edge'', t_Canonical = ''edge''\<rparr> s' = Some (Inr fs) \<and>
    cfg_GetConfig ''edge'' s' \<noteq> None"
proof -
  obtain r s' where run: "handleSave ex_console (\<lambda>_. Inl '''') (Some ex_request) ([], ()) = (r, s', ())" "rs_code r = 200"
    using ex_save by blast
  have "cn_Store ex_console = cfg_MemStore" by (simp add: ex_console_def)
  from accepted_config_is_audited [OF ex_cfgs_ok(2) this run] show ?thesis
    by (auto simp: ex_request_def ex_trim)
qed

lemma config_limit_kept_witness:
  "int (length (cfg_ListConfigs (fst (snd (handleSave ex_console (\<lambda>_. Inl '''') (Some ex_request) (ex_cfgs, ())))))) \<le> 1"
proof -
  have "cn_Store ex_console = cfg_MemStore" "cn_Caps ex_console = Some (\<lambda>_. 1)"
    "int (length (cfg_ListConfigs ex_cfgs)) \<le> 1" by (simp_all add: ex_console_def cfg_ListConfigs_def ex_cfgs_def)
  from config_limit_kept [OF ex_cfgs_ok(1) this(1,2) _ this(3)] show ?thesis by simp
qed

lemma equal_rules_share_fingerprint_witness:
  "\<exists>fs. Collect cfg_MemStore (\<lambda>_. Inl '''') (\<lambda>_. None) ex_target ex_cfgs = Some (Inr fs) \<and> \<not> distinct (map f_Fingerprint fs)"
proof -
  obtain fs where fs: "Collect cfg_MemStore (\<lambda>_. Inl '''') (\<lambda>_. None) ex_target ex_cfgs = Some (Inr fs)"
    using ex_collect by blast
  have g: "cfg_GetConfig (t_Canonical ex_target) ex_cfgs = Some ex_config" by (simp add: ex_target_def ex_cfgs_ok)
  have p: "Parse (\<lambda>_. Inl '''') (c_Vendor ex_config) (c_Current ex_config) = Inr (parseIptables ''iptables'' ex_text)"
    by (simp add: ex_config_def ex_Parse)
  have r: "resRules (parseIptables ''iptables'' ex_text) = [] @ ex_allow # [] @ ex_allow\<lparr>rIndex := 2\<rparr> # []" by (simp add: ex_parse)
  have u: "undescribed_allow ex_allow" "undescribed_allow (ex_allow\<lparr>rIndex := 2\<rparr>)"
    by (simp_all add: undescribed_allow_def ex_allow_def zero_rule_def str_eval)
  from equal_rules_share_fingerprint [OF g p r u _ fs] fs show ?thesis by (simp add: MatchKey_def)
qed

end
