(* ===== verification/Ulid.thy ===== *)
theory Ulid
  imports Store "HOL-Library.Word"
begin

unbundle bit_operations_syntax

text \<open>
  Package \<open>store\<close>, file \<open>ulid.go\<close>: identifiers of 48 bits of millisecond time and 80 random
  bits in Crockford's base 32. The words and the shifts are those of the code; a read of the system's
  randomness is a function from the state of its source to ten bytes or an error. The facts show that
  the loop over the two 64-bit halves prints the 128-bit number of the bytes, so that identifiers
  are distinct when the bytes are and sort by time.
\<close>

section \<open>The encoding\<close>

definition crockford :: string where
  "crockford = ''0123456789ABCDEFGHJKMNPQRSTVWXYZ''"

text \<open>\<open>binary.BigEndian.Uint64\<close>.\<close>

definition be_uint64 :: "8 word list \<Rightarrow> 64 word" where
  "be_uint64 bs = fold (\<lambda>b w. push_bit 8 w OR ucast b) bs 0"

text \<open>The loop writes \<open>out[i]\<close> from the last position to the first; \<open>out\<close> is what is already written.\<close>

fun crockford_loop :: "nat \<Rightarrow> 64 word \<Rightarrow> 64 word \<Rightarrow> string \<Rightarrow> string" where
  "crockford_loop 0 hi lo out = out"
| "crockford_loop (Suc k) hi lo out =
     crockford_loop k (drop_bit 5 hi) (drop_bit 5 lo OR push_bit 59 hi) (crockford ! unat (lo AND 0x1f) # out)"

definition encodeCrockford :: "8 word list \<Rightarrow> string" where
  "encodeCrockford b = crockford_loop 26 (be_uint64 (take 8 b)) (be_uint64 (take 8 (drop 8 b))) []"

text \<open>The six bytes of the time, which is a Unix time in milliseconds.\<close>

definition ulid_time :: "int \<Rightarrow> 8 word list" where
  "ulid_time unixMilli =
     (let ms = (word_of_int unixMilli :: 64 word) in
      map (\<lambda>s. ucast (drop_bit s ms)) [40, 32, 24, 16, 8, 0])"

definition NewULID :: "('g \<Rightarrow> (string + 8 word list) \<times> 'g) \<Rightarrow> int \<Rightarrow> 'g \<Rightarrow> (string + string) \<times> 'g" where
  "NewULID rand_Read unixMilli g =
     (case rand_Read g of
        (Inl err, g) \<Rightarrow> (Inl err, g)
      | (Inr r, g) \<Rightarrow> (Inr (encodeCrockford (ulid_time unixMilli @ r)), g))"

section \<open>The number that is printed\<close>

text \<open>The reference: the digits of a number in base 32.\<close>

fun base32 :: "nat \<Rightarrow> nat \<Rightarrow> string" where
  "base32 0 n = []"
| "base32 (Suc k) n = base32 k (n div 32) @ [crockford ! (n mod 32)]"

definition be_nat :: "8 word list \<Rightarrow> nat" where
  "be_nat bs = fold (\<lambda>b n. n * 256 + unat b) bs 0"

lemma shift_pair:
  fixes hi lo :: "64 word"
  shows "unat (drop_bit 5 hi) * 2 ^ 64 + unat (drop_bit 5 lo OR push_bit 59 hi) = (unat hi * 2 ^ 64 + unat lo) div 32"
proof -
  have "unat (drop_bit 5 lo OR push_bit 59 hi) = unat lo div 32 + (unat hi mod 32) * 2 ^ 59"
  proof -
    have "drop_bit 5 lo AND push_bit 59 hi = 0"
      by (rule bit_word_eqI) (auto simp: bit_and_iff bit_drop_bit_eq bit_push_bit_iff dest: bit_imp_le_length)
    then have "drop_bit 5 lo OR push_bit 59 hi = drop_bit 5 lo + push_bit 59 hi"
      by (simp add: disjunctive_add_eq_or)
    moreover have "unat (push_bit 59 hi) = (unat hi mod 32) * 2 ^ 59"
    proof -
      have "unat (push_bit 59 hi) = (2 ^ 59 * unat hi) mod 2 ^ 64"
        by (subst unsigned_push_bit_eq) (simp add: take_bit_eq_mod push_bit_eq_mult mult.commute)
      also have "\<dots> = 2 ^ 59 * (unat hi mod 2 ^ 5)"
        by (simp add: mult_mod_right)
      finally show ?thesis by simp
    qed
    moreover have "unat (drop_bit 5 lo) = unat lo div 32" by (simp add: unat_drop_bit_eq) (simp add: drop_bit_eq_div)
    moreover have "unat lo div 32 < 2 ^ 59" using unsigned_less [of lo, where ?'a = nat] by (simp add: div_less_iff_less_mult)
    moreover have "(unat hi mod 32) * 2 ^ 59 \<le> 31 * 2 ^ 59" by simp
    ultimately show ?thesis by (simp add: unat_word_ariths(1))
  qed
  moreover have "unat (drop_bit 5 hi) = unat hi div 32" by (simp add: unat_drop_bit_eq) (simp add: drop_bit_eq_div)
  moreover have "(unat hi div 32) * 2 ^ 64 + (unat hi mod 32) * 2 ^ 59 = unat hi * 2 ^ 59"
  proof -
    have "q * 2 ^ 64 + r * 2 ^ 59 = (q * 32 + r) * 2 ^ 59" for q r :: nat by simp
    then show ?thesis by (simp only: div_mult_mod_eq)
  qed
  ultimately show ?thesis by simp
qed

lemma low_digit:
  fixes hi lo :: "64 word"
  shows "unat (lo AND 0x1f) = (unat hi * 2 ^ 64 + unat lo) mod 32"
proof -
  have "unat (lo AND 0x1f) = unat lo mod 32"
  proof -
    have "lo AND 0x1f = take_bit 5 lo" by (simp add: take_bit_eq_mask mask_eq_exp_minus_1)
    then have "unat (lo AND 0x1f) = take_bit 5 (unat lo)" by (simp only: unsigned_take_bit_eq)
    then show ?thesis by (simp add: take_bit_eq_mod)
  qed
  moreover have "(unat hi * 2 ^ 64 + unat lo) mod 32 = unat lo mod 32"
    using mod_mult_self4 [of 32 "unat hi * 2 ^ 59" "unat lo"] by (simp add: mult.commute)
  ultimately show ?thesis by simp
qed

lemma crockford_loop_base32: "crockford_loop k hi lo out = base32 k (unat hi * 2 ^ 64 + unat lo) @ out"
proof (induction k arbitrary: hi lo out)
  case (Suc k)
  show ?case
    using Suc [of "drop_bit 5 hi" "drop_bit 5 lo OR push_bit 59 hi"]
    by (simp only: crockford_loop.simps shift_pair low_digit [of lo hi] base32.simps append_assoc append_Cons append_Nil)
qed simp

lemma be_nat_snoc [simp]: "be_nat (bs @ [b]) = be_nat bs * 256 + unat b"
  by (simp add: be_nat_def)

lemma be_nat_bound: "be_nat bs < 256 ^ length bs"
proof (induction bs rule: rev_induct)
  case (snoc b bs)
  have "unat b < 256" using unsigned_less [of b, where ?'a = nat] by simp
  with snoc show ?case by simp
qed (simp add: be_nat_def)

lemma be_nat_append: "be_nat (as @ bs) = be_nat as * 256 ^ length bs + be_nat bs"
proof (induction bs rule: rev_induct)
  case (snoc b bs)
  then show ?case unfolding append_assoc [symmetric] be_nat_snoc by (simp add: algebra_simps)
qed (simp add: be_nat_def)

lemma be_uint64_nat: "length bs \<le> 8 \<Longrightarrow> unat (be_uint64 bs) = be_nat bs"
proof (induction bs rule: rev_induct)
  case (snoc b bs)
  have "be_nat bs < 256 ^ 7"
    using be_nat_bound [of bs] snoc.prems power_increasing [of "length bs" 7 "256::nat"] by simp
  then have small: "be_nat bs * 256 < 2 ^ 64" by simp
  have un: "unat (be_uint64 bs) = be_nat bs" using snoc by simp
  have "push_bit 8 (be_uint64 bs) AND ucast b = 0"
    by (rule bit_word_eqI) (auto simp: bit_and_iff bit_push_bit_iff bit_ucast_iff dest: bit_imp_le_length)
  then have "be_uint64 (bs @ [b]) = push_bit 8 (be_uint64 bs) + ucast b"
    by (simp add: be_uint64_def disjunctive_add_eq_or)
  moreover have "unat (push_bit 8 (be_uint64 bs)) = be_nat bs * 256"
    by (subst unsigned_push_bit_eq) (use small un in \<open>simp add: take_bit_eq_mod push_bit_eq_mult\<close>)
  moreover have "unat (ucast b :: 64 word) = unat b" by (simp add: unsigned_ucast_eq take_bit_eq_mod)
      (use unsigned_less [of b, where ?'a = nat] in simp)
  moreover have "be_nat bs * 256 + unat b < 2 ^ 64"
    using be_nat_bound [of "bs @ [b]"] snoc.prems power_increasing [of "length (bs @ [b])" 8 "256::nat"] by simp
  ultimately show ?case by (simp add: unat_word_ariths(1))
qed (simp add: be_uint64_def be_nat_def)

lemma encode_base32: "length b = 16 \<Longrightarrow> encodeCrockford b = base32 26 (be_nat b)"
  using be_nat_append [of "take 8 b" "drop 8 b"]
  by (simp add: encodeCrockford_def crockford_loop_base32 be_uint64_nat)

section \<open>Order and round trip\<close>

lemma crockford_sorted: "sorted_wrt (<) crockford"
  by (simp add: crockford_def less_char_def)

lemma crockford_length: "length crockford = 32"
  by (simp add: crockford_def)

lemma crockford_less: "i < j \<Longrightarrow> j < 32 \<Longrightarrow> crockford ! i < crockford ! j"
  using crockford_sorted sorted_wrt_nth_less [of "(<)" crockford i j] by (simp add: crockford_length)

lemma length_base32 [simp]: "length (base32 k n) = k"
  by (induction k arbitrary: n) auto

lemma base32_less: "n < m \<Longrightarrow> m < 32 ^ k \<Longrightarrow> base32 k n < base32 k m"
proof (induction k arbitrary: n m)
  case (Suc k)
  have bound: "m div 32 < 32 ^ k" using Suc.prems(2) by (simp add: div_less_iff_less_mult mult.commute)
  have "n div 32 \<le> m div 32" using Suc.prems(1) by (simp add: div_le_mono)
  then consider "n div 32 < m div 32" | "n div 32 = m div 32" "n mod 32 < m mod 32"
    using Suc.prems(1) div_mult_mod_eq [of n 32] div_mult_mod_eq [of m 32]
    by (metis le_neq_implies_less nat_add_left_cancel_less)
  then show ?case
  proof cases
    case 1
    then have "base32 k (n div 32) < base32 k (m div 32)" using Suc.IH bound by blast
    then show ?thesis by (simp add: list_less_def lexord_sufI)
  next
    case 2
    then have "crockford ! (n mod 32) < crockford ! (m mod 32)" by (intro crockford_less) simp_all
    then show ?thesis by (simp add: 2(1) list_less_def lexord_append_leftI)
  qed
qed simp

text \<open>The reader of an identifier: the position of each symbol is a digit.\<close>

definition crockford_value :: "string \<Rightarrow> nat" where
  "crockford_value s = fold (\<lambda>c n. n * 32 + (case find_index (\<lambda>d. d = c) crockford of None \<Rightarrow> 0 | Some i \<Rightarrow> i)) s 0"

lemma crockford_index: "i < 32 \<Longrightarrow> find_index (\<lambda>d. d = crockford ! i) crockford = Some i"
proof -
  assume i: "i < 32"
  have "\<forall>i \<in> {..<32}. find_index (\<lambda>d. d = crockford ! i) crockford = Some i"
    unfolding crockford_def by code_simp
  with i show ?thesis by simp
qed

lemma crockford_value_base32: "n < 32 ^ k \<Longrightarrow> crockford_value (base32 k n) = n"
proof (induction k arbitrary: n)
  case (Suc k)
  then have "n div 32 < 32 ^ k" by (simp add: div_less_iff_less_mult mult.commute)
  with Suc.IH show ?case by (simp add: crockford_value_def crockford_index)
qed (simp add: crockford_value_def)

lemma be_nat_ulid_time:
  assumes "0 \<le> t" and "t < 2 ^ 48"
  shows "be_nat (ulid_time t) = nat t"
proof -
  define n where "n = nat t"
  have n: "n < 2 ^ 48" using assms by (simp add: n_def nat_less_iff)
  have un: "unat (word_of_int t :: 64 word) = n"
    using assms by (simp add: n_def unsigned_of_int take_bit_int_eq_self)
  have byte: "unat (ucast (drop_bit s (word_of_int t :: 64 word)) :: 8 word) = n div 2 ^ s mod 256" for s
    by (simp add: unsigned_ucast_eq unat_drop_bit_eq un) (simp add: take_bit_eq_mod drop_bit_eq_div)
  have step: "n div 2 ^ (s + 8) * 256 + n div 2 ^ s mod 256 = n div 2 ^ s" for s
  proof -
    have "n div 2 ^ (s + 8) = n div 2 ^ s div 256" by (simp add: power_add div_mult2_eq)
    then show ?thesis by (simp only: div_mult_mod_eq)
  qed
  have "n div 2 ^ 40 mod 256 = n div 2 ^ 40" using n by (simp add: div_less_iff_less_mult)
  then show ?thesis
    using step [of 32] step [of 24] step [of 16] step [of 8] byte [of 0]
    by (simp add: ulid_time_def Let_def be_nat_def byte n_def [symmetric] del: div_mult_mod_eq)
qed

lemma length_ulid_time [simp]: "length (ulid_time t) = 6"
  by (simp add: ulid_time_def Let_def)

text \<open>An identifier of 26 symbols can be read back: its symbols are the digits of the 128-bit number of the 16
  bytes, so different bytes give different identifiers.\<close>

theorem crockford_roundtrip:
  assumes "length b = 16"
  shows "length (encodeCrockford b) = 26 \<and> crockford_value (encodeCrockford b) = be_nat b"
proof -
  have "be_nat b < 32 ^ 26" using be_nat_bound [of b] assms by simp
  then show ?thesis by (simp add: encode_base32 [OF assms] crockford_value_base32)
qed

lemma crockford_roundtrip_witness:
  "length (encodeCrockford (replicate 16 255)) = 26 \<and> crockford_value (encodeCrockford (replicate 16 255)) = be_nat (replicate 16 255)"
  by (rule crockford_roundtrip) simp

text \<open>Identifiers sort by creation time: of two identifiers made at different milliseconds, up to the year
  10889, the earlier one is the smaller string, whatever the random bytes are.\<close>

theorem ulid_sorts_by_time:
  assumes "0 \<le> t1" and "t1 < t2" and "t2 < 2 ^ 48"
    and "\<forall>g. case rand_Read g of (Inl _, _) \<Rightarrow> True | (Inr r, _) \<Rightarrow> length r = 10"
    and "NewULID rand_Read t1 g1 = (Inr a, g1')" and "NewULID rand_Read t2 g2 = (Inr b, g2')"
  shows "a < b"
proof -
  obtain r1 where r1: "rand_Read g1 = (Inr r1, g1')" "a = encodeCrockford (ulid_time t1 @ r1)"
    using assms(5) by (auto simp: NewULID_def split: prod.splits sum.splits)
  obtain r2 where r2: "rand_Read g2 = (Inr r2, g2')" "b = encodeCrockford (ulid_time t2 @ r2)"
    using assms(6) by (auto simp: NewULID_def split: prod.splits sum.splits)
  have len: "length r1 = 10" "length r2 = 10" using assms(4) r1(1) r2(1) by (force split: prod.splits)+
  have num: "be_nat (ulid_time t1 @ r1) = nat t1 * 256 ^ 10 + be_nat r1"
    "be_nat (ulid_time t2 @ r2) = nat t2 * 256 ^ 10 + be_nat r2"
    using assms(1-3) len by (simp_all add: be_nat_append be_nat_ulid_time)
  have "nat t1 + 1 \<le> nat t2" using assms(1,2) by simp
  then have "(nat t1 + 1) * 256 ^ 10 \<le> nat t2 * 256 ^ 10" by (rule mult_le_mono1)
  moreover have "be_nat r1 < 256 ^ 10" using be_nat_bound [of r1] len by simp
  ultimately have "be_nat (ulid_time t1 @ r1) < be_nat (ulid_time t2 @ r2)" unfolding num by simp
  moreover have "be_nat (ulid_time t2 @ r2) < 32 ^ 26" using be_nat_bound [of "ulid_time t2 @ r2"] len by simp
  ultimately show ?thesis unfolding r1(2) r2(2) by (simp add: encode_base32 len base32_less)
qed

lemma ulid_sorts_by_time_witness:
  "encodeCrockford (ulid_time 5 @ replicate 10 255) < encodeCrockford (ulid_time 6 @ replicate 10 0)"
proof -
  define rnd where "rnd g = (Inr (if g then replicate 10 255 else replicate 10 0) :: string + 8 word list, g)" for g
  have "\<forall>g. case rnd g of (Inl _, _) \<Rightarrow> True | (Inr r, _) \<Rightarrow> length r = 10" by (simp add: rnd_def)
  from ulid_sorts_by_time [OF _ _ _ this, of 5 6 True _ True False _ False] show ?thesis
    by (simp add: NewULID_def rnd_def)
qed

end
