(* ===== verification/Notify.thy ===== *)
theory Notify
  imports Store "HOL-Library.AList" "HOL-Library.Multiset"
begin

text \<open>
  Package \<open>notify\<close>, file \<open>notify.go\<close>: the dispatcher that batches the transitions of findings into one
  digest per module and flush. Every method is one critical section, so it is a function on the
  dispatcher's state; the deliveries it starts are listed in \<open>ds_tasks\<close> and the timer is the deadline
  it was set to. The map of pending events is an association list; Go's digests of one flush are in
  any order of the modules. A channel is its name; what its attempts to send return is a function of
  the number of the attempt.
\<close>

section \<open>Events and digests\<close>

datatype EventKind = KindOpened | KindResolved

fun kind_str :: "EventKind \<Rightarrow> string" where
  "kind_str KindOpened = ''opened''"
| "kind_str KindResolved = ''resolved''"

record Event =
  ev_Kind :: EventKind
  ev_Module :: string
  ev_Finding :: Finding

record Digest =
  dg_Module :: string
  dg_Opened :: "Finding list"
  dg_Resolved :: "Finding list"
  dg_At :: int

definition Empty :: "Digest \<Rightarrow> bool" where
  "Empty d \<longleftrightarrow> length (dg_Opened d) = 0 \<and> length (dg_Resolved d) = 0"

section \<open>Configuration\<close>

text \<open>Durations are nanoseconds; \<open>MinSeverity\<close> is the string of the option, empty for none.\<close>

record NotifyConfig =
  nc_FlushInterval :: int
  nc_MaxBatch :: int
  nc_MinSeverity :: string
  nc_Retries :: int
  nc_RetryDelay :: int

definition notify_withDefaults :: "NotifyConfig \<Rightarrow> NotifyConfig" where
  "notify_withDefaults c =
     (let c = (if nc_FlushInterval c \<le> 0 then c\<lparr>nc_FlushInterval := 30 * 1000000000\<rparr> else c);
          c = (if nc_MaxBatch c \<le> 0 then c\<lparr>nc_MaxBatch := 100\<rparr> else c);
          c = (if nc_Retries c \<le> 0 then c\<lparr>nc_Retries := 3\<rparr> else c);
          c = (if nc_RetryDelay c \<le> 0 then c\<lparr>nc_RetryDelay := 5 * 1000000000\<rparr> else c)
      in c)"

fun notify_severityRank :: "Severity \<Rightarrow> int" where
  "notify_severityRank SeverityCritical = 4"
| "notify_severityRank SeverityHigh = 3"
| "notify_severityRank SeverityMedium = 2"
| "notify_severityRank SeverityLow = 1"
| "notify_severityRank SeverityInfo = 0"
| "notify_severityRank (SeverityUnknown _) = 0"

section \<open>The sort\<close>

text \<open>The inner loop of the insertion sort moves the finding at \<open>j\<close> down by swaps.\<close>

fun sort_down :: "nat \<Rightarrow> Finding list \<Rightarrow> Finding list" where
  "sort_down 0 fs = fs"
| "sort_down (Suc j) fs =
     (if notify_severityRank (f_Severity (fs ! Suc j)) > notify_severityRank (f_Severity (fs ! j))
      then sort_down j (fs[Suc j := fs ! j, j := fs ! Suc j])
      else fs)"

definition sortBySeverity :: "Finding list \<Rightarrow> Finding list" where
  "sortBySeverity fs = fold sort_down [1..<length fs] fs"

section \<open>The dispatcher\<close>

record Dispatcher =
  ds_cfg :: NotifyConfig
  ds_channels :: "string list"
  ds_pending :: "(string \<times> Event list) list"
  ds_seen :: "string list"
  ds_timer :: "int option"
  ds_closed :: bool
  ds_tasks :: "(string \<times> Digest) list"

definition NewDispatcher :: "NotifyConfig \<Rightarrow> string list \<Rightarrow> Dispatcher" where
  "NewDispatcher cfg channels =
     \<lparr>ds_cfg = notify_withDefaults cfg, ds_channels = channels, ds_pending = [], ds_seen = [], ds_timer = None,
      ds_closed = False, ds_tasks = []\<rparr>"

definition passesSeverity :: "Dispatcher \<Rightarrow> Severity \<Rightarrow> bool" where
  "passesSeverity d s =
     (if nc_MinSeverity (ds_cfg d) = '''' then True
      else notify_severityRank s \<ge> notify_severityRank (Severity_of (nc_MinSeverity (ds_cfg d))))"

fun digest_loop :: "Event list \<Rightarrow> Digest \<Rightarrow> Digest" where
  "digest_loop [] dg = dg"
| "digest_loop (e # es) dg =
     (case ev_Kind e of
        KindOpened \<Rightarrow> digest_loop es (dg\<lparr>dg_Opened := dg_Opened dg @ [ev_Finding e]\<rparr>)
      | KindResolved \<Rightarrow> digest_loop es (dg\<lparr>dg_Resolved := dg_Resolved dg @ [ev_Finding e]\<rparr>))"

definition make_digest :: "int \<Rightarrow> string \<times> Event list \<Rightarrow> Digest" where
  "make_digest now me =
     (let dg = digest_loop (snd me) \<lparr>dg_Module = fst me, dg_Opened = [], dg_Resolved = [], dg_At = now\<rparr>
      in dg\<lparr>dg_Opened := sortBySeverity (dg_Opened dg)\<rparr>)"

definition flushLocked :: "int \<Rightarrow> Dispatcher \<Rightarrow> Dispatcher" where
  "flushLocked now d =
     (let d = d\<lparr>ds_timer := None\<rparr> in
      if length (ds_pending d) = 0 then d
      else
        (let digests = map (make_digest now) (ds_pending d);
             tasks = concat (map (\<lambda>dg. if Empty dg then [] else map (\<lambda>ch. (ch, dg)) (ds_channels d)) digests)
         in d\<lparr>ds_pending := [], ds_seen := [], ds_tasks := ds_tasks d @ tasks\<rparr>))"

definition event_key :: "Event \<Rightarrow> string" where
  "event_key e = kind_str (ev_Kind e) @ ''|'' @ ev_Module e @ ''|'' @ f_Fingerprint (ev_Finding e)"

definition pending_of :: "Dispatcher \<Rightarrow> string \<Rightarrow> Event list" where
  "pending_of d m = (case map_of (ds_pending d) m of Some es \<Rightarrow> es | None \<Rightarrow> [])"

definition pending_total :: "(string \<times> Event list) list \<Rightarrow> int" where
  "pending_total ps = int (sum_list (map (length \<circ> snd) ps))"

definition Enqueue :: "int \<Rightarrow> Event \<Rightarrow> Dispatcher \<Rightarrow> Dispatcher" where
  "Enqueue now e d =
     (if ev_Kind e = KindOpened \<and> \<not> passesSeverity d (f_Severity (ev_Finding e)) then d
      else if ds_closed d then d
      else
        (let key = event_key e in
         if key \<in> set (ds_seen d) then d
         else
           (let d = d\<lparr>ds_seen := key # ds_seen d,
                      ds_pending := AList.update (ev_Module e) (pending_of d (ev_Module e) @ [e]) (ds_pending d)\<rparr>
            in if pending_total (ds_pending d) \<ge> nc_MaxBatch (ds_cfg d) then flushLocked now d
               else if ds_timer d = None then d\<lparr>ds_timer := Some (now + nc_FlushInterval (ds_cfg d))\<rparr>
               else d)))"

definition Flush :: "int \<Rightarrow> Dispatcher \<Rightarrow> Dispatcher" where
  "Flush now d = flushLocked now d"

definition Close :: "int \<Rightarrow> Dispatcher \<Rightarrow> Dispatcher" where
  "Close now d = (flushLocked now d)\<lparr>ds_closed := True\<rparr>"

section \<open>Delivery\<close>

text \<open>The attempts of \<open>sendWithRetry\<close>: the outcome of each, its number, the delays slept, and the error that is
  reported at the end.\<close>

function send_loop :: "(nat \<Rightarrow> string option) \<Rightarrow> int \<Rightarrow> int \<Rightarrow> nat \<Rightarrow> string option \<Rightarrow> nat \<times> int \<times> string option" where
  "send_loop send retries delay attempt err =
     (if int attempt < retries then
        (case send attempt of
           None \<Rightarrow> (attempt + 1, 0, None)
         | Some e \<Rightarrow>
             (let (n, slept, out) = send_loop send retries delay (attempt + 1) (Some e)
              in (n, (if int attempt < retries - 1 then delay else 0) + slept, out)))
      else (attempt, 0, err))"
  by pat_completeness auto
termination
  by (relation "measure (\<lambda>(send, retries, delay, attempt, err). nat (retries - int attempt))") auto

declare send_loop.simps [simp del]

definition sendWithRetry :: "(nat \<Rightarrow> string option) \<Rightarrow> Dispatcher \<Rightarrow> nat \<times> int \<times> string option" where
  "sendWithRetry send d = send_loop send (nc_Retries (ds_cfg d)) (nc_RetryDelay (ds_cfg d)) 0 None"

section \<open>The bridge from the scheduler\<close>

text \<open>File \<open>bridge.go\<close>: what the callback of \<open>BindScheduler\<close> enqueues for a scan's result. No earlier
  callback is set.\<close>

definition result_events :: "string \<Rightarrow> ReconcileResult \<Rightarrow> Event list" where
  "result_events module res =
     map (\<lambda>f. \<lparr>ev_Kind = KindOpened, ev_Module = module, ev_Finding = f\<rparr>) (rr_NewlyOpen res) @
     map (\<lambda>f. \<lparr>ev_Kind = KindResolved, ev_Module = module, ev_Finding = f\<rparr>) (rr_Resolved res)"

definition BindScheduler :: "int \<Rightarrow> string \<Rightarrow> ReconcileResult \<Rightarrow> Dispatcher \<Rightarrow> Dispatcher" where
  "BindScheduler now module res d = fold (Enqueue now) (result_events module res) d"

end
