(* ===== verification/NotifySpec.thy ===== *)
theory NotifySpec
  imports Notify
begin

text \<open>
  What the dispatcher guarantees. The insertion sort is the library's stable sort; a step relation
  over the calls of the dispatcher gives the reachable states, and its invariants that no accepted
  event is lost or sent twice to a channel, and that a timer runs whenever something is pending.
\<close>

section \<open>The sort is stable\<close>

abbreviation rank_of :: "Finding \<Rightarrow> int" where
  "rank_of f \<equiv> notify_severityRank (f_Severity f)"

definition insert_desc :: "Finding \<Rightarrow> Finding list \<Rightarrow> Finding list" where
  "insert_desc y xs =
     rev (dropWhile (\<lambda>x. rank_of x < rank_of y) (rev xs)) @ y # rev (takeWhile (\<lambda>x. rank_of x < rank_of y) (rev xs))"

lemma insert_desc_snoc:
  "insert_desc y (xs @ [x]) = (if rank_of x < rank_of y then insert_desc y xs @ [x] else xs @ [x, y])"
  by (simp add: insert_desc_def)

lemma sort_down_insert: "sort_down (length xs) (xs @ y # zs) = insert_desc y xs @ zs"
proof (induction xs arbitrary: zs rule: rev_induct)
  case Nil
  then show ?case by (simp add: insert_desc_def)
next
  case (snoc x xs)
  have "(xs @ [x]) @ y # zs = xs @ x # y # zs" by simp
  then show ?case
    using snoc [of "x # zs"]
    by (auto simp: insert_desc_snoc nth_append list_update_append)
qed

lemma insert_desc_Nil: "insert_desc y [] = [y]"
  by (simp add: insert_desc_def)

lemma insert_desc_set [simp]: "set (insert_desc y ys) = insert y (set ys)"
  by (induction ys rule: rev_induct) (auto simp: insert_desc_snoc insert_desc_Nil)

lemma insert_desc_mset: "mset (insert_desc y ys) = add_mset y (mset ys)"
  by (induction ys rule: rev_induct) (auto simp: insert_desc_snoc insert_desc_Nil)

lemma insert_desc_length [simp]: "length (insert_desc y ys) = Suc (length ys)"
  by (induction ys rule: rev_induct) (auto simp: insert_desc_snoc insert_desc_Nil)

lemma insert_desc_filter:
  "filter (\<lambda>x. rank_of x = k) (insert_desc y ys) = filter (\<lambda>x. rank_of x = k) (ys @ [y])"
  by (induction ys rule: rev_induct) (auto simp: insert_desc_snoc insert_desc_Nil)

lemma insert_desc_sorted:
  "sorted (map (\<lambda>x. - rank_of x) ys) \<Longrightarrow> sorted (map (\<lambda>x. - rank_of x) (insert_desc y ys))"
proof (induction ys rule: rev_induct)
  case (snoc x xs)
  then show ?case by (auto simp: insert_desc_snoc sorted_append intro: order_trans)
qed (simp add: insert_desc_Nil)

lemma insertion_sort_prefix:
  "k \<le> length fs \<Longrightarrow> fold sort_down [1..<k] fs = foldl (\<lambda>acc y. insert_desc y acc) [] (take k fs) @ drop k fs"
proof (induction k)
  case (Suc k)
  show ?case
  proof (cases k)
    case 0
    then show ?thesis using Suc.prems by (cases fs) (simp_all add: insert_desc_def)
  next
    case (Suc k')
    let ?acc = "foldl (\<lambda>acc y. insert_desc y acc) [] (take k fs)"
    have len: "length (foldl (\<lambda>acc y. insert_desc y acc) [] xs) = length xs" for xs
      by (induction xs rule: rev_induct) simp_all
    have "fold sort_down [1..<Suc k] fs = sort_down k (?acc @ drop k fs)"
      using Suc Suc.IH Suc.prems by simp
    also have "drop k fs = fs ! k # drop (Suc k) fs" using Suc.prems by (simp add: Cons_nth_drop_Suc)
    also have "sort_down k (?acc @ fs ! k # drop (Suc k) fs) = insert_desc (fs ! k) ?acc @ drop (Suc k) fs"
      using sort_down_insert [of ?acc] len [of "take k fs"] Suc.prems by simp
    finally show ?thesis using Suc.prems by (simp add: take_Suc_conv_app_nth)
  qed
qed simp

lemma sortBySeverity_sort_key: "sortBySeverity fs = sort_key (\<lambda>f. - rank_of f) fs"
proof -
  define S where "S xs = foldl (\<lambda>acc y. insert_desc y acc) [] xs" for xs
  have nil: "S [] = []" by (simp add: S_def)
  have snoc: "S (xs @ [x]) = insert_desc x (S xs)" for xs x by (simp add: S_def)
  have S: "mset (S xs) = mset xs" "sorted (map (\<lambda>f. - rank_of f) (S xs))"
    "filter (\<lambda>x. rank_of x = k) (S xs) = filter (\<lambda>x. rank_of x = k) xs" for xs k
    by (induction xs rule: rev_induct)
      (simp_all add: nil snoc insert_desc_mset insert_desc_sorted insert_desc_filter)
  have "sortBySeverity fs = S fs"
    using insertion_sort_prefix [of "length fs" fs] by (simp add: sortBySeverity_def S_def)
  moreover have "sort_key (\<lambda>f. - rank_of f) fs = S fs"
  proof (rule properties_for_sort_key)
    fix k assume "k \<in> set (S fs)"
    have "(- rank_of k = - rank_of x) = (rank_of x = rank_of k)" for x by auto
    then show "filter (\<lambda>x. - rank_of k = - rank_of x) (S fs) = filter (\<lambda>x. - rank_of k = - rank_of x) fs"
      using S(3) [of "rank_of k" fs] by simp
  qed (use S(1,2) in auto)
  ultimately show ?thesis by simp
qed

section \<open>Reachable states\<close>

text \<open>The events an enqueue takes in.\<close>

definition accepts :: "Dispatcher \<Rightarrow> Event \<Rightarrow> bool" where
  "accepts d e \<longleftrightarrow> (ev_Kind e = KindOpened \<longrightarrow> passesSeverity d (f_Severity (ev_Finding e))) \<and> \<not> ds_closed d \<and>
     event_key e \<notin> set (ds_seen d)"

text \<open>
  The calls of a dispatcher in any order, at any times; a timer fires only when one runs. The
  list is of the events taken in so far.
\<close>

inductive reachable :: "NotifyConfig \<Rightarrow> string list \<Rightarrow> Event list \<Rightarrow> Dispatcher \<Rightarrow> bool"
  for cfg :: NotifyConfig and channels :: "string list" where
  start: "reachable cfg channels [] (NewDispatcher cfg channels)"
| enqueue: "reachable cfg channels log d \<Longrightarrow>
    reachable cfg channels (if accepts d e then log @ [e] else log) (Enqueue now e d)"
| fire: "reachable cfg channels log d \<Longrightarrow> ds_timer d \<noteq> None \<Longrightarrow> reachable cfg channels log (Flush now d)"
| flush: "reachable cfg channels log d \<Longrightarrow> reachable cfg channels log (Flush now d)"
| close: "reachable cfg channels log d \<Longrightarrow> reachable cfg channels log (Close now d)"

text \<open>The events of a digest, and those given to one channel.\<close>

definition digest_events :: "Digest \<Rightarrow> Event multiset" where
  "digest_events dg =
     image_mset (\<lambda>f. \<lparr>ev_Kind = KindOpened, ev_Module = dg_Module dg, ev_Finding = f\<rparr>) (mset (dg_Opened dg)) +
     image_mset (\<lambda>f. \<lparr>ev_Kind = KindResolved, ev_Module = dg_Module dg, ev_Finding = f\<rparr>) (mset (dg_Resolved dg))"

definition tasks_of :: "string \<Rightarrow> Dispatcher \<Rightarrow> Digest list" where
  "tasks_of ch d = map snd (filter (\<lambda>t. fst t = ch) (ds_tasks d))"

definition sent_to :: "string \<Rightarrow> Dispatcher \<Rightarrow> Event multiset" where
  "sent_to ch d = \<Sum>\<^sub># (image_mset digest_events (mset (tasks_of ch d)))"

definition pending_events :: "Dispatcher \<Rightarrow> Event multiset" where
  "pending_events d = \<Sum>\<^sub># (image_mset (\<lambda>me. mset (snd me)) (mset (ds_pending d)))"

lemma digest_loop_fields:
  "digest_loop es dg = dg\<lparr>
     dg_Opened := dg_Opened dg @ map ev_Finding (filter (\<lambda>e. ev_Kind e = KindOpened) es),
     dg_Resolved := dg_Resolved dg @ map ev_Finding (filter (\<lambda>e. ev_Kind e = KindResolved) es)\<rparr>"
  by (induction es arbitrary: dg) (auto split: EventKind.split)

lemma make_digest_fields:
  "dg_Module (make_digest now me) = fst me"
  "dg_Opened (make_digest now me) = sortBySeverity (map ev_Finding (filter (\<lambda>e. ev_Kind e = KindOpened) (snd me)))"
  "dg_Resolved (make_digest now me) = map ev_Finding (filter (\<lambda>e. ev_Kind e = KindResolved) (snd me))"
  by (simp_all add: make_digest_def Let_def digest_loop_fields)

lemma digest_events_make:
  assumes "\<forall>e \<in> set es. ev_Module e = m"
  shows "digest_events (make_digest now (m, es)) = mset es"
proof -
  have "image_mset (\<lambda>f. \<lparr>ev_Kind = KindOpened, ev_Module = m, ev_Finding = f\<rparr>)
      (image_mset ev_Finding (filter_mset (\<lambda>e. ev_Kind e = KindOpened) (mset es))) +
    image_mset (\<lambda>f. \<lparr>ev_Kind = KindResolved, ev_Module = m, ev_Finding = f\<rparr>)
      (image_mset ev_Finding (filter_mset (\<lambda>e. ev_Kind e = KindResolved) (mset es))) = mset es"
    using assms
  proof (induction es)
    case (Cons e es)
    then show ?case by (cases "ev_Kind e"; cases e) simp_all
  qed simp
  then show ?thesis
    by (simp add: digest_events_def make_digest_fields sortBySeverity_sort_key mset_filter)
qed

lemma Empty_no_events: "Empty dg \<Longrightarrow> digest_events dg = {#}"
  by (simp add: Empty_def digest_events_def)

section \<open>A flush sends everything that is pending\<close>

definition modules_ok :: "Dispatcher \<Rightarrow> bool" where
  "modules_ok d \<longleftrightarrow> distinct (map fst (ds_pending d)) \<and>
     list_all (\<lambda>me. snd me \<noteq> [] \<and> list_all (\<lambda>e. ev_Module e = fst me) (snd me)) (ds_pending d)"

lemma one_task: "distinct cs \<Longrightarrow> c \<in> set cs \<Longrightarrow> filter (\<lambda>t. fst t = c) (map (\<lambda>ch. (ch, dg)) cs) = [(c, dg)]"
proof (induction cs)
  case (Cons a cs)
  have "c \<notin> set cs \<Longrightarrow> filter (\<lambda>t. fst t = c) (map (\<lambda>ch. (ch, dg)) cs) = []" by (auto simp: filter_empty_conv)
  with Cons show ?case by auto
qed simp

lemma flush_tasks:
  assumes "distinct (ds_channels d)" and "ch \<in> set (ds_channels d)"
  shows "tasks_of ch (flushLocked now d) =
    tasks_of ch d @ filter (\<lambda>dg. \<not> Empty dg) (map (make_digest now) (ds_pending d))"
proof -
  have "map snd (filter (\<lambda>t. fst t = ch)
      (concat (map (\<lambda>dg. if Empty dg then [] else map (\<lambda>c. (c, dg)) (ds_channels d)) dgs))) = filter (\<lambda>dg. \<not> Empty dg) dgs" for dgs
    by (induction dgs) (simp_all add: one_task [OF assms])
  from this [of "map (make_digest now) (ds_pending d)"] show ?thesis
    by (cases "ds_pending d = []") (simp_all add: tasks_of_def flushLocked_def Let_def del: map_map cong: if_cong)
qed

lemma flush_fields [simp]:
  "ds_pending (flushLocked now d) = []" "ds_timer (flushLocked now d) = None"
  "ds_channels (flushLocked now d) = ds_channels d" "ds_cfg (flushLocked now d) = ds_cfg d"
  "ds_closed (flushLocked now d) = ds_closed d"
  by (simp_all add: flushLocked_def Let_def)

lemma flush_seen: "ds_seen (flushLocked now d) = (if ds_pending d = [] then ds_seen d else [])"
  by (simp add: flushLocked_def Let_def)

lemma flush_sends:
  assumes "distinct (ds_channels d)" and "ch \<in> set (ds_channels d)" and "modules_ok d"
  shows "sent_to ch (flushLocked now d) = sent_to ch d + pending_events d"
proof -
  have dg: "digest_events (make_digest now me) = mset (snd me)" if "me \<in> set (ds_pending d)" for me
    using digest_events_make [of "snd me" "fst me" now] that assms(3)
    by (simp add: modules_ok_def list_all_iff)
  have "(\<Sum>\<^sub># (image_mset digest_events (mset (filter (\<lambda>dg. \<not> Empty dg) (map (make_digest now) ps))))) =
      (\<Sum>\<^sub># (image_mset (\<lambda>me. mset (snd me)) (mset ps)))" if "set ps \<subseteq> set (ds_pending d)" for ps
    using that by (induction ps) (auto simp: dg dest: Empty_no_events)
  from this [of "ds_pending d"] show ?thesis
    by (simp add: sent_to_def flush_tasks [OF assms(1,2)] pending_events_def)
qed

section \<open>The invariant\<close>

definition events_inv :: "NotifyConfig \<Rightarrow> string list \<Rightarrow> Event list \<Rightarrow> Dispatcher \<Rightarrow> bool" where
  "events_inv cfg channels log d \<longleftrightarrow>
     ds_cfg d = notify_withDefaults cfg \<and> ds_channels d = channels \<and> modules_ok d \<and>
     set (ds_seen d) = event_key ` set_mset (pending_events d) \<and>
     (\<forall>k. count (image_mset event_key (pending_events d)) k \<le> 1) \<and>
     (ds_closed d \<longrightarrow> ds_pending d = []) \<and>
     (distinct channels \<longrightarrow> (\<forall>ch \<in> set channels. sent_to ch d + pending_events d = mset log))"

definition dispatcher_inv :: "NotifyConfig \<Rightarrow> string list \<Rightarrow> Event list \<Rightarrow> Dispatcher \<Rightarrow> bool" where
  "dispatcher_inv cfg channels log d \<longleftrightarrow>
     events_inv cfg channels log d \<and> pending_total (ds_pending d) < nc_MaxBatch (ds_cfg d) \<and>
     (ds_pending d \<noteq> [] \<longrightarrow> ds_timer d \<noteq> None)"

lemma pending_events_set: "set_mset (pending_events d) = set (concat (map snd (ds_pending d)))"
  by (auto simp: pending_events_def)

lemma MaxBatch_pos: "1 \<le> nc_MaxBatch (notify_withDefaults cfg)"
  by (simp add: notify_withDefaults_def Let_def)

lemma sent_to_cong: "ds_tasks d' = ds_tasks d \<Longrightarrow> sent_to ch d' = sent_to ch d"
  by (simp add: sent_to_def tasks_of_def)

lemma inv_flush:
  assumes "events_inv cfg channels log d"
  shows "dispatcher_inv cfg channels log (flushLocked now d)"
proof -
  have ok: "modules_ok d" "ds_channels d = channels" "ds_cfg d = notify_withDefaults cfg"
    using assms by (simp_all add: events_inv_def)
  have none: "pending_events (flushLocked now d) = {#}" by (simp add: pending_events_def)
  have "sent_to ch (flushLocked now d) + pending_events (flushLocked now d) = mset log"
    if "distinct channels" "ch \<in> set channels" for ch
    using flush_sends [of d ch now] ok that assms none by (simp add: events_inv_def)
  moreover have "set (ds_seen (flushLocked now d)) = {}"
    using assms by (auto simp: events_inv_def flush_seen pending_events_set)
  ultimately have "events_inv cfg channels log (flushLocked now d)"
    using ok by (simp add: events_inv_def modules_ok_def none)
  then show ?thesis
    using ok MaxBatch_pos [of cfg] by (simp add: dispatcher_inv_def pending_total_def)
qed

section \<open>An enqueue keeps the invariant\<close>

definition add_event :: "Event \<Rightarrow> Dispatcher \<Rightarrow> Dispatcher" where
  "add_event e d = d\<lparr>ds_seen := event_key e # ds_seen d,
     ds_pending := AList.update (ev_Module e) (pending_of d (ev_Module e) @ [e]) (ds_pending d)\<rparr>"

lemma Enqueue_cases:
  "Enqueue now e d =
     (if \<not> accepts d e then d
      else if pending_total (ds_pending (add_event e d)) \<ge> nc_MaxBatch (ds_cfg d) then flushLocked now (add_event e d)
      else if ds_timer d = None then (add_event e d)\<lparr>ds_timer := Some (now + nc_FlushInterval (ds_cfg d))\<rparr>
      else add_event e d)"
  by (auto simp: Enqueue_def accepts_def add_event_def Let_def)

lemma update_pending:
  assumes "distinct (map fst ps)"
  shows "\<Sum>\<^sub># (image_mset (\<lambda>me. mset (snd me)) (mset (AList.update m ((case map_of ps m of Some es \<Rightarrow> es | None \<Rightarrow> []) @ [e]) ps))) =
    add_mset e (\<Sum>\<^sub># (image_mset (\<lambda>me. mset (snd me)) (mset ps)))"
  using assms
proof (induction ps)
  case (Cons p ps)
  show ?case
  proof (cases "fst p = m")
    case True
    then show ?thesis by (cases p) simp
  next
    case False
    then show ?thesis using Cons by (cases p) auto
  qed
qed simp

lemma add_event_pending:
  assumes "modules_ok d"
  shows "pending_events (add_event e d) = add_mset e (pending_events d)"
  using update_pending [of "ds_pending d" "ev_Module e" e] assms
  by (simp add: pending_events_def add_event_def pending_of_def modules_ok_def)

lemma pending_total_size: "pending_total (ds_pending d) = int (size (pending_events d))"
proof -
  have "sum_list (map (length \<circ> snd) ps) = size (\<Sum>\<^sub># (image_mset (\<lambda>me. mset (snd me)) (mset ps)))" for ps :: "(string \<times> Event list) list"
    by (induction ps) simp_all
  then show ?thesis by (simp add: pending_total_def pending_events_def)
qed

lemma pending_mset: "pending_events d = mset (concat (map snd (ds_pending d)))"
proof -
  have "\<Sum>\<^sub># (image_mset (\<lambda>me. mset (snd me)) (mset ps)) = mset (concat (map snd ps))" for ps :: "(string \<times> Event list) list"
    by (induction ps) simp_all
  then show ?thesis by (simp add: pending_events_def)
qed

lemma add_event_modules_ok: "modules_ok d \<Longrightarrow> modules_ok (add_event e d)"
proof -
  assume ok: "modules_ok d"
  have "list_all (\<lambda>e'. ev_Module e' = ev_Module e) (pending_of d (ev_Module e))"
    using ok by (auto simp: pending_of_def modules_ok_def list_all_iff split: option.splits dest!: map_of_SomeD)
  moreover have "set (AList.update k v ps) \<subseteq> insert (k, v) (set ps)" for k v and ps :: "(string \<times> Event list) list"
    by (induction ps) auto
  note this [of "ev_Module e" "pending_of d (ev_Module e) @ [e]" "ds_pending d"]
  ultimately show "modules_ok (add_event e d)"
    using ok by (fastforce simp: modules_ok_def add_event_def list_all_iff distinct_update)
qed

lemma pending_eq: "pending_events d' = pending_events d" if "ds_pending d' = ds_pending d"
  using that by (simp add: pending_events_def)

lemma add_event_fields [simp]:
  "ds_channels (add_event e d) = ds_channels d" "ds_cfg (add_event e d) = ds_cfg d"
  "ds_closed (add_event e d) = ds_closed d" "ds_timer (add_event e d) = ds_timer d"
  "ds_tasks (add_event e d) = ds_tasks d" "ds_seen (add_event e d) = event_key e # ds_seen d"
  by (simp_all add: add_event_def)

lemma inv_add_event:
  assumes inv: "events_inv cfg channels log d" and acc: "accepts d e"
  shows "events_inv cfg channels (log @ [e]) (add_event e d)"
proof -
  have ok: "modules_ok d" using inv by (simp add: events_inv_def)
  note pend = add_event_pending [OF ok, of e]
  have sent: "sent_to ch (add_event e d) = sent_to ch d" for ch by (rule sent_to_cong) simp
  have "event_key e \<notin> event_key ` set_mset (pending_events d)"
    using inv acc by (simp add: events_inv_def accepts_def)
  then have "count (image_mset event_key (pending_events d)) (event_key e) = 0"
    by (simp add: count_eq_zero_iff)
  then have "\<forall>k. count (image_mset event_key (pending_events (add_event e d))) k \<le> 1"
    using inv by (simp add: pend events_inv_def)
  moreover have "set (ds_seen (add_event e d)) = event_key ` set_mset (pending_events (add_event e d))"
    using inv by (simp add: pend events_inv_def)
  moreover have "\<not> ds_closed d" using acc by (simp add: accepts_def)
  ultimately show ?thesis
    using inv ok add_event_modules_ok [OF ok, of e] by (simp add: events_inv_def sent pend)
qed

lemma events_inv_timer: "events_inv cfg channels log (d\<lparr>ds_timer := t\<rparr>) = events_inv cfg channels log d"
proof -
  have "pending_events (d\<lparr>ds_timer := t\<rparr>) = pending_events d" by (rule pending_eq) simp
  moreover have "sent_to ch (d\<lparr>ds_timer := t\<rparr>) = sent_to ch d" for ch by (rule sent_to_cong) simp
  ultimately show ?thesis by (simp add: events_inv_def modules_ok_def)
qed

lemma inv_enqueue:
  assumes "dispatcher_inv cfg channels log d"
  shows "dispatcher_inv cfg channels (if accepts d e then log @ [e] else log) (Enqueue now e d)"
proof (cases "accepts d e")
  case True
  have add: "events_inv cfg channels (log @ [e]) (add_event e d)"
    using inv_add_event [OF _ True] assms by (simp add: dispatcher_inv_def)
  from inv_flush [OF this] show ?thesis
    using True add by (auto simp: Enqueue_cases dispatcher_inv_def events_inv_timer not_le)
next
  case False
  then show ?thesis using assms by (simp add: Enqueue_cases)
qed

lemma inv_close:
  assumes "dispatcher_inv cfg channels log d" and that: "ds_pending d = []"
  shows "dispatcher_inv cfg channels log (d\<lparr>ds_closed := True\<rparr>)"
proof -
  have "pending_events (d\<lparr>ds_closed := True\<rparr>) = pending_events d" by (rule pending_eq) simp
  moreover have "sent_to ch (d\<lparr>ds_closed := True\<rparr>) = sent_to ch d" for ch by (rule sent_to_cong) simp
  ultimately show ?thesis using assms that by (auto simp: dispatcher_inv_def events_inv_def modules_ok_def)
qed

lemma reachable_inv: "reachable cfg channels log d \<Longrightarrow> dispatcher_inv cfg channels log d"
proof (induction rule: reachable.induct)
  case start
  show ?case
    using MaxBatch_pos [of cfg]
    by (simp add: dispatcher_inv_def events_inv_def NewDispatcher_def modules_ok_def pending_events_def
        sent_to_def tasks_of_def pending_total_def)
next
  case (enqueue log d e now)
  from inv_enqueue [OF enqueue.IH] show ?case .
next
  case (fire log d now)
  then show ?case by (simp add: Flush_def dispatcher_inv_def [of _ _ _ d] inv_flush)
next
  case (flush log d now)
  then show ?case by (simp add: Flush_def dispatcher_inv_def [of _ _ _ d] inv_flush)
next
  case (close log d now)
  have "dispatcher_inv cfg channels log (flushLocked now d)"
    using close.IH by (intro inv_flush) (simp add: dispatcher_inv_def)
  from inv_close [OF this] show ?case by (simp add: Close_def)
qed

section \<open>Retries\<close>

lemma send_loop_run:
  assumes "\<forall>i. int (a + i) < r \<longrightarrow> i < k \<longrightarrow> send (a + i) \<noteq> None" and "int (a + k) \<le> r"
  shows "send_loop send r dl a err =
    (let (n, slept, out) = send_loop send r dl (a + k) (if k = 0 then err else send (a + k - 1))
     in (n, int (if int (a + k) < r then k else k - 1) * dl + slept, out))"
  using assms
proof (induction k arbitrary: a err)
  case (Suc k)
  have lt: "int a < r" using Suc.prems(2) by simp
  obtain e where e: "send a = Some e" using Suc.prems(1) [rule_format, of 0] lt by auto
  have IH: "send_loop send r dl (Suc a) (Some e) =
    (let (n, slept, out) = send_loop send r dl (Suc a + k) (if k = 0 then Some e else send (Suc a + k - 1))
     in (n, int (if int (Suc a + k) < r then k else k - 1) * dl + slept, out))"
  proof (intro Suc.IH allI impI)
    fix i assume "int (Suc a + i) < r" "i < k"
    then show "send (Suc a + i) \<noteq> None" using Suc.prems(1) [rule_format, of "Suc i"] by simp
  qed (use Suc.prems in simp)
  have "(if k = 0 then Some e else send (Suc a + k - 1)) = send (a + Suc k - 1)"
    using e by (cases k) simp_all
  then show ?case
    using lt e IH Suc.prems(2)
    by (subst send_loop.simps) (auto simp: Let_def algebra_simps split: prod.split)
qed (simp add: Let_def split: prod.split)

lemma send_loop_success: "int a < r \<Longrightarrow> send a = None \<Longrightarrow> send_loop send r dl a err = (a + 1, 0, None)"
  by (simp add: send_loop.simps)

lemma send_loop_end: "int a \<ge> r \<Longrightarrow> send_loop send r dl a err = (a, 0, err)"
  by (simp add: send_loop.simps)

text \<open>C32: The first attempt that succeeds ends the retries, after one delay per failure before it; when none of the
  configured attempts does, the error of the last one is reported and no delay follows it.\<close>

theorem retries_exact:
  "sendWithRetry send d =
     (let r = nat (nc_Retries (ds_cfg d)); oks = filter (\<lambda>i. send i = None) [0..<r]
      in if oks = [] then (r, int (r - 1) * nc_RetryDelay (ds_cfg d), if r = 0 then None else send (r - 1))
         else (hd oks + 1, int (hd oks) * nc_RetryDelay (ds_cfg d), None))"
proof -
  define r where "r = nat (nc_Retries (ds_cfg d))"
  define oks where "oks = filter (\<lambda>i. send i = None) [0..<r]"
  let ?dl = "nc_RetryDelay (ds_cfg d)"
  have loop: "sendWithRetry send d = send_loop send (int r) ?dl 0 None"
    by (cases "0 \<le> nc_Retries (ds_cfg d)") (simp_all add: sendWithRetry_def r_def send_loop_end)
  have "sendWithRetry send d = (if oks = [] then (r, int (r - 1) * ?dl, if r = 0 then None else send (r - 1))
         else (hd oks + 1, int (hd oks) * ?dl, None))"
  proof (cases oks)
    case Nil
    then have "\<forall>i<r. send i \<noteq> None" by (auto simp: oks_def filter_empty_conv)
    then show ?thesis
      using send_loop_run [of 0 "int r" r send ?dl None] Nil by (simp add: loop send_loop_end)
  next
    case (Cons k ks)
    from Cons have k: "k < r" "send k = None" by (auto simp: oks_def dest!: arg_cong [of _ _ set])
    have "\<forall>i<k. send i \<noteq> None"
    proof (intro allI impI)
      fix i assume "i < k"
      have "i \<in> set oks \<Longrightarrow> k \<le> i"
        using sorted_wrt_filter [OF sorted_upt, of "\<lambda>i. send i = None" 0 r] Cons
        by (fold oks_def) auto
      then show "send i \<noteq> None" using \<open>i < k\<close> k(1) by (auto simp: oks_def)
    qed
    then show ?thesis
      using send_loop_run [of 0 "int r" k send ?dl None] Cons k
      by (simp add: loop send_loop_success)
  qed
  then show ?thesis by (simp add: r_def oks_def Let_def)
qed

section \<open>Properties of the dispatcher\<close>

definition ex_event :: Event where
  "ex_event = \<lparr>ev_Kind = KindOpened, ev_Module = ''rulehawk'',
     ev_Finding = \<lparr>f_Fingerprint = ''f1'', f_Target = ''edge'', f_Check = ''any-any'', f_Title = ''wide rule'',
       f_Severity = SeverityHigh, f_Remediation = ''narrow it'', f_Evidence = None, f_ID = ''1'', f_Module = ''rulehawk'',
       f_Status = StatusOpen, f_GroupID = None, f_FirstSeen = 5, f_LastSeen = 5, f_ResolvedAt = None\<rparr>\<rparr>"

definition ex_config :: NotifyConfig where
  "ex_config = \<lparr>nc_FlushInterval = 0, nc_MaxBatch = 0, nc_MinSeverity = ''medium'', nc_Retries = 0, nc_RetryDelay = 0\<rparr>"

text \<open>C30: Whatever the order of enqueues, timer flushes, flushes and closes, each channel has been handed exactly the
  events taken in and not still pending, each once, and a flush hands over the rest.\<close>

theorem no_event_lost:
  assumes "reachable cfg channels log d" and "distinct channels" and "ch \<in> set channels"
  shows "sent_to ch d + pending_events d = mset log \<and> sent_to ch (Flush now d) = mset log"
proof -
  from reachable_inv [OF assms(1)] have inv: "events_inv cfg channels log d" by (simp add: dispatcher_inv_def)
  then have "sent_to ch d + pending_events d = mset log" using assms(2,3) by (simp add: events_inv_def)
  moreover have "sent_to ch (Flush now d) = sent_to ch d + pending_events d"
    using flush_sends [of d ch now] inv assms(2,3) by (simp add: events_inv_def Flush_def)
  ultimately show ?thesis by simp
qed

lemma ex_reachable:
  "reachable ex_config [''slack''] [ex_event] (Enqueue 7 ex_event (NewDispatcher ex_config [''slack'']))"
proof -
  have "accepts (NewDispatcher ex_config [''slack'']) ex_event"
    by (simp add: accepts_def NewDispatcher_def passesSeverity_def ex_event_def ex_config_def
        notify_withDefaults_def Let_def Severity_of_def)
  then show ?thesis
    using reachable.enqueue [OF reachable.start, of ex_config "[''slack'']" ex_event 7] by simp
qed

theorem no_event_lost_witness:
  "sent_to ''slack'' (Flush 9 (Enqueue 7 ex_event (NewDispatcher ex_config [''slack'']))) = {#ex_event#}"
  using no_event_lost [OF ex_reachable, of "''slack''" 9] by simp

text \<open>Between two calls fewer events than the batch bound are pending, no two of them have the same kind, module and
  fingerprint, and a timer runs whenever one is pending.\<close>

theorem pending_is_bounded_and_timed:
  assumes "reachable cfg channels log d"
  shows "int (size (pending_events d)) < nc_MaxBatch (notify_withDefaults cfg) \<and>
    distinct (map event_key (concat (map snd (ds_pending d)))) \<and> (ds_pending d \<noteq> [] \<longrightarrow> ds_timer d \<noteq> None)"
proof -
  from reachable_inv [OF assms] have inv: "dispatcher_inv cfg channels log d" .
  define ks where "ks = map event_key (concat (map snd (ds_pending d)))"
  have le: "count (mset ks) k \<le> 1" for k
    using inv by (simp add: dispatcher_inv_def events_inv_def pending_mset ks_def)
  have "count (mset ks) k = (if k \<in> set ks then 1 else 0)" for k
    using le [of k] count_greater_zero_iff [of "mset ks" k]
    by (cases "k \<in> set ks") (simp_all del: count_greater_zero_iff add: count_eq_zero_iff)
  then have "distinct ks" by (simp add: distinct_count_atmost_1)
  then show ?thesis
    using inv by (auto simp: dispatcher_inv_def events_inv_def pending_total_size ks_def)
qed

theorem pending_is_bounded_and_timed_witness:
  "ds_timer (Enqueue 7 ex_event (NewDispatcher ex_config [''slack''])) \<noteq> None"
proof -
  have "ds_pending (Enqueue 7 ex_event (NewDispatcher ex_config [''slack''])) \<noteq> []"
    by (simp add: Enqueue_def NewDispatcher_def passesSeverity_def ex_event_def ex_config_def
        notify_withDefaults_def Let_def Severity_of_def pending_of_def pending_total_def)
  with pending_is_bounded_and_timed [OF ex_reachable] show ?thesis by simp
qed

section \<open>From a scan to the channels\<close>

lemma Enqueue_open [simp]: "ds_closed (Enqueue now e d) = ds_closed d" "ds_cfg (Enqueue now e d) = ds_cfg d"
  "ds_channels (Enqueue now e d) = ds_channels d"
  by (simp_all add: Enqueue_cases)

text \<open>The events an enqueue has to pass on: all but openings below the severity floor.\<close>

definition wanted :: "Dispatcher \<Rightarrow> Event \<Rightarrow> bool" where
  "wanted d e \<longleftrightarrow> (ev_Kind e = KindOpened \<longrightarrow> passesSeverity d (f_Severity (ev_Finding e)))"

lemma Enqueue_pending:
  assumes "modules_ok d"
  shows "set_mset (pending_events (Enqueue now e d)) \<subseteq>
    set_mset (pending_events d) \<union> set (if accepts d e then [e] else [])"
proof -
  have "pending_events (flushLocked now (add_event e d)) = {#}" by (simp add: pending_events_def)
  moreover have "pending_events ((add_event e d)\<lparr>ds_timer := t\<rparr>) = pending_events (add_event e d)" for t
    by (rule pending_eq) simp
  ultimately show ?thesis by (auto simp: Enqueue_cases add_event_pending [OF assms])
qed

lemma fold_Enqueue_reachable:
  assumes "reachable cfg channels log d" and "\<not> ds_closed d"
  shows "\<exists>log'. reachable cfg channels (log @ log') (fold (Enqueue now) es d) \<and>
    set log' \<subseteq> set es \<and>
    (\<forall>e \<in> set es. wanted d e \<longrightarrow> event_key e \<in> event_key ` (set_mset (pending_events d) \<union> set log'))"
  using assms
proof (induction es arbitrary: log d)
  case Nil
  then show ?case by (intro exI [of _ "[]"]) simp
next
  case (Cons e es)
  let ?new = "if accepts d e then [e] else []"
  have eq: "(if accepts d e then log @ [e] else log) = log @ ?new" by simp
  have r: "reachable cfg channels (log @ ?new) (Enqueue now e d)"
    unfolding eq [symmetric] by (rule reachable.enqueue) (rule Cons.prems)
  have wanted: "wanted (Enqueue now e d) = wanted d" by (simp add: fun_eq_iff wanted_def passesSeverity_def)
  from Cons.IH [OF r] Cons.prems obtain log' where
    log': "reachable cfg channels ((log @ ?new) @ log') (fold (Enqueue now) es (Enqueue now e d))" "set log' \<subseteq> set es"
      "\<forall>e' \<in> set es. wanted d e' \<longrightarrow>
         event_key e' \<in> event_key ` (set_mset (pending_events (Enqueue now e d)) \<union> set log')"
    unfolding wanted by auto
  have inv: "events_inv cfg channels log d" using reachable_inv [OF Cons.prems(1)] by (simp add: dispatcher_inv_def)
  then have sub: "set_mset (pending_events (Enqueue now e d)) \<union> set log' \<subseteq>
      set_mset (pending_events d) \<union> set (?new @ log')"
    using Enqueue_pending [of d now e] by (auto simp: events_inv_def)
  have "event_key e \<in> event_key ` (set_mset (pending_events d) \<union> set (?new @ log'))" if "wanted d e"
  proof (cases "accepts d e")
    case False
    with that Cons.prems inv show ?thesis by (auto simp: accepts_def wanted_def events_inv_def)
  qed auto
  moreover have "event_key e' \<in> event_key ` (set_mset (pending_events d) \<union> set (?new @ log'))"
    if "e' \<in> set es" "wanted d e'" for e'
    using log'(3) that image_mono [OF sub, of event_key] by blast
  moreover have "set (?new @ log') \<subseteq> set (e # es)" using log'(2) by auto
  ultimately show ?case using log'(1) by (intro exI [of _ "?new @ log'"]) simp
qed

text \<open>Two reports of the same transition: the same kind, module and fingerprint.\<close>

definition same_event :: "Event \<Rightarrow> Event \<Rightarrow> bool" where
  "same_event a b \<longleftrightarrow> ev_Kind a = ev_Kind b \<and> ev_Module a = ev_Module b \<and>
     f_Fingerprint (ev_Finding a) = f_Fingerprint (ev_Finding b)"

lemma bar_split: "x @ c # u = y @ c # v \<Longrightarrow> c \<notin> set x \<Longrightarrow> c \<notin> set y \<Longrightarrow> x = y \<and> u = v"
proof (induction x arbitrary: y)
  case Nil
  then show ?case by (cases y) auto
next
  case (Cons a x)
  then show ?case by (cases y) auto
qed

text \<open>The key of an event tells transitions apart, as long as no module has a bar in its name.\<close>

lemma event_key_same:
  assumes "event_key a = event_key b" and "CHR ''|'' \<notin> set (ev_Module a)" and "CHR ''|'' \<notin> set (ev_Module b)"
  shows "same_event a b"
proof -
  have kind: "CHR ''|'' \<notin> set (kind_str k)" for k by (cases k) simp_all
  have "kind_str (ev_Kind a) @ CHR ''|'' # (ev_Module a @ CHR ''|'' # f_Fingerprint (ev_Finding a)) =
      kind_str (ev_Kind b) @ CHR ''|'' # (ev_Module b @ CHR ''|'' # f_Fingerprint (ev_Finding b))"
    using assms(1) by (simp add: event_key_def)
  from bar_split [OF this kind kind] have "kind_str (ev_Kind a) = kind_str (ev_Kind b)"
    "ev_Module a @ CHR ''|'' # f_Fingerprint (ev_Finding a) = ev_Module b @ CHR ''|'' # f_Fingerprint (ev_Finding b)"
    by blast+
  with bar_split [OF this(2) assms(2,3)] show ?thesis
    by (cases "ev_Kind a"; cases "ev_Kind b") (simp_all add: same_event_def)
qed

text \<open>C31: Every opening at or above the severity floor and every resolution that a scan reports to an open dispatcher is
  in what each channel is handed afterwards, at the latest by the next flush: the event itself, or one of the same kind,
  module and fingerprint, when there is another such event in the scan's result or waiting. No module's name has a bar.\<close>

theorem scan_result_reaches_channels:
  assumes "reachable cfg channels log d" and "\<not> ds_closed d" and "distinct channels" and "ch \<in> set channels"
    and "e \<in> set (result_events m res)" and "wanted d e"
    and "CHR ''|'' \<notin> set m" and "\<forall>e' \<in> set log. CHR ''|'' \<notin> set (ev_Module e')"
  shows "(\<exists>e' \<in># sent_to ch (Flush t (BindScheduler now m res d)) - sent_to ch d. ev_Kind e' = ev_Kind e \<and>
      ev_Module e' = ev_Module e \<and> f_Fingerprint (ev_Finding e') = f_Fingerprint (ev_Finding e)) \<and>
    ((\<forall>e' \<in> set_mset (pending_events d) \<union> set (result_events m res). ev_Kind e' = ev_Kind e \<and>
       ev_Module e' = ev_Module e \<and> f_Fingerprint (ev_Finding e') = f_Fingerprint (ev_Finding e) \<longrightarrow> e' = e) \<longrightarrow>
     e \<in># sent_to ch (Flush t (BindScheduler now m res d)) - sent_to ch d)"
proof -
  obtain log' where log': "reachable cfg channels (log @ log') (BindScheduler now m res d)" "set log' \<subseteq> set (result_events m res)"
    "event_key e \<in> event_key ` (set_mset (pending_events d) \<union> set log')"
    using fold_Enqueue_reachable [OF assms(1,2), of now "result_events m res"] assms(5,6)
    by (auto simp: BindScheduler_def)
  let ?d = "BindScheduler now m res d"
  have inv: "events_inv cfg channels log d" "events_inv cfg channels (log @ log') ?d"
    using reachable_inv [OF assms(1)] reachable_inv [OF log'(1)] by (simp_all add: dispatcher_inv_def)
  have "sent_to ch (Flush t ?d) = mset log + mset log'"
    using inv(2) assms(3,4) flush_sends [of ?d ch t] by (simp add: events_inv_def Flush_def)
  moreover have before: "sent_to ch d + pending_events d = mset log"
    using inv(1) assms(3,4) by (simp add: events_inv_def)
  ultimately have new: "sent_to ch (Flush t ?d) - sent_to ch d = pending_events d + mset log'"
    by (metis add.assoc add_diff_cancel_left')
  from log'(3) obtain e' where e': "event_key e = event_key e'" "e' \<in> set_mset (pending_events d) \<union> set log'" by (rule imageE)
  have mods: "ev_Module x = m" if "x \<in> set (result_events m res)" for x using that by (auto simp: result_events_def)
  have "set_mset (pending_events d) \<subseteq> set log"
    unfolding set_mset_mset [symmetric] before [symmetric] by simp
  then have "CHR ''|'' \<notin> set (ev_Module e')" using e'(2) log'(2) mods assms(7,8) by blast
  moreover have "CHR ''|'' \<notin> set (ev_Module e)" using mods [OF assms(5)] assms(7) by simp
  ultimately have same: "ev_Kind e' = ev_Kind e" "ev_Module e' = ev_Module e"
    "f_Fingerprint (ev_Finding e') = f_Fingerprint (ev_Finding e)"
    using event_key_same [OF e'(1) [symmetric]] by (simp_all add: same_event_def)
  have handed: "e' \<in># sent_to ch (Flush t ?d) - sent_to ch d" unfolding new using e'(2) by simp
  have "e' \<in> set_mset (pending_events d) \<union> set (result_events m res)" using e'(2) log'(2) by blast
  then show ?thesis using handed same by blast
qed

theorem scan_result_reaches_channels_witness:
  "ex_event \<in># sent_to ''slack'' (Flush 9 (BindScheduler 7 ''rulehawk''
     \<lparr>rr_NewlyOpen = [ev_Finding ex_event], rr_Resolved = [], rr_Rejected = []\<rparr> (NewDispatcher ex_config [''slack''])))
   - sent_to ''slack'' (NewDispatcher ex_config [''slack''])"
proof -
  let ?d = "NewDispatcher ex_config [''slack'']"
  let ?res = "\<lparr>rr_NewlyOpen = [ev_Finding ex_event], rr_Resolved = [], rr_Rejected = []\<rparr>"
  have ev: "result_events ''rulehawk'' ?res = [ex_event]" by (simp add: result_events_def ex_event_def)
  have "pending_events ?d = {#}" by (simp add: pending_events_def NewDispatcher_def)
  moreover have "\<not> ds_closed ?d" by (simp add: NewDispatcher_def)
  moreover have "wanted ?d ex_event"
    by (simp add: wanted_def NewDispatcher_def passesSeverity_def ex_event_def ex_config_def
        notify_withDefaults_def Let_def Severity_of_def)
  moreover have "ex_event \<in> set (result_events ''rulehawk'' ?res)" by (simp add: ev)
  ultimately show ?thesis
    using scan_result_reaches_channels [OF reachable.start, of ex_config "[''slack'']" "''slack''" ex_event "''rulehawk''" ?res 9 7]
    by (simp add: ev)
qed

text \<open>The findings of a digest are in the order of the stable sort by falling severity.\<close>

theorem digest_order:
  "dg_Opened (make_digest now (m, es)) =
     sort_key (\<lambda>f. - notify_severityRank (f_Severity f)) (map ev_Finding (filter (\<lambda>e. ev_Kind e = KindOpened) es))"
  by (simp add: make_digest_fields sortBySeverity_sort_key)

end
