(* ===== verification/Sched.thy ===== *)
theory Sched
  imports Complex_Main Store "HOL-Library.Word"
begin

text \<open>
  Package \<open>sched\<close>: modules and their targets, the sweeps of a module's loop with the backoff of each target, and the
  scans, which share the worker slots of the semaphore. The scheduler is a state and every atomic
  piece of a goroutine is a function on it: what happens under one lock, the start of a scan when it
  gets a slot, its end. What the collector returned is an argument of the end of a scan, the clock's
  reading one of each step. A reconcile run is one step. Durations are nanoseconds; the jitter of the
  next sweep is left to the time at which it is taken.
\<close>

section \<open>Configuration\<close>

text \<open>\<open>JitterFraction\<close> is a float64, taken as its value.\<close>

record SchedConfig =
  sc_Workers :: int
  sc_ScanTimeout :: int
  sc_JitterFraction :: rat
  sc_RetryBase :: int
  sc_RetryMax :: int
  sc_IntervalOverride :: int

definition sched_withDefaults :: "SchedConfig \<Rightarrow> SchedConfig" where
  "sched_withDefaults c =
     (let c = (if sc_Workers c \<le> 0 then c\<lparr>sc_Workers := 8\<rparr> else c);
          c = (if sc_ScanTimeout c \<le> 0 then c\<lparr>sc_ScanTimeout := 30 * 1000000000\<rparr> else c);
          c = (if sc_JitterFraction c \<le> 0 \<or> sc_JitterFraction c > 1 then c\<lparr>sc_JitterFraction := 1 / 10\<rparr> else c);
          c = (if sc_RetryBase c \<le> 0 then c\<lparr>sc_RetryBase := 30 * 1000000000\<rparr> else c);
          c = (if sc_RetryMax c \<le> 0 then c\<lparr>sc_RetryMax := 15 * 60 * 1000000000\<rparr> else c)
      in c)"

section \<open>Backoff\<close>

text \<open>A product of durations wraps at 64 bits.\<close>

definition int64 :: "int \<Rightarrow> int" where
  "int64 x = sint (word_of_int x :: 64 word)"

fun backoff_loop :: "int \<Rightarrow> nat \<Rightarrow> int \<Rightarrow> int" where
  "backoff_loop retryMax 0 d = (if d > retryMax then retryMax else d)"
| "backoff_loop retryMax (Suc k) d =
     (let d = int64 (d * 2) in if d \<ge> retryMax then retryMax else backoff_loop retryMax k d)"

definition backoffFor :: "SchedConfig \<Rightarrow> int \<Rightarrow> int" where
  "backoffFor cfg consecutive = backoff_loop (sc_RetryMax cfg) (nat (consecutive - 1)) (sc_RetryBase cfg)"

section \<open>The state\<close>

datatype scan_error = Canceled | ScanFailed string

record ScanResult =
  sr_Module :: string
  sr_Target :: Target
  sr_Reconcile :: ReconcileResult

record ScanError =
  se_Module :: string
  se_Target :: Target
  se_Err :: scan_error
  se_Attempt :: int
  se_NextTry :: int

text \<open>Of a collector the registration keeps what it describes and how it reads a target.\<close>

record registration =
  rg_info :: ModuleInfo
  rg_validate :: "string \<Rightarrow> IngestError + Target"
  rg_targets :: "(string \<times> Target) list"

text \<open>The maps of a module's loop; a missing entry is the zero value. \<open>None\<close> is the zero time.\<close>

record loop_state =
  lp_failures :: "string \<Rightarrow> int"
  lp_nextOK :: "string \<Rightarrow> int option"

definition new_loop :: loop_state where
  "new_loop = \<lparr>lp_failures = (\<lambda>_. 0), lp_nextOK = (\<lambda>_. None)\<rparr>"

text \<open>A scan in flight; \<open>sn_sweep\<close> tells whether a sweep started it.\<close>

record scan =
  sn_module :: string
  sn_target :: Target
  sn_sweep :: bool

text \<open>The channel that serves as a semaphore: a send takes a slot and blocks when there is none left, a receive gives it back.\<close>

record semaphore =
  sem_cap :: int
  sem_held :: nat

definition sem_send :: "semaphore \<Rightarrow> semaphore option" where
  "sem_send c = (if int (sem_held c) < sem_cap c then Some (c\<lparr>sem_held := Suc (sem_held c)\<rparr>) else None)"

definition sem_receive :: "semaphore \<Rightarrow> semaphore" where
  "sem_receive c = c\<lparr>sem_held := sem_held c - 1\<rparr>"

text \<open>\<open>sd_waiting\<close> are the scans that wait for a slot of the semaphore, \<open>sd_running\<close> those that hold one.\<close>

record 'g Scheduler =
  sd_cfg :: SchedConfig
  sd_modules :: "(string \<times> registration) list"
  sd_started :: bool
  sd_cancelled :: bool
  sd_loops :: "string \<Rightarrow> loop_state"
  sd_sem :: semaphore
  sd_waiting :: "scan list"
  sd_running :: "scan list"
  sd_store :: MemStore
  sd_gen :: 'g
  sd_results :: "ScanResult list"
  sd_errors :: "ScanError list"

definition NewScheduler :: "MemStore \<Rightarrow> 'g \<Rightarrow> SchedConfig \<Rightarrow> 'g Scheduler" where
  "NewScheduler store g cfg =
     \<lparr>sd_cfg = sched_withDefaults cfg, sd_modules = [], sd_started = False, sd_cancelled = False,
      sd_loops = (\<lambda>_. new_loop), sd_sem = \<lparr>sem_cap = sc_Workers (sched_withDefaults cfg), sem_held = 0\<rparr>, sd_waiting = [], sd_running = [], sd_store = store, sd_gen = g, sd_results = [],
      sd_errors = []\<rparr>"

section \<open>Modules and targets\<close>

definition Register :: "ModuleInfo \<Rightarrow> (string \<Rightarrow> IngestError + Target) \<Rightarrow> 'g Scheduler \<Rightarrow> string + 'g Scheduler" where
  "Register info validate s =
     (if mi_ID info = '''' then Inl ''collector ModuleInfo.ID must not be empty''
      else (case map_of (sd_modules s) (mi_ID info) of
          Some _ \<Rightarrow> Inl (''module already registered: '' @ mi_ID info)
        | None \<Rightarrow> Inr (s\<lparr>sd_modules := AList.update (mi_ID info)
              \<lparr>rg_info = info, rg_validate = validate, rg_targets = []\<rparr> (sd_modules s)\<rparr>)))"

definition set_targets :: "string \<Rightarrow> registration \<Rightarrow> (string \<times> Target) list \<Rightarrow> 'g Scheduler \<Rightarrow> 'g Scheduler" where
  "set_targets m reg ts s = s\<lparr>sd_modules := AList.update m (reg\<lparr>rg_targets := ts\<rparr>) (sd_modules s)\<rparr>"

definition AddTarget :: "string \<Rightarrow> string \<Rightarrow> 'g Scheduler \<Rightarrow> (string + Target) \<times> 'g Scheduler" where
  "AddTarget m raw s =
     (case map_of (sd_modules s) m of
        None \<Rightarrow> (Inl (''unknown module: '' @ m), s)
      | Some reg \<Rightarrow>
          (case rg_validate reg raw of
             Inl err \<Rightarrow> (Inl (ingest_error_str err), s)
           | Inr t \<Rightarrow>
               (let s = set_targets m reg (AList.update (t_Canonical t) t (rg_targets reg)) s;
                    s = (if sd_started s \<and> \<not> sd_cancelled s
                         then s\<lparr>sd_waiting := sd_waiting s @ [\<lparr>sn_module = m, sn_target = t, sn_sweep = False\<rparr>]\<rparr> else s)
                in (Inr t, s))))"

definition RemoveTarget :: "string \<Rightarrow> string \<Rightarrow> 'g Scheduler \<Rightarrow> 'g Scheduler" where
  "RemoveTarget m canonical s =
     (case map_of (sd_modules s) m of
        None \<Rightarrow> s
      | Some reg \<Rightarrow> set_targets m reg (AList.delete canonical (rg_targets reg)) s)"

definition snapshotTargets :: "registration \<Rightarrow> Target list" where
  "snapshotTargets reg = map snd (rg_targets reg)"

definition ListTargets :: "string \<Rightarrow> 'g Scheduler \<Rightarrow> Target list" where
  "ListTargets m s = (case map_of (sd_modules s) m of None \<Rightarrow> [] | Some reg \<Rightarrow> snapshotTargets reg)"

section \<open>Start and stop\<close>

text \<open>The error of a second start, or none.\<close>

definition Start :: "'g Scheduler \<Rightarrow> string option \<times> 'g Scheduler" where
  "Start s = (if sd_started s then (Some ''scheduler already started'', s) else (None, s\<lparr>sd_started := True\<rparr>))"

definition Stop :: "'g Scheduler \<Rightarrow> 'g Scheduler" where
  "Stop s = s\<lparr>sd_cancelled := sd_started s \<or> sd_cancelled s\<rparr>"

text \<open>The scans that \<open>ScanNow\<close> starts; it waits for them, and answers without an error when its context is alive then.\<close>

definition ScanNow :: "string \<Rightarrow> 'g Scheduler \<Rightarrow> string option \<times> 'g Scheduler" where
  "ScanNow m s =
     (case map_of (sd_modules s) m of
        None \<Rightarrow> (Some (''unknown module: '' @ m), s)
      | Some reg \<Rightarrow>
          (None, s\<lparr>sd_waiting := sd_waiting s @
             map (\<lambda>t. \<lparr>sn_module = m, sn_target = t, sn_sweep = False\<rparr>) (snapshotTargets reg)\<rparr>))"

section \<open>A module's loop\<close>

definition loop_interval :: "SchedConfig \<Rightarrow> registration \<Rightarrow> int" where
  "loop_interval cfg reg =
     (let interval = mi_DefaultInterval (rg_info reg);
          interval = (if sc_IntervalOverride cfg > 0 then sc_IntervalOverride cfg else interval)
      in if interval \<le> 0 then 3600 * 1000000000 else interval)"

definition backing_off :: "int \<Rightarrow> loop_state \<Rightarrow> Target \<Rightarrow> bool" where
  "backing_off now lp t = (case lp_nextOK lp (t_Canonical t) of None \<Rightarrow> False | Some gate \<Rightarrow> now < gate)"

definition sweep :: "int \<Rightarrow> string \<Rightarrow> 'g Scheduler \<Rightarrow> 'g Scheduler" where
  "sweep now m s =
     s\<lparr>sd_waiting := sd_waiting s @ map (\<lambda>t. \<lparr>sn_module = m, sn_target = t, sn_sweep = True\<rparr>)
        (filter (\<lambda>t. \<not> backing_off now (sd_loops s m) t) (ListTargets m s))\<rparr>"

text \<open>What the goroutine of a sweep does with the outcome of its scan.\<close>

definition scan_done :: "int \<Rightarrow> string \<Rightarrow> Target \<Rightarrow> scan_error option \<Rightarrow> 'g Scheduler \<Rightarrow> 'g Scheduler" where
  "scan_done now m t err s =
     (let lp = sd_loops s m; c = t_Canonical t in
      if err \<noteq> None \<and> err \<noteq> Some Canceled then
        (let n = lp_failures lp c + 1; backoff = backoffFor (sd_cfg s) n in
         s\<lparr>sd_loops := (sd_loops s)(m := \<lparr>lp_failures = (lp_failures lp)(c := n),
               lp_nextOK = (lp_nextOK lp)(c := Some (now + backoff))\<rparr>),
           sd_errors := sd_errors s @ [\<lparr>se_Module = m, se_Target = t, se_Err = the err, se_Attempt = n, se_NextTry = backoff\<rparr>]\<rparr>)
      else
        s\<lparr>sd_loops := (sd_loops s)(m := \<lparr>lp_failures = (lp_failures lp)(c := 0),
            lp_nextOK = (lp_nextOK lp)(c := None)\<rparr>)\<rparr>)"

section \<open>Scans\<close>

text \<open>A waiting scan takes a slot of the semaphore and runs; \<open>None\<close> is a send that blocks.\<close>

definition acquire :: "nat \<Rightarrow> 'g Scheduler \<Rightarrow> 'g Scheduler option" where
  "acquire k s =
     (case sem_send (sd_sem s) of
        None \<Rightarrow> None
      | Some sem \<Rightarrow> Some (s\<lparr>sd_sem := sem, sd_running := sd_running s @ [sd_waiting s ! k],
          sd_waiting := take k (sd_waiting s) @ drop (Suc k) (sd_waiting s)\<rparr>))"

text \<open>The rest of \<open>scanOne\<close>, once the collector has returned: its error, or the reconcile run and its result.\<close>

definition scan_outcome ::
  "(int \<Rightarrow> 'g \<Rightarrow> (string + string) \<times> 'g) \<Rightarrow> int \<Rightarrow> scan \<Rightarrow> scan_error + Finding list \<Rightarrow> 'g Scheduler \<Rightarrow>
    scan_error option \<times> 'g Scheduler" where
  "scan_outcome newID now sn collected s =
     (case collected of
        Inl err \<Rightarrow> (Some err, s)
      | Inr findings \<Rightarrow>
          (case map_of (sd_modules s) (sn_module sn) of
             None \<Rightarrow> (None, s)
           | Some reg \<Rightarrow>
               (case mem_Reconcile newID now (rg_info reg) (t_Canonical (sn_target sn)) findings (sd_store s) (sd_gen s) of
                  (st, err) \<Rightarrow>
                    (let s = s\<lparr>sd_store := rc_store st, sd_gen := rc_gen st\<rparr> in
                     case err of
                       Some e \<Rightarrow> (Some (ScanFailed e), s)
                     | None \<Rightarrow> (None, s\<lparr>sd_results := sd_results s @
                         [\<lparr>sr_Module = mi_ID (rg_info reg), sr_Target = sn_target sn, sr_Reconcile = rc_res st\<rparr>]\<rparr>)))))"

text \<open>Whatever its outcome, a scan that ends gives its slot back.\<close>

definition finish ::
  "(int \<Rightarrow> 'g \<Rightarrow> (string + string) \<times> 'g) \<Rightarrow> int \<Rightarrow> nat \<Rightarrow> scan_error + Finding list \<Rightarrow> 'g Scheduler \<Rightarrow> 'g Scheduler" where
  "finish newID now k collected s =
     (let sn = sd_running s ! k;
          s = s\<lparr>sd_running := take k (sd_running s) @ drop (Suc k) (sd_running s), sd_sem := sem_receive (sd_sem s)\<rparr>;
          (err, s) = scan_outcome newID now sn collected s
      in if sn_sweep sn then scan_done now (sn_module sn) (sn_target sn) err s else s)"

text \<open>A waiting scan gives up when the context is cancelled.\<close>

definition give_up :: "int \<Rightarrow> nat \<Rightarrow> 'g Scheduler \<Rightarrow> 'g Scheduler" where
  "give_up now k s =
     (let sn = sd_waiting s ! k;
          s = s\<lparr>sd_waiting := take k (sd_waiting s) @ drop (Suc k) (sd_waiting s)\<rparr>
      in if sn_sweep sn then scan_done now (sn_module sn) (sn_target sn) (Some Canceled) s else s)"

end
