(* ===== verification/SchedSpec.thy ===== *)
theory SchedSpec
  imports Sched
begin

text \<open>
  What the scheduler guarantees in every state that its calls and goroutines can reach, in any
  order: the bound on running scans, and that the backoff of each target depends on its own failures
  alone. The backoff has a closed form below the overflow of a duration.
\<close>

section \<open>The backoff in closed form\<close>

lemma int64_id: "- (2 ^ 63) \<le> x \<Longrightarrow> x < 2 ^ 63 \<Longrightarrow> int64 x = x"
  by (simp add: int64_def signed_of_int signed_take_bit_int_eq_self)

lemma backoff_loop_closed:
  assumes "0 < d" and "d < 2 ^ 62" and "0 < m" and "m \<le> 2 ^ 62"
  shows "backoff_loop m k d = min m (d * 2 ^ k)"
  using assms(1,2)
proof (induction k arbitrary: d)
  case (Suc k)
  have id: "int64 (d * 2) = d * 2" using Suc.prems by (intro int64_id) auto
  show ?case
  proof (cases "d * 2 \<ge> m")
    case True
    moreover have "d * 2 * 1 \<le> d * 2 * 2 ^ k" using Suc.prems by (intro mult_left_mono) auto
    ultimately show ?thesis by (simp add: id Let_def mult.assoc)
  next
    case False
    then show ?thesis using Suc.IH [of "d * 2"] Suc.prems assms(4) by (simp add: id Let_def mult.assoc)
  qed
qed (simp add: min_def)

text \<open>The wait after n consecutive failures is the base doubled n - 1 times, capped at the maximum, as long as both
  are at most 146 years, so that no product wraps.\<close>

theorem backoff_closed_form:
  assumes "0 < sc_RetryBase cfg" and "sc_RetryBase cfg < 2 ^ 62" and "0 < sc_RetryMax cfg" and "sc_RetryMax cfg \<le> 2 ^ 62"
  shows "backoffFor cfg n = min (sc_RetryMax cfg) (sc_RetryBase cfg * 2 ^ nat (n - 1))"
  using backoff_loop_closed [OF assms] by (simp add: backoffFor_def)

definition ex_sched :: SchedConfig where
  "ex_sched = sched_withDefaults \<lparr>sc_Workers = 0, sc_ScanTimeout = 0, sc_JitterFraction = 0, sc_RetryBase = 0, sc_RetryMax = 0,
     sc_IntervalOverride = 0\<rparr>"

lemma ex_sched_fields: "sc_RetryBase ex_sched = 30 * 1000000000" "sc_RetryMax ex_sched = 900 * 1000000000" "sc_Workers ex_sched = 8"
  by (simp_all add: ex_sched_def sched_withDefaults_def Let_def)

theorem backoff_closed_form_witness:
  "backoffFor ex_sched 3 = 120 * 1000000000 \<and> backoffFor ex_sched 40 = 900 * 1000000000"
  using backoff_closed_form [of ex_sched 3] backoff_closed_form [of ex_sched 40]
  by (simp add: ex_sched_fields)

section \<open>Reachable states\<close>

text \<open>The log holds the end of each scan that a sweep started: module, target, time, and whether it failed.\<close>

record sweep_end =
  we_module :: string
  we_canonical :: string
  we_time :: int
  we_failed :: bool

definition failed :: "scan_error option \<Rightarrow> bool" where
  "failed err \<longleftrightarrow> err \<noteq> None \<and> err \<noteq> Some Canceled"

definition logged :: "int \<Rightarrow> scan \<Rightarrow> scan_error option \<Rightarrow> sweep_end list" where
  "logged now sn err =
     (if sn_sweep sn then [\<lparr>we_module = sn_module sn, we_canonical = t_Canonical (sn_target sn), we_time = now, we_failed = failed err\<rparr>]
      else [])"

inductive sched_run ::
  "(int \<Rightarrow> 'g \<Rightarrow> (string + string) \<times> 'g) \<Rightarrow> SchedConfig \<Rightarrow> sweep_end list \<Rightarrow> 'g Scheduler \<Rightarrow> bool"
  for newID :: "int \<Rightarrow> 'g \<Rightarrow> (string + string) \<times> 'g" and cfg :: SchedConfig where
  new: "sched_run newID cfg [] (NewScheduler store g cfg)"
| register: "sched_run newID cfg ends s \<Longrightarrow> Register info validate s = Inr s' \<Longrightarrow> sched_run newID cfg ends s'"
| add: "sched_run newID cfg ends s \<Longrightarrow> sched_run newID cfg ends (snd (AddTarget m raw s))"
| remove: "sched_run newID cfg ends s \<Longrightarrow> sched_run newID cfg ends (RemoveTarget m canonical s)"
| start: "sched_run newID cfg ends s \<Longrightarrow> sched_run newID cfg ends (snd (Start s))"
| stop: "sched_run newID cfg ends s \<Longrightarrow> sched_run newID cfg ends (Stop s)"
| scan_now: "sched_run newID cfg ends s \<Longrightarrow> sched_run newID cfg ends (snd (ScanNow m s))"
| sweep: "sched_run newID cfg ends s \<Longrightarrow> sd_started s \<Longrightarrow> \<not> sd_cancelled s \<Longrightarrow> sched_run newID cfg ends (sweep now m s)"
| acquire: "sched_run newID cfg ends s \<Longrightarrow> k < length (sd_waiting s) \<Longrightarrow> acquire k s = Some s' \<Longrightarrow>
    sched_run newID cfg ends s'"
| give_up: "sched_run newID cfg ends s \<Longrightarrow> k < length (sd_waiting s) \<Longrightarrow> sn_sweep (sd_waiting s ! k) \<longrightarrow> sd_cancelled s \<Longrightarrow>
    sched_run newID cfg (ends @ logged now (sd_waiting s ! k) (Some Canceled)) (give_up now k s)"
| finish: "sched_run newID cfg ends s \<Longrightarrow> k < length (sd_running s) \<Longrightarrow>
    sched_run newID cfg (ends @ logged now (sd_running s ! k)
      (fst (scan_outcome newID now (sd_running s ! k) collected s))) (finish newID now k collected s)"

section \<open>What each step changes\<close>

lemma set_targets_fields [simp]:
  "sd_cfg (set_targets m reg ts s) = sd_cfg s" "sd_loops (set_targets m reg ts s) = sd_loops s"
  "sd_running (set_targets m reg ts s) = sd_running s" "sd_waiting (set_targets m reg ts s) = sd_waiting s"
  by (simp_all add: set_targets_def)

lemma keeps_loops:
  "Register info validate s = Inr s' \<Longrightarrow> sd_cfg s' = sd_cfg s \<and> sd_loops s' = sd_loops s \<and> sd_running s' = sd_running s"
  "sd_cfg (snd (AddTarget m raw s)) = sd_cfg s \<and> sd_loops (snd (AddTarget m raw s)) = sd_loops s \<and>
    sd_running (snd (AddTarget m raw s)) = sd_running s"
  "sd_cfg (RemoveTarget m c s) = sd_cfg s \<and> sd_loops (RemoveTarget m c s) = sd_loops s \<and>
    sd_running (RemoveTarget m c s) = sd_running s"
  "sd_cfg (snd (Start s)) = sd_cfg s \<and> sd_loops (snd (Start s)) = sd_loops s \<and> sd_running (snd (Start s)) = sd_running s"
  "sd_cfg (Stop s) = sd_cfg s \<and> sd_loops (Stop s) = sd_loops s \<and> sd_running (Stop s) = sd_running s"
  "sd_cfg (snd (ScanNow m s)) = sd_cfg s \<and> sd_loops (snd (ScanNow m s)) = sd_loops s \<and>
    sd_running (snd (ScanNow m s)) = sd_running s"
  "sd_cfg (sweep now m s) = sd_cfg s \<and> sd_loops (sweep now m s) = sd_loops s \<and> sd_running (sweep now m s) = sd_running s"
  "acquire k s = Some s' \<Longrightarrow> sd_cfg s' = sd_cfg s \<and> sd_loops s' = sd_loops s"
  by (auto simp: Register_def AddTarget_def RemoveTarget_def Start_def Stop_def ScanNow_def sweep_def acquire_def Let_def
      split: if_splits option.splits sum.splits)

lemma keeps_sem:
  "Register info validate s = Inr s' \<Longrightarrow> sd_sem s' = sd_sem s" "sd_sem (snd (AddTarget m raw s)) = sd_sem s"
  "sd_sem (RemoveTarget m c s) = sd_sem s" "sd_sem (snd (Start s)) = sd_sem s" "sd_sem (Stop s) = sd_sem s"
  "sd_sem (snd (ScanNow m s)) = sd_sem s" "sd_sem (sweep now m s) = sd_sem s"
  by (auto simp: Register_def AddTarget_def RemoveTarget_def Start_def Stop_def ScanNow_def sweep_def set_targets_def Let_def
      split: if_splits option.splits sum.splits)

lemma scan_outcome_keeps:
  "sd_cfg (snd (scan_outcome newID now sn collected s)) = sd_cfg s \<and>
   sd_loops (snd (scan_outcome newID now sn collected s)) = sd_loops s \<and>
   sd_running (snd (scan_outcome newID now sn collected s)) = sd_running s \<and>
   sd_sem (snd (scan_outcome newID now sn collected s)) = sd_sem s"
  by (auto simp: scan_outcome_def Let_def split: sum.splits option.splits prod.splits)

lemma scan_done_keeps [simp]:
  "sd_cfg (scan_done now m t err s) = sd_cfg s" "sd_running (scan_done now m t err s) = sd_running s"
  "sd_sem (scan_done now m t err s) = sd_sem s"
  by (simp_all add: scan_done_def Let_def)

lemma scan_done_loops:
  "sd_loops (scan_done now m t err s) = (sd_loops s)(m :=
     \<lparr>lp_failures = (lp_failures (sd_loops s m))(t_Canonical t := if failed err then lp_failures (sd_loops s m) (t_Canonical t) + 1 else 0),
      lp_nextOK = (lp_nextOK (sd_loops s m))(t_Canonical t := if failed err
        then Some (now + backoffFor (sd_cfg s) (lp_failures (sd_loops s m) (t_Canonical t) + 1)) else None)\<rparr>)"
  by (simp add: scan_done_def failed_def Let_def)

lemma finish_fields:
  "sd_cfg (finish newID now k collected s) = sd_cfg s"
  "k < length (sd_running s) \<Longrightarrow> length (sd_running (finish newID now k collected s)) = length (sd_running s) - 1"
  "sd_sem (finish newID now k collected s) = sem_receive (sd_sem s)"
  using scan_outcome_keeps [of newID now "sd_running s ! k" collected
      "s\<lparr>sd_running := take k (sd_running s) @ drop (Suc k) (sd_running s), sd_sem := sem_receive (sd_sem s)\<rparr>"]
  by (auto simp: finish_def Let_def split: prod.splits)

lemma give_up_fields:
  "sd_cfg (give_up now k s) = sd_cfg s" "sd_running (give_up now k s) = sd_running s" "sd_sem (give_up now k s) = sd_sem s"
  by (simp_all add: give_up_def Let_def)

section \<open>The worker bound\<close>

lemma run_cfg: "sched_run newID cfg ends s \<Longrightarrow> sd_cfg s = sched_withDefaults cfg"
  by (induction rule: sched_run.induct) (auto simp: NewScheduler_def keeps_loops give_up_fields finish_fields)

lemma workers_pos: "1 \<le> sc_Workers (sched_withDefaults cfg)"
  by (simp add: sched_withDefaults_def Let_def)

text \<open>The semaphore counts the running scans.\<close>

definition sem_counts :: "SchedConfig \<Rightarrow> 'g Scheduler \<Rightarrow> bool" where
  "sem_counts cfg s \<longleftrightarrow> sem_cap (sd_sem s) = sc_Workers (sched_withDefaults cfg) \<and>
     sem_held (sd_sem s) = length (sd_running s) \<and> int (sem_held (sd_sem s)) \<le> sem_cap (sd_sem s)"

lemma acquire_running: "acquire k s = Some s' \<Longrightarrow> sd_running s' = sd_running s @ [sd_waiting s ! k]"
  by (auto simp: acquire_def split: option.splits)

lemma acquire_counts: "sem_counts cfg s \<Longrightarrow> acquire k s = Some s' \<Longrightarrow> sem_counts cfg s'"
  by (auto simp: sem_counts_def acquire_def sem_send_def split: option.splits if_splits)

lemma finish_counts:
  assumes "sem_counts cfg s" and "k < length (sd_running s)"
  shows "sem_counts cfg (finish newID now k collected s)"
proof -
  have "sem_held (sd_sem s) \<noteq> 0" using assms by (auto simp: sem_counts_def)
  then show ?thesis using assms by (auto simp: sem_counts_def finish_fields sem_receive_def of_nat_diff)
qed

lemma run_counts: "sched_run newID cfg ends s \<Longrightarrow> sem_counts cfg s"
proof (induction rule: sched_run.induct)
  case (new store g)
  show ?case using workers_pos [of cfg] by (simp add: NewScheduler_def sem_counts_def)
next
  case (acquire ends s k s')
  then show ?case using acquire_counts by blast
next
  case (finish ends s k now collected)
  then show ?case using finish_counts by blast
qed (simp_all add: sem_counts_def keeps_loops keeps_sem give_up_fields)

text \<open>C36: In every reachable state at most the configured number of scans run, over all modules.\<close>

theorem workers_bound:
  assumes "sched_run newID cfg ends s"
  shows "int (length (sd_running s)) \<le> sc_Workers (sched_withDefaults cfg)"
  using run_counts [OF assms] by (simp add: sem_counts_def)

section \<open>Backoff follows the failures\<close>

text \<open>The failed scans of a target since its last one that did not fail, the latest first.\<close>

definition recent_failures :: "string \<Rightarrow> string \<Rightarrow> sweep_end list \<Rightarrow> sweep_end list" where
  "recent_failures m c ends = takeWhile we_failed (rev (filter (\<lambda>e. we_module e = m \<and> we_canonical e = c) ends))"

definition retry_gate :: "SchedConfig \<Rightarrow> sweep_end list \<Rightarrow> int option" where
  "retry_gate cfg es = (case es of [] \<Rightarrow> None | e # _ \<Rightarrow> Some (we_time e + backoffFor cfg (int (length es))))"

definition loops_inv :: "SchedConfig \<Rightarrow> sweep_end list \<Rightarrow> (string \<Rightarrow> loop_state) \<Rightarrow> bool" where
  "loops_inv cfg ends loops \<longleftrightarrow> (\<forall>m c. lp_failures (loops m) c = int (length (recent_failures m c ends)) \<and>
     lp_nextOK (loops m) c = retry_gate cfg (recent_failures m c ends))"

lemma recent_failures_snoc:
  "recent_failures m c (ends @ [e]) =
     (if we_module e = m \<and> we_canonical e = c then (if we_failed e then e # recent_failures m c ends else [])
      else recent_failures m c ends)"
  by (simp add: recent_failures_def)

lemma scan_done_inv:
  assumes "loops_inv (sd_cfg s) ends (sd_loops s)"
  shows "loops_inv (sd_cfg s)
    (ends @ [\<lparr>we_module = m, we_canonical = t_Canonical t, we_time = now, we_failed = failed err\<rparr>])
    (sd_loops (scan_done now m t err s))"
  using assms by (auto simp: loops_inv_def scan_done_loops recent_failures_snoc retry_gate_def add.commute)

lemma finish_inv:
  assumes "loops_inv (sd_cfg s) ends (sd_loops s)"
  shows "loops_inv (sd_cfg s) (ends @ logged now (sd_running s ! k) (fst (scan_outcome newID now (sd_running s ! k) collected s)))
    (sd_loops (finish newID now k collected s))"
proof -
  let ?sn = "sd_running s ! k"
  let ?s = "s\<lparr>sd_running := take k (sd_running s) @ drop (Suc k) (sd_running s), sd_sem := sem_receive (sd_sem s)\<rparr>"
  obtain err s' where out: "scan_outcome newID now ?sn collected ?s = (err, s')" by force
  have same: "fst (scan_outcome newID now ?sn collected ?s) = fst (scan_outcome newID now ?sn collected s)"
    by (auto simp: scan_outcome_def Let_def split: sum.split option.split prod.split)
  have keep: "sd_cfg s' = sd_cfg s" "sd_loops s' = sd_loops s"
    using scan_outcome_keeps [of newID now ?sn collected ?s] out by simp_all
  show ?thesis
  proof (cases "sn_sweep ?sn")
    case True
    then show ?thesis
      using scan_done_inv [of s' ends "sn_module ?sn" "sn_target ?sn" now err] assms same out
      by (simp add: finish_def logged_def Let_def keep)
  next
    case False
    then show ?thesis using assms out by (simp add: finish_def logged_def Let_def keep)
  qed
qed

lemma give_up_inv:
  assumes "loops_inv (sd_cfg s) ends (sd_loops s)"
  shows "loops_inv (sd_cfg s) (ends @ logged now (sd_waiting s ! k) (Some Canceled)) (sd_loops (give_up now k s))"
  using scan_done_inv [of "s\<lparr>sd_waiting := take k (sd_waiting s) @ drop (Suc k) (sd_waiting s)\<rparr>" ends] assms
  by (simp add: give_up_def logged_def Let_def)

lemma run_loops: "sched_run newID cfg ends s \<Longrightarrow> loops_inv (sched_withDefaults cfg) ends (sd_loops s)"
proof (induction rule: sched_run.induct)
  case (new store g)
  show ?case by (simp add: loops_inv_def NewScheduler_def new_loop_def recent_failures_def retry_gate_def)
next
  case (finish ends s k now collected)
  then show ?case using finish_inv [of s ends now k newID collected] run_cfg [OF finish.hyps(1)] by simp
next
  case (give_up ends s k now)
  then show ?case using give_up_inv [of s ends now k] run_cfg [OF give_up.hyps(1)] by simp
qed (auto simp: keeps_loops)

text \<open>C35: A sweep starts a scan of exactly those targets of the module whose wait is over: a target that failed n times
  in a row in this module, the last time at t, is left alone until t plus the backoff of n. The failures
  of other targets and of scans outside the sweeps do not matter.\<close>

theorem sweep_scans_ready_targets:
  assumes "sched_run newID cfg ends s"
  shows "sd_waiting (sweep now m s) = sd_waiting s @
    map (\<lambda>t. \<lparr>sn_module = m, sn_target = t, sn_sweep = True\<rparr>)
      (filter (\<lambda>t. let es = recent_failures m (t_Canonical t) ends in
         es = [] \<or> we_time (hd es) + backoffFor (sched_withDefaults cfg) (int (length es)) \<le> now) (ListTargets m s))"
proof -
  have "backing_off now (sd_loops s m) t \<longleftrightarrow>
    \<not> (let es = recent_failures m (t_Canonical t) ends in
         es = [] \<or> we_time (hd es) + backoffFor (sched_withDefaults cfg) (int (length es)) \<le> now)" for t
    using run_loops [OF assms]
    by (cases "recent_failures m (t_Canonical t) ends")
      (auto simp: backing_off_def loops_inv_def retry_gate_def Let_def)
  then show ?thesis by (simp add: sweep_def)
qed

section \<open>A concrete run\<close>

text \<open>One target is added, the loop started, and the first scan, which a sweep starts at 5, fails at 7.\<close>

definition ex_module :: ModuleInfo where
  "ex_module = \<lparr>mi_ID = ''rulehawk'', mi_Name = '''', mi_Version = '''', mi_TargetKind = '''', mi_DefaultInterval = 1, mi_ResolveAfter = 1\<rparr>"

definition ex_target :: Target where
  "ex_target = \<lparr>t_Raw = ''edge'', t_Canonical = ''edge''\<rparr>"

definition ex_new_id :: "int \<Rightarrow> nat \<Rightarrow> (string + string) \<times> nat" where
  "ex_new_id now n = (Inr ''1'', n + 1)"

definition ex_registered :: "nat Scheduler" where
  "ex_registered = (NewScheduler NewMemStore 0 ex_sched)\<lparr>sd_modules :=
     [(''rulehawk'', \<lparr>rg_info = ex_module, rg_validate = (\<lambda>_. Inr ex_target), rg_targets = []\<rparr>)]\<rparr>"

definition ex_running :: "nat Scheduler" where
  "ex_running = the (acquire 0 (sweep 5 ''rulehawk'' (snd (Start (snd (AddTarget ''rulehawk'' ''edge'' ex_registered))))))"

definition ex_scan :: scan where
  "ex_scan = \<lparr>sn_module = ''rulehawk'', sn_target = ex_target, sn_sweep = True\<rparr>"

lemma ex_added:
  "snd (Start (snd (AddTarget ''rulehawk'' ''edge'' ex_registered))) = (NewScheduler NewMemStore 0 ex_sched)\<lparr>sd_modules :=
     [(''rulehawk'', \<lparr>rg_info = ex_module, rg_validate = (\<lambda>_. Inr ex_target), rg_targets = [(''edge'', ex_target)]\<rparr>)],
     sd_started := True\<rparr>"
  by (simp add: AddTarget_def Start_def ex_registered_def set_targets_def NewScheduler_def ex_target_def Let_def)

lemma ex_swept: "sd_waiting (sweep 5 ''rulehawk'' (snd (Start (snd (AddTarget ''rulehawk'' ''edge'' ex_registered))))) = [ex_scan]"
  unfolding ex_added
  by (simp add: sweep_def NewScheduler_def ListTargets_def snapshotTargets_def backing_off_def new_loop_def ex_scan_def)

lemma ex_defaults: "sched_withDefaults ex_sched = ex_sched"
  by (simp add: ex_sched_def sched_withDefaults_def Let_def)

lemma ex_acquired:
  "acquire 0 (sweep 5 ''rulehawk'' (snd (Start (snd (AddTarget ''rulehawk'' ''edge'' ex_registered))))) = Some ex_running"
  by (simp add: ex_running_def ex_added acquire_def sem_send_def sweep_def NewScheduler_def ex_defaults ex_sched_fields)

lemma ex_running_scan: "sd_running ex_running = [ex_scan]"
  using acquire_running [OF ex_acquired] ex_swept unfolding ex_added
  by (simp add: keeps_loops) (simp add: NewScheduler_def)

lemma ex_run: "sched_run ex_new_id ex_sched [] ex_running"
proof -
  have "Register ex_module (\<lambda>_. Inr ex_target) (NewScheduler NewMemStore 0 ex_sched) = Inr ex_registered"
    by (simp add: Register_def NewScheduler_def ex_registered_def ex_module_def)
  from sched_run.register [OF sched_run.new this] have "sched_run ex_new_id ex_sched [] ex_registered" .
  from sched_run.start [OF sched_run.add [OF this]]
  have "sched_run ex_new_id ex_sched [] (snd (Start (snd (AddTarget ''rulehawk'' ''edge'' ex_registered))))" .
  then have "sched_run ex_new_id ex_sched [] (sweep 5 ''rulehawk'' (snd (Start (snd (AddTarget ''rulehawk'' ''edge'' ex_registered)))))"
    by (rule sched_run.sweep) (simp_all add: ex_added NewScheduler_def)
  from sched_run.acquire [OF this _ ex_acquired] show ?thesis by (simp add: ex_swept)
qed

theorem workers_bound_witness: "int (length (sd_running ex_running)) \<le> 8"
  using workers_bound [OF ex_run] by (simp add: ex_defaults ex_sched_fields)

definition ex_failed :: "nat Scheduler" where
  "ex_failed = finish ex_new_id 7 0 (Inl (ScanFailed ''timeout'')) ex_running"

text \<open>A sweep 29 seconds after the failure leaves the target alone.\<close>

theorem sweep_scans_ready_targets_witness:
  "sd_waiting (sweep (7 + 29 * 1000000000) ''rulehawk'' ex_failed) = sd_waiting ex_failed"
proof -
  have "sched_run ex_new_id ex_sched ([] @ logged 7 (sd_running ex_running ! 0)
    (fst (scan_outcome ex_new_id 7 (sd_running ex_running ! 0) (Inl (ScanFailed ''timeout'')) ex_running))) ex_failed"
    unfolding ex_failed_def by (rule sched_run.finish [OF ex_run]) (simp add: ex_running_scan)
  then have run: "sched_run ex_new_id ex_sched
    [\<lparr>we_module = ''rulehawk'', we_canonical = ''edge'', we_time = 7, we_failed = True\<rparr>] ex_failed"
    by (simp add: ex_running_scan scan_outcome_def logged_def ex_scan_def failed_def ex_target_def)
  have one: "ListTargets ''rulehawk'' ex_failed = [ex_target]"
    by (simp add: ex_failed_def finish_def ex_running_scan ex_scan_def scan_outcome_def scan_done_def ListTargets_def Let_def
        snapshotTargets_def ex_running_def ex_added acquire_def sem_send_def sweep_def NewScheduler_def ex_defaults ex_sched_fields)
  have "backoffFor ex_sched 1 = 30 * 1000000000"
    using backoff_closed_form [of ex_sched 1] by (simp add: ex_sched_fields)
  then show ?thesis
    using sweep_scans_ready_targets [OF run, of "7 + 29 * 1000000000" "''rulehawk''"]
    by (simp add: one recent_failures_def ex_target_def ex_defaults Let_def)
qed

end
