(* ===== verification/License.thy ===== *)
theory License
  imports GoStrings
begin

text \<open>
  Package \<open>license\<close>: keys, their check, and what a tier allows. Base 64 (the raw URL alphabet of
  \<open>encoding/base64\<close>, whose decoder skips line ends) is modelled; the signature scheme and the JSON of
  the payload are parameters. The law the theorems ask of them is that what was signed verifies, and
  what was encoded decodes. Times are nanoseconds.
\<close>

section \<open>Base 64\<close>

definition b64_alphabet :: string where
  "b64_alphabet = ''ABCDEFGHIJKLMNOPQRSTUVWXYZabcdefghijklmnopqrstuvwxyz0123456789-_''"

definition b64_char :: "nat \<Rightarrow> char" where
  "b64_char d = b64_alphabet ! d"

definition b64_digit :: "char \<Rightarrow> nat option" where
  "b64_digit c = find_index (\<lambda>d. d = c) b64_alphabet"

fun EncodeToString :: "string \<Rightarrow> string" where
  "EncodeToString [] = []"
| "EncodeToString [a] =
     (let n = of_char a * 16 in [b64_char (n div 64), b64_char (n mod 64)])"
| "EncodeToString [a, b] =
     (let n = (of_char a * 256 + of_char b) * 4 in [b64_char (n div 4096), b64_char (n div 64 mod 64), b64_char (n mod 64)])"
| "EncodeToString (a # b # c # rest) =
     (let n = (of_char a * 256 + of_char b) * 256 + of_char c in
      b64_char (n div 262144) # b64_char (n div 4096 mod 64) # b64_char (n div 64 mod 64) # b64_char (n mod 64) #
        EncodeToString rest)"

text \<open>The decoder drops the bits that are left over in the last group, and refuses a single left-over symbol.\<close>

fun b64_groups :: "nat list \<Rightarrow> string option" where
  "b64_groups [] = Some []"
| "b64_groups [p] = None"
| "b64_groups [p, q] = (let n = p * 64 + q in Some [char_of (n div 16)])"
| "b64_groups [p, q, r] =
     (let n = (p * 64 + q) * 64 + r in Some [char_of (n div 1024), char_of (n div 4 mod 256)])"
| "b64_groups (p # q # r # s # rest) =
     (let n = ((p * 64 + q) * 64 + r) * 64 + s in
      map_option (\<lambda>out. char_of (n div 65536) # char_of (n div 256 mod 256) # char_of (n mod 256) # out) (b64_groups rest))"

definition DecodeString :: "string \<Rightarrow> string option" where
  "DecodeString s =
     (let ds = map b64_digit (filter (\<lambda>c. c \<noteq> CHR 0x0A \<and> c \<noteq> CHR 0x0D) s) in
      if list_all (\<lambda>d. d \<noteq> None) ds then b64_groups (map the ds) else None)"

section \<open>Tiers\<close>

text \<open>A tier is a string type in the code.\<close>

type_synonym Tier = string

definition TierFree :: Tier where "TierFree = ''free''"
definition TierPro :: Tier where "TierPro = ''pro''"
definition TierTeam :: Tier where "TierTeam = ''team''"

record Limits =
  lim_MaxTargets :: int
  lim_RetentionDays :: int
  lim_Channels :: "string list"
  lim_MultiUser :: bool
  lim_CustomInterval :: bool
  lim_ScanNow :: bool

definition free_limits :: Limits where
  "free_limits = \<lparr>lim_MaxTargets = 10, lim_RetentionDays = 7, lim_Channels = [''webhook''], lim_MultiUser = False,
     lim_CustomInterval = False, lim_ScanNow = False\<rparr>"

definition TierLimits :: "Tier \<Rightarrow> Limits option" where
  "TierLimits t =
     (if t = TierFree then Some free_limits
      else if t = TierPro then
        Some \<lparr>lim_MaxTargets = 100, lim_RetentionDays = 365, lim_Channels = [''webhook'', ''email'', ''slack'', ''telegram''],
          lim_MultiUser = False, lim_CustomInterval = True, lim_ScanNow = True\<rparr>
      else if t = TierTeam then
        Some \<lparr>lim_MaxTargets = 0, lim_RetentionDays = 0,
          lim_Channels = [''webhook'', ''email'', ''slack'', ''telegram'', ''pagerduty'', ''teams''], lim_MultiUser = True,
          lim_CustomInterval = True, lim_ScanNow = True\<rparr>
      else None)"

definition limitsFor :: "Tier \<Rightarrow> Limits" where
  "limitsFor t = (case TierLimits t of Some l \<Rightarrow> l | None \<Rightarrow> free_limits)"

section \<open>Keys\<close>

record LicenseKey =
  l_Product :: string
  l_Tier :: Tier
  l_Email :: string
  l_IssuedAt :: int
  l_ExpiresAt :: int
  l_KeyID :: string

definition zero_license :: LicenseKey where
  "zero_license = \<lparr>l_Product = '''', l_Tier = '''', l_Email = '''', l_IssuedAt = 0, l_ExpiresAt = 0, l_KeyID = ''''\<rparr>"

definition license_prefix :: string where
  "license_prefix = ''SNTL1-''"

text \<open>The scheme: the signature of a payload, its check, and the JSON of a license both ways.\<close>

record 'priv scheme =
  sc_Sign :: "'priv \<Rightarrow> string \<Rightarrow> string"
  sc_Verify :: "string \<Rightarrow> string \<Rightarrow> string \<Rightarrow> bool"
  sc_Marshal :: "LicenseKey \<Rightarrow> string option"
  sc_Unmarshal :: "string \<Rightarrow> LicenseKey option"

datatype sign_error = NeedsProductAndTier | MarshalFailed

definition Sign :: "'priv scheme \<Rightarrow> 'priv \<Rightarrow> LicenseKey \<Rightarrow> sign_error + string" where
  "Sign sc priv lic =
     (if l_Product lic = '''' \<or> l_Tier lic = '''' then Inl NeedsProductAndTier
      else (case sc_Marshal sc lic of
          None \<Rightarrow> Inl MarshalFailed
        | Some payload \<Rightarrow>
            Inr (license_prefix @ EncodeToString payload @ ''.'' @ EncodeToString (sc_Sign sc priv payload))))"

datatype license_error = ErrMalformed | ErrBadSignature | ErrWrongProduct string | ErrExpired

definition PublicKeySize :: nat where
  "PublicKeySize = 32"

text \<open>The license is returned with the error, as in the code: it is the zero one except on expiry.\<close>

definition Verify :: "'priv scheme \<Rightarrow> string \<Rightarrow> string \<Rightarrow> string \<Rightarrow> int \<Rightarrow> LicenseKey \<times> license_error option" where
  "Verify sc pub product key now =
     (if \<not> HasPrefix key license_prefix then (zero_license, Some ErrMalformed)
      else (case Cut (TrimPrefix (TrimSpace key) license_prefix) (CHR ''.'') of
          None \<Rightarrow> (zero_license, Some ErrMalformed)
        | Some (p0, p1) \<Rightarrow>
            (case (DecodeString p0, DecodeString p1) of
               (Some payload, Some sig) \<Rightarrow>
                 (if length pub \<noteq> PublicKeySize then (zero_license, Some ErrBadSignature)
                  else if \<not> sc_Verify sc pub payload sig then (zero_license, Some ErrBadSignature)
                  else (case sc_Unmarshal sc payload of
                      None \<Rightarrow> (zero_license, Some ErrMalformed)
                    | Some lic \<Rightarrow>
                        if l_Product lic \<noteq> product then (zero_license, Some (ErrWrongProduct (l_Product lic)))
                        else if now > l_ExpiresAt lic then (lic, Some ErrExpired)
                        else (lic, None)))
             | _ \<Rightarrow> (zero_license, Some ErrMalformed))))"

section \<open>Activation\<close>

record Activation =
  a_Tier :: Tier
  a_Limits :: Limits
  a_License :: "LicenseKey option"
  a_Notice :: string

text \<open>The dash of the messages is its three bytes; \<open>format_date\<close> is \<open>Format\<close> of a time.\<close>

definition free_activation :: "string \<Rightarrow> Activation" where
  "free_activation notice = \<lparr>a_Tier = TierFree, a_Limits = free_limits, a_License = None, a_Notice = notice\<rparr>"

definition Activate :: "'priv scheme \<Rightarrow> (int \<Rightarrow> string) \<Rightarrow> string \<Rightarrow> string \<Rightarrow> string \<Rightarrow> int \<Rightarrow> Activation" where
  "Activate sc format_date pub product key now =
     (let em = [CHR 0xE2, CHR 0x80, CHR 0x94] in
      if length pub \<noteq> PublicKeySize then
        free_activation (if TrimSpace key \<noteq> '''' then
          ''This is the free edition, which cannot activate license keys. '' @
          ''Download the licensed build to use your key '' @ em @ '' your key is fine.'' else '''')
      else if TrimSpace key = '''' then free_activation ''''
      else (case Verify sc pub product key now of
          (lic, None) \<Rightarrow>
            \<lparr>a_Tier = l_Tier lic, a_Limits = limitsFor (l_Tier lic), a_License = Some lic, a_Notice = ''''\<rparr>
        | (lic, Some ErrExpired) \<Rightarrow>
            free_activation (''License expired on '' @ format_date (l_ExpiresAt lic) @ '' '' @ em @
              '' running on free limits. Renew to restore your tier.'')
        | (lic, Some _) \<Rightarrow>
            free_activation (''License key is not valid for this product '' @ em @ '' running on free limits.'')))"

definition CanAddTarget :: "Activation \<Rightarrow> int \<Rightarrow> bool" where
  "CanAddTarget a current \<longleftrightarrow> lim_MaxTargets (a_Limits a) = 0 \<or> current < lim_MaxTargets (a_Limits a)"

fun channel_loop :: "string \<Rightarrow> string list \<Rightarrow> bool" where
  "channel_loop name [] = False"
| "channel_loop name (c # cs) = (if c = name then True else channel_loop name cs)"

definition AllowsChannel :: "Activation \<Rightarrow> string \<Rightarrow> bool" where
  "AllowsChannel a name = channel_loop name (lim_Channels (a_Limits a))"

text \<open>\<open>None\<close> is the zero time; \<open>AddDate\<close> of a number of days is a parameter, as it depends on the time zone.\<close>

definition RetentionCutoff :: "(int \<Rightarrow> int \<Rightarrow> int) \<Rightarrow> Activation \<Rightarrow> int \<Rightarrow> int option" where
  "RetentionCutoff add_days a now =
     (if lim_RetentionDays (a_Limits a) = 0 then None else Some (add_days now (- lim_RetentionDays (a_Limits a))))"

section \<open>Base 64 round trip\<close>

fun b64_digits :: "string \<Rightarrow> nat list" where
  "b64_digits [] = []"
| "b64_digits [a] = (let n = of_char a * 16 in [n div 64, n mod 64])"
| "b64_digits [a, b] = (let n = (of_char a * 256 + of_char b) * 4 in [n div 4096, n div 64 mod 64, n mod 64])"
| "b64_digits (a # b # c # rest) =
     (let n = (of_char a * 256 + of_char b) * 256 + of_char c in
      n div 262144 # n div 4096 mod 64 # n div 64 mod 64 # n mod 64 # b64_digits rest)"

lemma encode_digits: "EncodeToString s = map b64_char (b64_digits s)"
  by (induction s rule: b64_digits.induct) (simp_all add: Let_def)

lemma char_bound: "(of_char c :: nat) < 256"
  by simp

lemma b64_digits_bound: "d \<in> set (b64_digits s) \<Longrightarrow> d < 64"
proof (induction s rule: b64_digits.induct)
  case (2 a)
  have "x * 16 div 64 < 64" if "x < 256" for x :: nat using that by (simp add: div_less_iff_less_mult)
  with 2 char_bound [of a] show ?case by (auto simp: Let_def)
next
  case (3 a b)
  have "(x * 256 + y) * 4 div 4096 < 64" if "x < 256" "y < 256" for x y :: nat
    using that by (simp add: div_less_iff_less_mult)
  from this [OF char_bound char_bound, of a b] 3 show ?case by (auto simp: Let_def)
next
  case (4 a b c rest)
  have "((x * 256 + y) * 256 + z) div 262144 < 64" if "x < 256" "y < 256" "z < 256" for x y z :: nat
    using that by (simp add: div_less_iff_less_mult)
  from this [OF char_bound char_bound char_bound, of a b c] 4 show ?case by (auto simp: Let_def)
qed simp

text \<open>Groups of six bits put together again.\<close>

lemma join_digits:
  "(n div 64) * 64 + n mod 64 = n"
  "((n div 4096) * 64 + n div 64 mod 64) * 64 + n mod 64 = n"
  "(((n div 262144) * 64 + n div 4096 mod 64) * 64 + n div 64 mod 64) * 64 + n mod 64 = n" for n :: nat
proof -
  have two: "n div 4096 = n div 64 div 64" and three: "n div 262144 = n div 4096 div 64" for n :: nat
    by (simp_all add: div_mult2_eq [symmetric])
  show "(n div 64) * 64 + n mod 64 = n" by (rule div_mult_mod_eq)
  show "((n div 4096) * 64 + n div 64 mod 64) * 64 + n mod 64 = n"
    unfolding two by (simp only: div_mult_mod_eq)
  show "(((n div 262144) * 64 + n div 4096 mod 64) * 64 + n div 64 mod 64) * 64 + n mod 64 = n"
    unfolding three div_mult_mod_eq [of "n div 4096"] two by (simp only: div_mult_mod_eq)
qed

lemma split_bytes:
  "x < 256 \<Longrightarrow> y < 256 \<Longrightarrow> z < 256 \<Longrightarrow>
    x * 16 div 16 = x \<and> (x * 256 + y) * 4 div 1024 = x \<and> (x * 256 + y) * 4 div 4 mod 256 = y \<and>
    ((x * 256 + y) * 256 + z) div 65536 = x \<and> ((x * 256 + y) * 256 + z) div 256 mod 256 = y \<and>
    ((x * 256 + y) * 256 + z) mod 256 = z" for x y z :: nat
proof -
  assume b: "x < 256" "y < 256" "z < 256"
  have one: "(w * 256 + v) div 256 = w \<and> (w * 256 + v) mod 256 = v" if "v < 256" for w v :: nat using that by simp
  have "n div 65536 = n div 256 div 256" for n :: nat by (simp add: div_mult2_eq [symmetric])
  moreover have "x * 16 div 16 = x" "(x * 256 + y) * 4 div 1024 = x" "(x * 256 + y) * 4 div 4 mod 256 = y"
    using b by simp_all
  ultimately show ?thesis by (simp only: one [OF b(2)] one [OF b(3)] simp_thms)
qed

lemma b64_char_digit: "d < 64 \<Longrightarrow> b64_digit (b64_char d) = Some d \<and> b64_char d \<noteq> CHR 0x0A \<and> b64_char d \<noteq> CHR 0x0D"
proof -
  have "\<forall>d \<in> {..<64}. b64_digit (b64_char d) = Some d \<and> b64_char d \<noteq> CHR 0x0A \<and> b64_char d \<noteq> CHR 0x0D"
    unfolding b64_digit_def b64_char_def b64_alphabet_def by code_simp
  then show "d < 64 \<Longrightarrow> ?thesis" by simp
qed

lemma b64_groups_digits: "b64_groups (b64_digits s) = Some s"
proof (induction s rule: b64_digits.induct)
  case (2 a)
  show ?case
    by (simp only: b64_digits.simps b64_groups.simps Let_def join_digits split_bytes [OF char_bound char_bound char_bound]
        char_of_char)
next
  case (3 a b)
  show ?case
    by (simp only: b64_digits.simps b64_groups.simps Let_def join_digits split_bytes [OF char_bound char_bound char_bound]
        char_of_char)
next
  case (4 a b c rest)
  show ?case
    by (simp only: b64_digits.simps b64_groups.simps Let_def join_digits split_bytes [OF char_bound char_bound char_bound]
        char_of_char 4 option.map)
qed simp

lemma Decode_Encode [simp]: "DecodeString (EncodeToString s) = Some s"
proof -
  have no: "filter (\<lambda>c. c \<noteq> CHR 0x0A \<and> c \<noteq> CHR 0x0D) (EncodeToString s) = EncodeToString s"
    using b64_char_digit b64_digits_bound by (auto simp: encode_digits filter_id_conv)
  have digits: "map b64_digit (EncodeToString s) = map Some (b64_digits s)"
    using b64_char_digit b64_digits_bound by (auto simp: encode_digits)
  show ?thesis by (simp add: DecodeString_def no digits comp_def b64_groups_digits list_all_iff)
qed

section \<open>Properties\<close>

text \<open>The law of the scheme: a signature made with the private key verifies, and the JSON of a license is read back.\<close>

definition sound_scheme :: "'priv scheme \<Rightarrow> string \<Rightarrow> 'priv \<Rightarrow> bool" where
  "sound_scheme sc pub priv \<longleftrightarrow>
     (\<forall>payload. sc_Verify sc pub payload (sc_Sign sc priv payload)) \<and>
     (\<forall>lic payload. sc_Marshal sc lic = Some payload \<longrightarrow> sc_Unmarshal sc payload = Some lic)"

lemma b64_plain: "c \<in> set (EncodeToString s) \<Longrightarrow> \<not> is_space c \<and> c \<noteq> CHR ''.''"
proof -
  have "\<forall>d \<in> {..<64}. \<not> is_space (b64_char d) \<and> b64_char d \<noteq> CHR ''.''"
    unfolding b64_char_def b64_alphabet_def is_space_def by code_simp
  then show "c \<in> set (EncodeToString s) \<Longrightarrow> ?thesis"
    using b64_digits_bound by (auto simp: encode_digits)
qed

lemma find_index_append: "\<forall>x \<in> set xs. \<not> P x \<Longrightarrow> P y \<Longrightarrow> find_index P (xs @ y # ys) = Some (length xs)"
  by (induction xs) auto

lemma Cut_append: "sep \<notin> set s \<Longrightarrow> Cut (s @ sep # t) sep = Some (s, t)"
proof -
  assume "sep \<notin> set s"
  then have "find_index (\<lambda>c. c = sep) (s @ sep # t) = Some (length s)" by (intro find_index_append) auto
  then show ?thesis by (simp add: Cut_def)
qed

lemma Verify_Sign:
  assumes "sound_scheme sc pub priv" and "length pub = PublicKeySize" and "Sign sc priv lic = Inr key"
  shows "Verify sc pub product key now =
    (if l_Product lic \<noteq> product then (zero_license, Some (ErrWrongProduct (l_Product lic)))
     else if now > l_ExpiresAt lic then (lic, Some ErrExpired) else (lic, None))"
    and "TrimSpace key \<noteq> ''''"
proof -
  obtain payload where payload: "sc_Marshal sc lic = Some payload"
    and key: "key = license_prefix @ EncodeToString payload @ ''.'' @ EncodeToString (sc_Sign sc priv payload)"
    using assms(3) by (auto simp: Sign_def split: if_splits option.splits)
  have "\<forall>c \<in> set key. \<not> is_space c"
    unfolding key using b64_plain by (auto simp: license_prefix_def is_space_def less_eq_char_def)
  then have trim: "TrimSpace key = key" by (rule TrimSpace_no_space)
  have "HasPrefix key license_prefix" by (simp add: HasPrefix_def key)
  moreover have "Cut (TrimPrefix key license_prefix) (CHR ''.'') =
      Some (EncodeToString payload, EncodeToString (sc_Sign sc priv payload))"
    using b64_plain Cut_append [of "CHR ''.''" "EncodeToString payload"]
    by (auto simp: TrimPrefix_def HasPrefix_def key)
  ultimately show "Verify sc pub product key now =
    (if l_Product lic \<noteq> product then (zero_license, Some (ErrWrongProduct (l_Product lic)))
     else if now > l_ExpiresAt lic then (lic, Some ErrExpired) else (lic, None))"
    using assms(1,2) payload by (simp add: Verify_def trim sound_scheme_def)
  show "TrimSpace key \<noteq> ''''" unfolding trim by (simp add: key license_prefix_def)
qed

text \<open>C34: A key that the seller signs activates its tier on the product it names until its expiry, runs on free
  limits with the expiry notice afterwards, and on free limits on every other product.\<close>

theorem signed_key_activates:
  assumes "sound_scheme sc pub priv" and "length pub = PublicKeySize" and "Sign sc priv lic = Inr key"
  shows "Activate sc format_date pub product key now =
    (if l_Product lic = product \<and> now \<le> l_ExpiresAt lic then
       \<lparr>a_Tier = l_Tier lic, a_Limits = limitsFor (l_Tier lic), a_License = Some lic, a_Notice = ''''\<rparr>
     else free_activation (a_Notice (Activate sc format_date pub product key now)))"
  using Verify_Sign [OF assms] assms(2) by (simp add: Activate_def Let_def free_activation_def)

definition ex_scheme :: "unit scheme" where
  "ex_scheme = \<lparr>sc_Sign = (\<lambda>_ p. p), sc_Verify = (\<lambda>_ p s. p = s),
     sc_Marshal = (\<lambda>l. if l = zero_license\<lparr>l_Product := ''rulehawk'', l_Tier := TierPro, l_ExpiresAt := 9\<rparr> then Some ''x'' else None),
     sc_Unmarshal = (\<lambda>p. if p = ''x'' then Some (zero_license\<lparr>l_Product := ''rulehawk'', l_Tier := TierPro, l_ExpiresAt := 9\<rparr>) else None)\<rparr>"

lemma signed_key_activates_witness:
  "a_Tier (Activate ex_scheme (\<lambda>_. '''') (replicate 32 CHR ''k'') ''rulehawk''
     (license_prefix @ EncodeToString ''x'' @ ''.'' @ EncodeToString ''x'') 8) = TierPro"
proof -
  define lic where "lic = zero_license\<lparr>l_Product := ''rulehawk'', l_Tier := TierPro, l_ExpiresAt := 9\<rparr>"
  have "sound_scheme ex_scheme (replicate 32 CHR ''k'') ()" by (simp add: sound_scheme_def ex_scheme_def)
  moreover have "length (replicate 32 CHR ''k'') = PublicKeySize" by (simp add: PublicKeySize_def)
  moreover have "Sign ex_scheme () lic = Inr (license_prefix @ EncodeToString ''x'' @ ''.'' @ EncodeToString ''x'')"
    by (simp add: Sign_def lic_def ex_scheme_def TierPro_def)
  ultimately show ?thesis
    by (subst signed_key_activates [where lic = lic]) (simp_all add: lic_def)
qed

text \<open>C33: Whatever key is given, the product runs either on free limits or under a license whose payload carries a
  valid signature, names this product and has not expired; it never fails.\<close>

theorem activation_is_authorised:
  "let act = Activate sc format_date pub product key now in
   act = free_activation (a_Notice act) \<or>
   (\<exists>payload sig lic. a_License act = Some lic \<and> length pub = PublicKeySize \<and> sc_Verify sc pub payload sig \<and>
      sc_Unmarshal sc payload = Some lic \<and> l_Product lic = product \<and> now \<le> l_ExpiresAt lic \<and>
      a_Tier act = l_Tier lic \<and> a_Limits act = limitsFor (l_Tier lic))"
proof (cases "length pub = PublicKeySize \<and> TrimSpace key \<noteq> ''''")
  case False
  then show ?thesis by (auto simp: Activate_def Let_def free_activation_def)
next
  case True
  obtain lic e where v: "Verify sc pub product key now = (lic, e)" by (cases "Verify sc pub product key now")
  show ?thesis
  proof (cases e)
    case None
    with v have "\<exists>payload sig. sc_Verify sc pub payload sig \<and> sc_Unmarshal sc payload = Some lic \<and>
        l_Product lic = product \<and> now \<le> l_ExpiresAt lic"
      by (fastforce simp: Verify_def split: if_splits option.splits)
    then show ?thesis using True v None by (auto simp: Activate_def Let_def)
  next
    case (Some err)
    then show ?thesis using True v by (cases err) (simp_all add: Activate_def Let_def free_activation_def)
  qed
qed

end
