(* ===== verification/Web.thy ===== *)
theory Web
  imports License Sched
begin

text \<open>
  Package \<open>web\<close>, file \<open>server.go\<close>: the dashboard's handlers, from the decoded request (\<open>None\<close> when its JSON does not
  decode) to the status code, the two finding headers and the value of the body. The store is the one
  the scheduler's engine writes to, and it also keeps the targets, as \<open>cmd/rulehawk/main.go\<close> wires them; the handlers
  reach it through the operations of its interfaces, each of which may fail. The
  license file is its content, \<open>None\<close> when it cannot be read; \<open>os.WriteFile\<close> is a function of the data and the old
  content to the new content and whether it succeeded. The JSON encoding, the
  mux and the static files are left out.
\<close>

section \<open>The store\<close>

text \<open>
  The interfaces \<open>Store\<close> and \<open>TargetStore\<close>, as far as the dashboard and the program call them: every operation returns an
  error or its result, and the state it leaves is unchanged when it fails.
\<close>

record StoreOps =
  so_Get :: "MemStore \<Rightarrow> string \<Rightarrow> string \<Rightarrow> string + Record option"
  so_Upsert :: "Record \<Rightarrow> MemStore \<Rightarrow> string + MemStore"
  so_ListOpen :: "MemStore \<Rightarrow> string \<Rightarrow> string + Record list"
  so_ListAll :: "MemStore \<Rightarrow> string \<Rightarrow> string + Record list"
  so_SaveTarget :: "string \<Rightarrow> string \<Rightarrow> string \<Rightarrow> MemStore \<Rightarrow> string + MemStore"
  so_DeleteTarget :: "string \<Rightarrow> string \<Rightarrow> MemStore \<Rightarrow> string + MemStore"
  so_ListSavedTargets :: "MemStore \<Rightarrow> string \<Rightarrow> string + string list"

text \<open>The methods of \<open>MemStore\<close>, which never fail.\<close>

definition mem_StoreOps :: StoreOps where
  "mem_StoreOps =
     \<lparr>so_Get = (\<lambda>s m fp. Inr (mem_Get s m fp)), so_Upsert = (\<lambda>r s. Inr (mem_Upsert r s)),
      so_ListOpen = (\<lambda>s m. Inr (mem_ListOpen s m)), so_ListAll = (\<lambda>s m. Inr (mem_ListAll s m)),
      so_SaveTarget = (\<lambda>m raw canonical s. Inr (mem_SaveTarget m raw canonical s)),
      so_DeleteTarget = (\<lambda>m canonical s. Inr (mem_DeleteTarget m canonical s)),
      so_ListSavedTargets = (\<lambda>s m. Inr (mem_ListSavedTargets s m))\<rparr>"

lemma mem_StoreOps_simps [simp]:
  "so_Get mem_StoreOps s m fp = Inr (mem_Get s m fp)" "so_Upsert mem_StoreOps r s = Inr (mem_Upsert r s)"
  "so_ListOpen mem_StoreOps s m = Inr (mem_ListOpen s m)" "so_ListAll mem_StoreOps s m = Inr (mem_ListAll s m)"
  "so_SaveTarget mem_StoreOps m raw canonical s = Inr (mem_SaveTarget m raw canonical s)"
  "so_DeleteTarget mem_StoreOps m canonical s = Inr (mem_DeleteTarget m canonical s)"
  "so_ListSavedTargets mem_StoreOps s m = Inr (mem_ListSavedTargets s m)"
  by (simp_all add: mem_StoreOps_def)

section \<open>The server\<close>

text \<open>An empty \<open>LicenseFile\<close> is no file. \<open>sv_Targets\<close> tells whether a target store is set.\<close>

record 'priv Server =
  sv_Module :: ModuleInfo
  sv_Store :: StoreOps
  sv_Targets :: bool
  sv_TierLimits :: "(Tier \<Rightarrow> Limits option) option"
  sv_IssuerPub :: string
  sv_LicenseFile :: string
  sv_scheme :: "'priv scheme"
  sv_format_date :: "int \<Rightarrow> string"

record 'g World =
  w_sched :: "'g Scheduler"
  w_file :: "string option"
  w_activation :: Activation

definition NewServer :: "'priv Server \<Rightarrow> int \<Rightarrow> 'g Scheduler \<Rightarrow> string option \<Rightarrow> 'g World" where
  "NewServer sv now sched file =
     (let key = (if sv_LicenseFile sv \<noteq> '''' then (case file of Some b \<Rightarrow> TrimSpace b | None \<Rightarrow> '''') else '''')
      in \<lparr>w_sched = sched, w_file = file,
          w_activation = Activate (sv_scheme sv) (sv_format_date sv) (sv_IssuerPub sv) (mi_ID (sv_Module sv)) key now\<rparr>)"

definition effLimits :: "'priv Server \<Rightarrow> 'g World \<Rightarrow> Limits" where
  "effLimits sv w =
     (case sv_TierLimits sv of
        Some table \<Rightarrow> (case table (a_Tier (w_activation w)) of Some l \<Rightarrow> l | None \<Rightarrow> a_Limits (w_activation w))
      | None \<Rightarrow> a_Limits (w_activation w))"

definition canAdd :: "Limits \<Rightarrow> int \<Rightarrow> bool" where
  "canAdd l current \<longleftrightarrow> lim_MaxTargets l = 0 \<or> current < lim_MaxTargets l"

text \<open>The table of \<open>main.go\<close>.\<close>

definition rulehawkTierLimits :: "Tier \<Rightarrow> Limits option" where
  "rulehawkTierLimits t =
     (if t = TierFree then
        Some \<lparr>lim_MaxTargets = 1, lim_RetentionDays = 30, lim_Channels = [''webhook'', ''syslog'', ''file'', ''splunk-hec''],
          lim_MultiUser = False, lim_CustomInterval = False, lim_ScanNow = False\<rparr>
      else if t = TierPro then
        Some \<lparr>lim_MaxTargets = 25, lim_RetentionDays = 365,
          lim_Channels = [''webhook'', ''syslog'', ''file'', ''splunk-hec'', ''email'', ''slack'', ''telegram''],
          lim_MultiUser = False, lim_CustomInterval = True, lim_ScanNow = True\<rparr>
      else if t = TierTeam then
        Some \<lparr>lim_MaxTargets = 0, lim_RetentionDays = 0,
          lim_Channels = [''webhook'', ''syslog'', ''file'', ''splunk-hec'', ''email'', ''slack'', ''telegram'', ''pagerduty'', ''teams''],
          lim_MultiUser = True, lim_CustomInterval = True, lim_ScanNow = True\<rparr>
      else None)"

section \<open>Responses\<close>

record summaryResponse =
  sm_Product :: string
  sm_Tier :: Tier
  sm_Notice :: string
  sm_Counts :: "string \<Rightarrow> int option"
  sm_OpenTotal :: int
  sm_Targets :: int
  sm_MaxTargets :: int
  sm_CanScanNow :: bool
  sm_TargetKind :: string

record findingJSON =
  fj_Fingerprint :: string
  fj_Target :: string
  fj_Check :: string
  fj_Title :: string
  fj_Severity :: string
  fj_Status :: string
  fj_Remediation :: string
  fj_Evidence :: "evidence option"
  fj_FirstSeen :: int
  fj_LastSeen :: int

datatype web_body =
    WebError string
  | SummaryBody summaryResponse
  | FindingsBody "findingJSON list"
  | SnapshotBody "string list"
  | OkBody
  | TargetsBody "(string \<times> string) list"
  | CanonicalBody string
  | LicenseBody Tier string "(string \<times> int) option"
  | TierBody Tier

record web_response =
  wr_code :: nat
  wr_total :: "int option"
  wr_shown :: "int option"
  wr_body :: web_body

definition writeJSON :: "web_body \<Rightarrow> web_response" where
  "writeJSON b = \<lparr>wr_code = 200, wr_total = None, wr_shown = None, wr_body = b\<rparr>"

definition httpError :: "nat \<Rightarrow> string \<Rightarrow> web_response" where
  "httpError code msg = \<lparr>wr_code = code, wr_total = None, wr_shown = None, wr_body = WebError msg\<rparr>"

section \<open>Summary and findings\<close>

text \<open>The map of counts, by severity; \<open>None\<close> is a missing key.\<close>

fun count_severities :: "Record list \<Rightarrow> (string \<Rightarrow> int option) \<Rightarrow> (string \<Rightarrow> int option)" where
  "count_severities [] m = m"
| "count_severities (r # rs) m =
     (let k = severity_str (f_Severity r) in count_severities rs (m(k \<mapsto> (case m k of None \<Rightarrow> 0 | Some n \<Rightarrow> n) + 1)))"

definition handleSummary :: "'priv Server \<Rightarrow> 'g World \<Rightarrow> web_response" where
  "handleSummary sv w =
     (case so_ListOpen (sv_Store sv) (sd_store (w_sched w)) (mi_ID (sv_Module sv)) of
        Inl _ \<Rightarrow> httpError 500 ''store error''
      | Inr recs \<Rightarrow>
          (let counts = count_severities recs (\<lambda>_. None);
               act = w_activation w;
               lim = effLimits sv w
           in writeJSON (SummaryBody
             \<lparr>sm_Product = mi_Name (sv_Module sv), sm_Tier = a_Tier act, sm_Notice = a_Notice act, sm_Counts = counts,
              sm_OpenTotal = int (length recs), sm_Targets = int (length (ListTargets (mi_ID (sv_Module sv)) (w_sched w))),
              sm_MaxTargets = lim_MaxTargets lim, sm_CanScanNow = lim_ScanNow lim, sm_TargetKind = mi_TargetKind (sv_Module sv)\<rparr>)))"

definition findingsTopN :: nat where
  "findingsTopN = 500"

fun web_severityRank :: "Severity \<Rightarrow> int" where
  "web_severityRank SeverityCritical = 0"
| "web_severityRank SeverityHigh = 1"
| "web_severityRank SeverityMedium = 2"
| "web_severityRank SeverityLow = 3"
| "web_severityRank SeverityInfo = 4"
| "web_severityRank (SeverityUnknown _) = 5"

definition keptFindings :: "int \<Rightarrow> Record list \<Rightarrow> Record list" where
  "keptFindings now recs =
     filter (\<lambda>r. \<not> (f_Status r = StatusResolved \<and>
       (case f_ResolvedAt r of None \<Rightarrow> True | Some t \<Rightarrow> now - t > 24 * 3600 * 1000000000))) recs"

definition toFindingJSON :: "Record \<Rightarrow> findingJSON" where
  "toFindingJSON r =
     \<lparr>fj_Fingerprint = f_Fingerprint r, fj_Target = f_Target r, fj_Check = f_Check r, fj_Title = f_Title r,
      fj_Severity = severity_str (f_Severity r), fj_Status = f_Status r, fj_Remediation = f_Remediation r,
      fj_Evidence = f_Evidence r, fj_FirstSeen = f_FirstSeen r, fj_LastSeen = f_LastSeen r\<rparr>"

definition handleFindings :: "'priv Server \<Rightarrow> int \<Rightarrow> 'g World \<Rightarrow> web_response" where
  "handleFindings sv now w =
     (case so_ListAll (sv_Store sv) (sd_store (w_sched w)) (mi_ID (sv_Module sv)) of
        Inl _ \<Rightarrow> httpError 500 ''store error''
      | Inr recs \<Rightarrow>
          (let kept = keptFindings now recs;
               total = length kept;
               shown = (if total > findingsTopN
                 then take findingsTopN (sort_key (\<lambda>r. web_severityRank (f_Severity r)) kept) else kept);
               out = map toFindingJSON shown
           in \<lparr>wr_code = 200, wr_total = Some (int total), wr_shown = Some (int (length out)), wr_body = FindingsBody out\<rparr>))"

text \<open>The export; \<open>hfs_line\<close> is the finding schema's line of a record, \<open>None\<close> when it does not marshal.\<close>

definition handleFindingsExport :: "(Record \<Rightarrow> string option) \<Rightarrow> 'priv Server \<Rightarrow> int \<Rightarrow> string \<Rightarrow> 'g World \<Rightarrow> web_response" where
  "handleFindingsExport hfs_line sv now format w =
     (case so_ListAll (sv_Store sv) (sd_store (w_sched w)) (mi_ID (sv_Module sv)) of
        Inl _ \<Rightarrow> httpError 500 ''store error''
      | Inr recs \<Rightarrow>
          (let kept = keptFindings now recs
           in \<lparr>wr_code = 200, wr_total = Some (int (length kept)), wr_shown = None,
               wr_body = (if format = ''hfs'' then SnapshotBody (List.map_filter hfs_line kept)
                 else FindingsBody (map toFindingJSON kept))\<rparr>))"

text \<open>The request is a fingerprint and a status.\<close>

definition handleFindingStatus :: "'priv Server \<Rightarrow> (string \<times> string) option \<Rightarrow> 'g World \<Rightarrow> web_response \<times> 'g World" where
  "handleFindingStatus sv decoded w =
     (case decoded of
        None \<Rightarrow> (httpError 400 ''invalid JSON'', w)
      | Some (fingerprint, next_status) \<Rightarrow>
          if \<not> (next_status = StatusAcknowledged \<or> next_status = StatusSuppressed \<or> next_status = StatusOpen)
          then (httpError 400 ''status must be acknowledged, suppressed, or open'', w)
          else (case so_Get (sv_Store sv) (sd_store (w_sched w)) (mi_ID (sv_Module sv)) fingerprint of
              Inl _ \<Rightarrow> (httpError 404 ''finding not found'', w)
            | Inr None \<Rightarrow> (httpError 404 ''finding not found'', w)
            | Inr (Some rec) \<Rightarrow>
                (case so_Upsert (sv_Store sv) (rec\<lparr>f_Status := next_status\<rparr>) (sd_store (w_sched w)) of
                   Inl _ \<Rightarrow> (httpError 500 ''store error'', w)
                 | Inr st \<Rightarrow> (writeJSON OkBody, w\<lparr>w_sched := (w_sched w)\<lparr>sd_store := st\<rparr>\<rparr>))))"

section \<open>Targets\<close>

definition handleListTargets :: "'priv Server \<Rightarrow> 'g World \<Rightarrow> web_response" where
  "handleListTargets sv w =
     writeJSON (TargetsBody (map (\<lambda>t. (t_Raw t, t_Canonical t)) (ListTargets (mi_ID (sv_Module sv)) (w_sched w))))"

definition upgrade_url :: string where
  "upgrade_url = ''Pro and Team: https://whop.com/nizar-tuanku/rulehawk?utm_source=app''"

definition web_dash :: string where
  "web_dash = [CHR 0xE2, CHR 0x80, CHR 0x94]"

definition handleAddTarget :: "'priv Server \<Rightarrow> string option \<Rightarrow> 'g World \<Rightarrow> web_response \<times> 'g World" where
  "handleAddTarget sv decoded w =
     (case decoded of
        None \<Rightarrow> (httpError 400 ''invalid JSON'', w)
      | Some raw \<Rightarrow>
          (let m = mi_ID (sv_Module sv); current = length (ListTargets m (w_sched w)) in
           if \<not> canAdd (effLimits sv w) (int current)
           then (httpError 402 (''target limit reached for your tier '' @ web_dash @ '' '' @ upgrade_url), w)
           else (case AddTarget m raw (w_sched w) of
               (Inl err, _) \<Rightarrow> (httpError 400 err, w)
             | (Inr t, s) \<Rightarrow>
                 if \<not> sv_Targets sv then (writeJSON (CanonicalBody (t_Canonical t)), w\<lparr>w_sched := s\<rparr>)
                 else (case so_SaveTarget (sv_Store sv) m (t_Raw t) (t_Canonical t) (sd_store s) of
                     Inl _ \<Rightarrow> (httpError 500 ''target added but could not be persisted'', w\<lparr>w_sched := s\<rparr>)
                   | Inr st \<Rightarrow> (writeJSON (CanonicalBody (t_Canonical t)), w\<lparr>w_sched := s\<lparr>sd_store := st\<rparr>\<rparr>)))))"

text \<open>The error of the deletion is ignored.\<close>

definition handleRemoveTarget :: "'priv Server \<Rightarrow> string \<Rightarrow> 'g World \<Rightarrow> web_response \<times> 'g World" where
  "handleRemoveTarget sv canonical w =
     (if canonical = '''' then (httpError 400 ''canonical query parameter required'', w)
      else
        (let m = mi_ID (sv_Module sv);
             s = RemoveTarget m canonical (w_sched w);
             s = (if sv_Targets sv then
                 (case so_DeleteTarget (sv_Store sv) m canonical (sd_store s) of
                    Inl _ \<Rightarrow> s
                  | Inr st \<Rightarrow> s\<lparr>sd_store := st\<rparr>)
               else s)
         in (writeJSON OkBody, w\<lparr>w_sched := s\<rparr>)))"

text \<open>The scans it waits for are started; \<open>ctx_err\<close> is the error of the request's context once they have ended.\<close>

definition handleScanNow :: "'priv Server \<Rightarrow> string option \<Rightarrow> 'g World \<Rightarrow> web_response \<times> 'g World" where
  "handleScanNow sv ctx_err w =
     (if \<not> lim_ScanNow (effLimits sv w)
      then (httpError 402 (''on-demand scans are a Pro feature '' @ web_dash @ '' scheduled scans continue as normal. '' @ upgrade_url), w)
      else (case ScanNow (mi_ID (sv_Module sv)) (w_sched w) of
          (Some err, _) \<Rightarrow> (httpError 500 err, w)
        | (None, s) \<Rightarrow>
            (case ctx_err of Some err \<Rightarrow> (httpError 500 err, w\<lparr>w_sched := s\<rparr>)
             | None \<Rightarrow> (writeJSON OkBody, w\<lparr>w_sched := s\<rparr>))))"

section \<open>License\<close>

definition handleGetLicense :: "'g World \<Rightarrow> web_response" where
  "handleGetLicense w =
     (let act = w_activation w in
      writeJSON (LicenseBody (a_Tier act) (a_Notice act) (map_option (\<lambda>l. (l_Email l, l_ExpiresAt l)) (a_License act))))"

definition handleSetLicense ::
  "'priv Server \<Rightarrow> int \<Rightarrow> (string \<Rightarrow> string option \<Rightarrow> string option \<times> bool) \<Rightarrow> string option \<Rightarrow> 'g World \<Rightarrow> web_response \<times> 'g World" where
  "handleSetLicense sv now write_file decoded w =
     (case decoded of
        None \<Rightarrow> (httpError 400 ''invalid JSON'', w)
      | Some k \<Rightarrow>
          (let key = TrimSpace k;
               act = Activate (sv_scheme sv) (sv_format_date sv) (sv_IssuerPub sv) (mi_ID (sv_Module sv)) key now
           in if a_Tier act = TierFree \<and> key \<noteq> '''' then (httpError 400 (a_Notice act), w)
              else
                (let (file, ok) = (if sv_LicenseFile sv \<noteq> '''' then write_file (key @ [CHR 0x0A]) (w_file w) else (w_file w, True));
                     w = w\<lparr>w_file := file\<rparr>
                 in if \<not> ok then (httpError 500 ''could not persist license key'', w)
                    else (writeJSON (TierBody (a_Tier act)), w\<lparr>w_activation := act\<rparr>))))"

section \<open>The routes\<close>

text \<open>The routes that change state, each with its decoded request.\<close>

datatype request =
    PostStatus "(string \<times> string) option"
  | PostTarget "string option"
  | DeleteTarget string
  | PostScan "string option"
  | PostLicense "string option"

fun Handler ::
  "'priv Server \<Rightarrow> int \<Rightarrow> (string \<Rightarrow> string option \<Rightarrow> string option \<times> bool) \<Rightarrow> request \<Rightarrow> 'g World \<Rightarrow> web_response \<times> 'g World" where
  "Handler sv now write_file (PostStatus r) w = handleFindingStatus sv r w"
| "Handler sv now write_file (PostTarget r) w = handleAddTarget sv r w"
| "Handler sv now write_file (DeleteTarget c) w = handleRemoveTarget sv c w"
| "Handler sv now write_file (PostScan e) w = handleScanNow sv e w"
| "Handler sv now write_file (PostLicense k) w = handleSetLicense sv now write_file k w"

end
