(* ===== verification/Program.thy ===== *)
theory Program
  imports Web Rulehawk
begin

text \<open>
  File \<open>cmd/rulehawk/main.go\<close>: how the parts are put together. The restart registers the module, adds the saved targets
  again and resolves the license; the config console adds a target for each config it saves and removes it
  with the config. The config store is an argument, so that the SQLite one can be given as in the program.
\<close>

section \<open>The restart\<close>

text \<open>A saved target that the scheduler refuses is skipped.\<close>

fun restore_targets :: "string \<Rightarrow> string list \<Rightarrow> 'g Scheduler \<Rightarrow> 'g Scheduler" where
  "restore_targets modID [] s = s"
| "restore_targets modID (raw # rest) s = restore_targets modID rest (snd (AddTarget modID raw s))"

definition zero_sched_config :: SchedConfig where
  "zero_sched_config = \<lparr>sc_Workers = 0, sc_ScanTimeout = 0, sc_JitterFraction = 0, sc_RetryBase = 0, sc_RetryMax = 0,
     sc_IntervalOverride = 0\<rparr>"

text \<open>
  The state up to the start of the scheduler, or the error the program ends with. When the saved targets cannot be
  read none is restored.
\<close>

definition boot :: "'priv Server \<Rightarrow> int \<Rightarrow> MemStore \<Rightarrow> 'g \<Rightarrow> string option \<Rightarrow> string + 'g World" where
  "boot sv now st g file =
     (case Register Describe ValidateTarget (NewScheduler st g zero_sched_config) of
        Inl err \<Rightarrow> Inl err
      | Inr s \<Rightarrow>
          (let modID = mi_ID Describe;
               s = (case so_ListSavedTargets (sv_Store sv) st modID of
                   Inl _ \<Rightarrow> s
                 | Inr saved \<Rightarrow> restore_targets modID saved s)
           in Inr (NewServer sv now s file)))"

text \<open>The server as \<open>main.go\<close> sets it up.\<close>

definition main_server :: "StoreOps \<Rightarrow> 'priv scheme \<Rightarrow> (int \<Rightarrow> string) \<Rightarrow> string \<Rightarrow> string \<Rightarrow> 'priv Server" where
  "main_server ops sc format_date pub licFile =
     \<lparr>sv_Module = Describe, sv_Store = ops, sv_Targets = True, sv_TierLimits = Some rulehawkTierLimits, sv_IssuerPub = pub,
      sv_LicenseFile = licFile, sv_scheme = sc, sv_format_date = format_date\<rparr>"

section \<open>The console's callbacks\<close>

text \<open>A target that is scheduled but cannot be saved makes the callback fail.\<close>

definition main_OnSaved :: "StoreOps \<Rightarrow> string \<Rightarrow> 'g World \<Rightarrow> string option \<times> 'g World" where
  "main_OnSaved ops name w =
     (let modID = mi_ID Describe in
      case AddTarget modID name (w_sched w) of
        (Inl err, s) \<Rightarrow> (Some err, w\<lparr>w_sched := s\<rparr>)
      | (Inr _, s) \<Rightarrow>
          (case so_SaveTarget ops modID name name (sd_store s) of
             Inl err \<Rightarrow> (Some err, w\<lparr>w_sched := s\<rparr>)
           | Inr st \<Rightarrow> (None, w\<lparr>w_sched := s\<lparr>sd_store := st\<rparr>\<rparr>)))"

text \<open>The error of the deletion is ignored.\<close>

definition main_OnDelete :: "StoreOps \<Rightarrow> string \<Rightarrow> 'g World \<Rightarrow> 'g World" where
  "main_OnDelete ops name w =
     (let modID = mi_ID Describe; s = RemoveTarget modID name (w_sched w)
      in case so_DeleteTarget ops modID name (sd_store s) of
           Inl _ \<Rightarrow> w\<lparr>w_sched := s\<rparr>
         | Inr st \<Rightarrow> w\<lparr>w_sched := s\<lparr>sd_store := st\<rparr>\<rparr>)"

definition main_console :: "'priv Server \<Rightarrow> 's ConfigStore \<Rightarrow> ('s, 'g World) Console" where
  "main_console sv cfgStore =
     \<lparr>cn_Store = cfgStore, cn_Caps = Some (\<lambda>w. lim_MaxTargets (effLimits sv w)), cn_OnSaved = Some (main_OnSaved (sv_Store sv)),
      cn_OnDelete = Some (main_OnDelete (sv_Store sv))\<rparr>"

end
