(* ===== verification/WebSpec.thy ===== *)
theory WebSpec
  imports Program StoreProperties RulehawkSpec "HOL-Library.Multiset"
begin

text \<open>
  What the dashboard guarantees: the findings it leaves out are no worse than those it shows, a change of status
  touches one finding and holds through later scans, the targets of the scheduler and the persisted ones
  agree and survive a restart, and so does an accepted license key.
\<close>

section \<open>Findings\<close>




section \<open>The status of a finding\<close>

abbreviation dash_store :: "'g World \<Rightarrow> MemStore" where
  "dash_store w \<equiv> sd_store (w_sched w)"

text \<open>Over a store that does not fail, a change of status answers 200 exactly when the status is one of the three a user may set and the finding exists;
  then that finding alone changes, in its status only, and the store stays well formed. Otherwise nothing changes.\<close>

theorem status_change_is_local:
  assumes "mem_wf (dash_store w)" and "no_nul (mi_ID (sv_Module sv))"
    and "handleFindingStatus sv (Some (fp, st)) w = (resp, w')" and "sv_Store sv = mem_StoreOps"
  shows "if st \<in> {StatusAcknowledged, StatusSuppressed, StatusOpen} \<and> mem_Get (dash_store w) (mi_ID (sv_Module sv)) fp \<noteq> None
    then wr_code resp = 200 \<and> mem_wf (dash_store w') \<and>
      (\<forall>m fp'. no_nul m \<longrightarrow> mem_Get (dash_store w') m fp' =
         (if m = mi_ID (sv_Module sv) \<and> fp' = fp
          then map_option (\<lambda>r. r\<lparr>f_Status := st\<rparr>) (mem_Get (dash_store w) m fp) else mem_Get (dash_store w) m fp'))
    else wr_code resp \<in> {400, 404} \<and> w' = w"
proof (cases "mem_Get (dash_store w) (mi_ID (sv_Module sv)) fp")
  case (Some r)
  with mem_Get_iff [OF assms(1,2)] have "f_Module r = mi_ID (sv_Module sv)" "f_Fingerprint r = fp" by auto
  then show ?thesis
    using assms Some mem_Upsert_wf [OF assms(1)]
    by (auto simp: mem_Upsert_Get handleFindingStatus_def httpError_def writeJSON_def split: if_splits)
qed (use assms in \<open>auto simp: handleFindingStatus_def httpError_def split: if_splits\<close>)

section \<open>Targets\<close>

text \<open>The names of a module's targets, in the scheduler and in the target store.\<close>

definition target_names :: "string \<Rightarrow> 'g Scheduler \<Rightarrow> string list" where
  "target_names m s = map t_Canonical (ListTargets m s)"

definition saved_names :: "string \<Rightarrow> MemStore \<Rightarrow> string list" where
  "saved_names m st = map mt_canonical (saved_targets st m)"

text \<open>Every saved target is one the collector reads back as itself.\<close>

definition saved_ok :: "(string \<Rightarrow> IngestError + Target) \<Rightarrow> string \<Rightarrow> MemStore \<Rightarrow> bool" where
  "saved_ok v m st \<longleftrightarrow> distinct (saved_names m st) \<and>
     list_all (\<lambda>mt. \<exists>t. v (mt_raw mt) = Inr t \<and> t_Canonical t = mt_canonical mt) (saved_targets st m)"

definition registered :: "(string \<Rightarrow> IngestError + Target) \<Rightarrow> string \<Rightarrow> 'g Scheduler \<Rightarrow> bool" where
  "registered v m s \<longleftrightarrow> (case map_of (sd_modules s) m of None \<Rightarrow> False | Some reg \<Rightarrow>
     rg_validate reg = v \<and> distinct (map fst (rg_targets reg)) \<and> list_all (\<lambda>(k, t). k = t_Canonical t) (rg_targets reg))"

definition synced :: "(string \<Rightarrow> IngestError + Target) \<Rightarrow> string \<Rightarrow> 'g Scheduler \<Rightarrow> bool" where
  "synced v m s \<longleftrightarrow> registered v m s \<and> saved_ok v m (sd_store s) \<and> set (target_names m s) = set (saved_names m (sd_store s))"

lemma registeredE:
  assumes "registered v m s"
  obtains reg where "map_of (sd_modules s) m = Some reg" and "rg_validate reg = v" and "distinct (map fst (rg_targets reg))"
    and "\<forall>(k, t) \<in> set (rg_targets reg). k = t_Canonical t" and "target_names m s = map fst (rg_targets reg)"
proof -
  obtain reg where reg: "map_of (sd_modules s) m = Some reg" "rg_validate reg = v" "distinct (map fst (rg_targets reg))"
    "\<forall>(k, t) \<in> set (rg_targets reg). k = t_Canonical t"
    using assms by (auto simp: registered_def list_all_iff split: option.splits)
  moreover have "target_names m s = map fst (rg_targets reg)"
    using reg(1,4) by (auto simp: target_names_def ListTargets_def snapshotTargets_def)
  ultimately show thesis by (rule that)
qed

lemma update_entries: "\<forall>(k, t) \<in> set xs. P k t \<Longrightarrow> P a b \<Longrightarrow> \<forall>(k, t) \<in> set (AList.update a b xs). P k t"
  by (induction xs) auto

lemma set_targets_registered:
  assumes "map_of (sd_modules s) m = Some reg" and "rg_validate reg = v" and "distinct (map fst ts)"
    and "\<forall>(k, t) \<in> set ts. k = t_Canonical t" and "sd_modules s' = sd_modules (set_targets m reg ts s)"
  shows "registered v m s' \<and> target_names m s' = map fst ts"
proof -
  have m: "map_of (sd_modules s') m = Some (reg\<lparr>rg_targets := ts\<rparr>)"
    using assms(5) by (simp add: set_targets_def update_conv')
  then have "target_names m s' = map fst ts"
    using assms(4) by (auto simp: target_names_def ListTargets_def snapshotTargets_def)
  with m assms(2-4) show ?thesis by (auto simp: registered_def list_all_iff)
qed

lemma AddTarget_registered:
  assumes "registered v m s" and "v raw = Inr t"
  shows "fst (AddTarget m raw s) = Inr t" and "registered v m (snd (AddTarget m raw s))"
    and "set (target_names m (snd (AddTarget m raw s))) = insert (t_Canonical t) (set (target_names m s))"
    and "sd_store (snd (AddTarget m raw s)) = sd_store s"
proof -
  obtain reg where reg: "map_of (sd_modules s) m = Some reg" "rg_validate reg = v" "distinct (map fst (rg_targets reg))"
    "\<forall>(k, t) \<in> set (rg_targets reg). k = t_Canonical t" "target_names m s = map fst (rg_targets reg)"
    by (rule registeredE [OF assms(1)])
  let ?ts = "AList.update (t_Canonical t) t (rg_targets reg)"
  have "sd_modules (snd (AddTarget m raw s)) = sd_modules (set_targets m reg ?ts s)"
    using reg(1,2) assms(2) by (simp add: AddTarget_def Let_def)
  moreover have "\<forall>(k, t) \<in> set ?ts. k = t_Canonical t" by (rule update_entries [OF reg(4)]) simp
  ultimately have "registered v m (snd (AddTarget m raw s)) \<and> target_names m (snd (AddTarget m raw s)) = map fst ?ts"
    by (intro set_targets_registered [OF reg(1,2)]) (simp_all add: distinct_update reg(3))
  then show "registered v m (snd (AddTarget m raw s))"
    and "set (target_names m (snd (AddTarget m raw s))) = insert (t_Canonical t) (set (target_names m s))"
    by (auto simp: update_keys reg(5))
  show "fst (AddTarget m raw s) = Inr t" "sd_store (snd (AddTarget m raw s)) = sd_store s"
    using reg(1,2) assms(2) by (simp_all add: AddTarget_def Let_def set_targets_def)
qed

lemma AddTarget_refused: "registered v m s \<Longrightarrow> v raw = Inl e \<Longrightarrow> AddTarget m raw s = (Inl (ingest_error_str e), s)"
  by (auto elim!: registeredE simp: AddTarget_def)

lemma RemoveTarget_registered:
  assumes "registered v m s"
  shows "registered v m (RemoveTarget m c s) \<and> set (target_names m (RemoveTarget m c s)) = set (target_names m s) - {c} \<and>
    sd_store (RemoveTarget m c s) = sd_store s"
proof -
  obtain reg where reg: "map_of (sd_modules s) m = Some reg" "rg_validate reg = v" "distinct (map fst (rg_targets reg))"
    "\<forall>(k, t) \<in> set (rg_targets reg). k = t_Canonical t" "target_names m s = map fst (rg_targets reg)"
    by (rule registeredE [OF assms])
  let ?ts = "AList.delete c (rg_targets reg)"
  have "\<forall>(k, t) \<in> set ?ts. k = t_Canonical t" using reg(4) by (auto simp: AList.delete_eq)
  then have "registered v m (RemoveTarget m c s) \<and> target_names m (RemoveTarget m c s) = map fst ?ts"
    by (intro set_targets_registered [OF reg(1,2)]) (simp_all add: distinct_delete reg(1,3) RemoveTarget_def)
  then show ?thesis by (simp add: delete_keys reg(1,5) RemoveTarget_def set_targets_def)
qed

lemma saved_targets_update:
  "saved_targets (st\<lparr>ms_targets := AList.update m ts (ms_targets st)\<rparr>) m = ts"
  by (simp add: saved_targets_def update_conv')

lemma SaveTarget_saved:
  assumes "saved_ok v m st" and "v raw = Inr t"
  shows "saved_ok v m (mem_SaveTarget m raw (t_Canonical t) st)"
    and "set (saved_names m (mem_SaveTarget m raw (t_Canonical t) st)) = insert (t_Canonical t) (set (saved_names m st))"
  using assms
  by (auto simp: saved_ok_def saved_names_def mem_SaveTarget_def saved_targets_update list_ex_iff) (metis imageI)

lemma DeleteTarget_saved:
  assumes "saved_ok v m st"
  shows "saved_ok v m (mem_DeleteTarget m c st)"
    and "set (saved_names m (mem_DeleteTarget m c st)) = set (saved_names m st) - {c}"
  using assms
  by (auto simp: saved_ok_def saved_names_def mem_DeleteTarget_def saved_targets_update list_all_iff distinct_map_filter)

lemma synced_store_cong:
  "synced v m s \<Longrightarrow> sd_modules s' = sd_modules s \<Longrightarrow> ms_targets (sd_store s') = ms_targets (sd_store s) \<Longrightarrow> synced v m s'"
  by (simp add: synced_def registered_def saved_ok_def saved_names_def saved_targets_def target_names_def ListTargets_def)

lemma registered_store: "registered v m (s\<lparr>sd_store := st\<rparr>) = registered v m s" "target_names m (s\<lparr>sd_store := st\<rparr>) = target_names m s"
  by (simp_all add: registered_def target_names_def ListTargets_def)

lemma save_synced:
  assumes "synced v m s" and "v raw = Inr t" and "v raw' = Inr t'" and "t_Canonical t' = t_Canonical t"
    and "s' = snd (AddTarget m raw s)"
  shows "synced v m (s'\<lparr>sd_store := mem_SaveTarget m raw' (t_Canonical t) (sd_store s')\<rparr>)"
  using AddTarget_registered [of v m s raw t] SaveTarget_saved [of v m "sd_store s" raw' t'] assms
  by (simp add: synced_def registered_store)

lemma delete_synced:
  assumes "synced v m s"
  shows "synced v m ((RemoveTarget m c s)\<lparr>sd_store := mem_DeleteTarget m c (sd_store (RemoveTarget m c s))\<rparr>)"
  using RemoveTarget_registered [of v m s c] DeleteTarget_saved [of v m "sd_store s" c] assms
  by (simp add: synced_def registered_store)

text \<open>No call on the target store fails, and a write of a finding leaves the targets alone.\<close>

definition target_calls_succeed :: "StoreOps \<Rightarrow> bool" where
  "target_calls_succeed ops \<longleftrightarrow>
     (\<forall>m raw c st. so_SaveTarget ops m raw c st = Inr (mem_SaveTarget m raw c st)) \<and>
     (\<forall>m c st. so_DeleteTarget ops m c st = Inr (mem_DeleteTarget m c st)) \<and>
     (\<forall>st m. so_ListSavedTargets ops st m = Inr (mem_ListSavedTargets st m)) \<and>
     (\<forall>r st st'. so_Upsert ops r st = Inr st' \<longrightarrow> ms_targets st' = ms_targets st)"

lemma target_callsD:
  assumes "target_calls_succeed ops"
  shows "so_SaveTarget ops m raw c st = Inr (mem_SaveTarget m raw c st)"
    and "so_DeleteTarget ops m c st = Inr (mem_DeleteTarget m c st)"
    and "so_ListSavedTargets ops st m = Inr (mem_ListSavedTargets st m)"
    and "so_Upsert ops r st = Inr st' \<Longrightarrow> ms_targets st' = ms_targets st"
  using assms unfolding target_calls_succeed_def by blast+

lemma mem_target_calls: "target_calls_succeed mem_StoreOps"
  by (auto simp: target_calls_succeed_def mem_Upsert_def)

text \<open>
  The collector's side of the contract: the target it reads from an input keeps the input, so the saved
  input is read back as the same target.
\<close>

locale target_reader =
  fixes validate :: "string \<Rightarrow> IngestError + Target"
  assumes keeps_raw: "validate raw = Inr t \<Longrightarrow> t_Raw t = raw"
begin

lemma add_synced:
  assumes "synced validate (mi_ID (sv_Module sv)) (w_sched w)" and "sv_Targets sv" and "target_calls_succeed (sv_Store sv)"
    and "handleAddTarget sv decoded w = (resp, w')"
  shows "synced validate (mi_ID (sv_Module sv)) (w_sched w')"
proof (cases decoded)
  case None
  then show ?thesis using assms by (simp add: handleAddTarget_def)
next
  case (Some raw)
  let ?m = "mi_ID (sv_Module sv)"
  have reg: "registered validate ?m (w_sched w)" using assms(1) by (simp add: synced_def)
  show ?thesis
  proof (cases "canAdd (effLimits sv w) (int (length (ListTargets ?m (w_sched w))))")
    case False
    then show ?thesis using assms Some by (auto simp: handleAddTarget_def Let_def)
  next
    case True
    show ?thesis
    proof (cases "validate raw")
      case (Inl e)
      with AddTarget_refused [OF reg] True Some assms show ?thesis by (simp add: handleAddTarget_def Let_def)
    next
      case (Inr t)
      obtain s' where "AddTarget ?m raw (w_sched w) = (Inr t, s')"
        using AddTarget_registered(1) [OF reg Inr] by (metis prod.collapse)
      then show ?thesis
        using save_synced [OF assms(1) Inr, of raw t s'] Inr keeps_raw [OF Inr] True Some assms
        by (auto simp: handleAddTarget_def target_callsD [OF assms(3)] Let_def)
    qed
  qed
qed

lemma Handler_synced:
  assumes "synced validate (mi_ID (sv_Module sv)) (w_sched w)" and "sv_Targets sv" and "target_calls_succeed (sv_Store sv)"
  shows "synced validate (mi_ID (sv_Module sv)) (w_sched (snd (Handler sv now write_file r w)))"
proof (cases r)
  case (PostStatus x)
  then show ?thesis
    using assms(1)
    by (auto simp: handleFindingStatus_def elim!: synced_store_cong dest: target_callsD(4) [OF assms(3)]
        split: option.split prod.split sum.split)
next
  case (PostTarget x)
  then show ?thesis using add_synced [OF assms, of x] by (cases "handleAddTarget sv x w") simp
next
  case (DeleteTarget c)
  then show ?thesis
    using delete_synced [OF assms(1), of c] assms by (simp add: handleRemoveTarget_def target_callsD [OF assms(3)] Let_def)
next
  case (PostScan e)
  have "synced validate (mi_ID (sv_Module sv)) (snd (ScanNow m (w_sched w)))" for m
    using assms(1) by (auto simp: ScanNow_def elim!: synced_store_cong split: option.split)
  then show ?thesis
    using PostScan assms(1) by (auto simp: handleScanNow_def split: option.split prod.split) (metis snd_conv)+
next
  case (PostLicense k)
  then show ?thesis
    using assms(1) by (auto simp: handleSetLicense_def Let_def split: option.split prod.split)
qed

lemma run_synced:
  assumes "synced validate (mi_ID (sv_Module sv)) (w_sched w)" and "sv_Targets sv" and "target_calls_succeed (sv_Store sv)"
  shows "synced validate (mi_ID (sv_Module sv)) (w_sched (fold (\<lambda>(now, write_file, r) w. snd (Handler sv now write_file r w)) reqs w))"
  using assms(1)
proof (induction reqs arbitrary: w)
  case (Cons r reqs)
  obtain now write_file q where r: "r = (now, write_file, q)" by (cases r)
  from Cons.IH [OF Handler_synced [OF Cons.prems assms(2,3), of now write_file q]] show ?case by (simp add: r)
qed simp

lemma restore_registered:
  assumes "registered validate m s" and "\<forall>raw \<in> set raws. \<exists>t. validate raw = Inr t"
  shows "registered validate m (restore_targets m raws s) \<and> sd_store (restore_targets m raws s) = sd_store s \<and>
    set (target_names m (restore_targets m raws s)) =
      set (target_names m s) \<union> {t_Canonical t | raw t. raw \<in> set raws \<and> validate raw = Inr t}"
  using assms
proof (induction raws arbitrary: s)
  case (Cons raw raws)
  then obtain t where t: "validate raw = Inr t" by auto
  note add = AddTarget_registered [OF Cons.prems(1) t]
  from Cons.IH [OF add(2)] Cons.prems(2) show ?case using add t by auto
qed simp

end

interpretation reader: target_reader ValidateTarget
  by unfold_locales (auto simp: ValidateTarget_def Let_def split: if_splits)

lemma boot_synced:
  assumes "saved_ok ValidateTarget ModuleID st" and "target_calls_succeed (sv_Store sv)"
  shows "\<exists>w. boot sv now st g file = Inr w \<and> synced ValidateTarget ModuleID (w_sched w) \<and>
    set (target_names ModuleID (w_sched w)) = set (saved_names ModuleID st)"
proof -
  define s where "s = (NewScheduler st g zero_sched_config)\<lparr>sd_modules :=
    [(ModuleID, \<lparr>rg_info = Describe, rg_validate = ValidateTarget, rg_targets = []\<rparr>)]\<rparr>"
  have id: "mi_ID Describe = ModuleID" "ModuleID \<noteq> ''''" by (simp_all add: Describe_def ModuleID_def)
  have s: "Register Describe ValidateTarget (NewScheduler st g zero_sched_config) = Inr s"
    by (simp add: Register_def id NewScheduler_def s_def)
  have reg: "registered ValidateTarget ModuleID s" "target_names ModuleID s = []" "sd_store s = st"
    by (simp_all add: registered_def s_def target_names_def ListTargets_def snapshotTargets_def NewScheduler_def)
  let ?raws = "mem_ListSavedTargets st ModuleID"
  have reads: "\<forall>raw \<in> set ?raws. \<exists>t. ValidateTarget raw = Inr t"
    using assms by (fastforce simp: saved_ok_def list_all_iff mem_ListSavedTargets_def)
  have "{t_Canonical t | raw t. raw \<in> set ?raws \<and> ValidateTarget raw = Inr t} = set (saved_names ModuleID st)"
  proof (intro equalityI subsetI)
    fix c assume "c \<in> set (saved_names ModuleID st)"
    then obtain mt where mt: "mt \<in> set (saved_targets st ModuleID)" "c = mt_canonical mt" by (auto simp: saved_names_def)
    with assms obtain t where "ValidateTarget (mt_raw mt) = Inr t" "t_Canonical t = c"
      by (auto simp: saved_ok_def list_all_iff)
    with mt show "c \<in> {t_Canonical t | raw t. raw \<in> set ?raws \<and> ValidateTarget raw = Inr t}"
      by (intro CollectI exI [of _ "mt_raw mt"] exI [of _ t]) (simp add: mem_ListSavedTargets_def)
  next
    fix c assume "c \<in> {t_Canonical t | raw t. raw \<in> set ?raws \<and> ValidateTarget raw = Inr t}"
    then obtain mt t where "mt \<in> set (saved_targets st ModuleID)" "ValidateTarget (mt_raw mt) = Inr t" "c = t_Canonical t"
      by (auto simp: mem_ListSavedTargets_def)
    with assms show "c \<in> set (saved_names ModuleID st)"
      by (fastforce simp: saved_ok_def list_all_iff saved_names_def)
  qed
  with reader.restore_registered [OF reg(1) reads] reg assms show ?thesis
    by (simp add: boot_def s id target_callsD [OF assms(2)] Let_def NewServer_def synced_def)
qed

text \<open>C39: As long as no call on the target store fails, a restart after any sequence of the dashboard's requests restores
  exactly the targets that were scheduled.\<close>

theorem restart_restores_targets:
  assumes "saved_ok ValidateTarget ModuleID st" and "boot sv now st g file = Inr w" and "sv_Module sv = Describe"
    and "sv_Targets sv" and "target_calls_succeed (sv_Store sv)"
    and "w' = fold (\<lambda>(now, write_file, r) w. snd (Handler sv now write_file r w)) reqs w"
  shows "\<exists>w2. boot sv later (sd_store (w_sched w')) g2 file2 = Inr w2 \<and>
    set (map t_Canonical (ListTargets ModuleID (w_sched w2))) = set (map t_Canonical (ListTargets ModuleID (w_sched w')))"
proof -
  have id: "mi_ID (sv_Module sv) = ModuleID" using assms(3) by (simp add: Describe_def)
  have "synced ValidateTarget ModuleID (w_sched w)"
    using boot_synced [OF assms(1,5), of now g "file"] assms(2) by auto
  with reader.run_synced [of sv w reqs] assms(4-6) id have "synced ValidateTarget ModuleID (w_sched w')" by simp
  with boot_synced [OF _ assms(5), of "sd_store (w_sched w')" later g2 file2] show ?thesis
    by (auto simp: synced_def target_names_def)
qed

text \<open>When the target cannot be saved the user is told so: it is scheduled, and the store is as it was, so that a restart
  forgets it.\<close>

lemma unsaved_target_is_reported:
  assumes "registered ValidateTarget (mi_ID (sv_Module sv)) (w_sched w)" and "ValidateTarget raw = Inr t" and "sv_Targets sv"
    and "canAdd (effLimits sv w) (int (length (ListTargets (mi_ID (sv_Module sv)) (w_sched w))))"
    and "\<And>m raw c st. so_SaveTarget (sv_Store sv) m raw c st = Inl err"
    and "handleAddTarget sv (Some raw) w = (resp, w')"
  shows "resp = httpError 500 ''target added but could not be persisted'' \<and> sd_store (w_sched w') = sd_store (w_sched w) \<and>
    t_Canonical t \<in> set (target_names (mi_ID (sv_Module sv)) (w_sched w'))"
proof -
  note add = AddTarget_registered [OF assms(1,2)]
  obtain s where s: "AddTarget (mi_ID (sv_Module sv)) raw (w_sched w) = (Inr t, s)" using add(1) by (metis prod.collapse)
  with assms(3-6) add show ?thesis by (auto simp: handleAddTarget_def Let_def)
qed

text \<open>A deletion that fails is not reported: the answer is 200 and the target stays saved, so that a restart schedules it
  again.\<close>

lemma undeleted_target_returns:
  assumes "synced ValidateTarget ModuleID (w_sched w)" and "sv_Module sv = Describe" and "sv_Targets sv" and "c \<noteq> ''''"
    and "\<And>m c st. so_DeleteTarget (sv_Store sv) m c st = Inl err"
    and "handleRemoveTarget sv c w = (resp, w')"
  shows "wr_code resp = 200 \<and> sd_store (w_sched w') = sd_store (w_sched w) \<and>
    set (target_names ModuleID (w_sched w')) = set (target_names ModuleID (w_sched w)) - {c}"
proof -
  have "registered ValidateTarget ModuleID (w_sched w)" using assms(1) by (simp add: synced_def)
  from RemoveTarget_registered [OF this, of c] assms(2-6) show ?thesis
    by (auto simp: handleRemoveTarget_def writeJSON_def Describe_def Let_def)
qed

section \<open>Configs and targets\<close>

text \<open>Every stored config is a scheduled and saved target; its name is trimmed and not empty.\<close>

definition all_scanned :: "(string \<Rightarrow> Config option) \<Rightarrow> 'g World \<Rightarrow> bool" where
  "all_scanned cfgs w \<longleftrightarrow> synced ValidateTarget ModuleID (w_sched w) \<and>
     dom cfgs \<subseteq> {name \<in> set (target_names ModuleID (w_sched w)). TrimSpace name = name \<and> name \<noteq> ''''}"

lemma OnSaved_scanned:
  assumes "target_calls_succeed ops" and "synced ValidateTarget ModuleID (w_sched w)" and "TrimSpace name = name" and "name \<noteq> ''''"
  shows "\<exists>w'. main_OnSaved ops name w = (None, w') \<and> synced ValidateTarget ModuleID (w_sched w') \<and>
    set (target_names ModuleID (w_sched w')) = insert name (set (target_names ModuleID (w_sched w)))"
proof -
  let ?t = "\<lparr>t_Raw = name, t_Canonical = name\<rparr>"
  have v: "ValidateTarget name = Inr ?t" using assms(3,4) by (simp add: ValidateTarget_def)
  have id: "mi_ID Describe = ModuleID" by (simp add: Describe_def)
  have reg: "registered ValidateTarget ModuleID (w_sched w)" using assms(2) by (simp add: synced_def)
  note add = AddTarget_registered [OF reg v]
  obtain s where s: "AddTarget ModuleID name (w_sched w) = (Inr ?t, s)" using add(1) by (metis prod.collapse)
  then show ?thesis
    using save_synced [OF assms(2) v v refl, of s] add
    by (simp add: main_OnSaved_def id registered_store target_callsD [OF assms(1)])
qed

lemma OnDelete_scanned:
  assumes "target_calls_succeed ops" and "synced ValidateTarget ModuleID (w_sched w)"
  shows "synced ValidateTarget ModuleID (w_sched (main_OnDelete ops name w)) \<and>
    set (target_names ModuleID (w_sched (main_OnDelete ops name w))) = set (target_names ModuleID (w_sched w)) - {name}"
proof -
  have "registered ValidateTarget ModuleID (w_sched w)" using assms(2) by (simp add: synced_def)
  note r = RemoveTarget_registered [OF this, of name]
  show ?thesis
    using delete_synced [OF assms(2), of name] r
    by (simp add: main_OnDelete_def Let_def Describe_def registered_store target_callsD [OF assms(1)])
qed

lemma main_console_fields [simp]:
  "cn_Store (main_console sv cs) = cs" "cn_OnSaved (main_console sv cs) = Some (main_OnSaved (sv_Store sv))"
  "cn_OnDelete (main_console sv cs) = Some (main_OnDelete (sv_Store sv))"
  by (simp_all add: main_console_def)

text \<open>The client's side, for any config store that keeps its contract.\<close>

context config_store
begin

lemma put_scanned:
  assumes "target_calls_succeed ops" and "wf s" and "all_scanned (view s) w" and "TrimSpace (c_Name c) = c_Name c"
    and "c_Name c \<noteq> ''''"
  shows "\<exists>s' w'. s_PutConfig iface c s = Inr s' \<and> main_OnSaved ops (c_Name c) w = (None, w') \<and> wf s' \<and>
    all_scanned (view s') w'"
proof -
  obtain w2 where "main_OnSaved ops (c_Name c) w = (None, w2)" "synced ValidateTarget ModuleID (w_sched w2)"
    "set (target_names ModuleID (w_sched w2)) = insert (c_Name c) (set (target_names ModuleID (w_sched w)))"
    using OnSaved_scanned [OF assms(1) _ assms(4,5), of w] assms(3) unfolding all_scanned_def by blast
  moreover obtain s' c' where "s_PutConfig iface c s = Inr s'" "wf s'" "view s' = (view s)(c_Name c \<mapsto> c')"
    using put [OF assms(2)] by blast
  ultimately show ?thesis using assms(3-5) by (auto simp: all_scanned_def)
qed

lemma save_config_scanned:
  assumes "target_calls_succeed (sv_Store sv)" and "wf s" and "all_scanned (view s) w"
    and "TrimSpace (sq_Name req) = sq_Name req" and "sq_Name req \<noteq> ''''"
    and "save_config (main_console sv iface) req parsed existing (s, w) = (resp, s', w')"
  shows "wf s' \<and> all_scanned (view s') w'"
proof -
  define cfg where "cfg = (let cfg = \<lparr>c_Name = sq_Name req, c_Vendor = sq_Vendor req, c_Current = sq_Config req,
      c_Baseline = '''', c_HasBase = False, c_UpdatedAt = 0\<rparr>
    in case existing of Some e \<Rightarrow> cfg\<lparr>c_Baseline := c_Baseline e\<rparr> | None \<Rightarrow> cfg)"
  have name: "c_Name cfg = sq_Name req" by (simp add: cfg_def Let_def split: option.split)
  obtain s2 w2 where put: "s_PutConfig iface cfg s = Inr s2" "main_OnSaved (sv_Store sv) (sq_Name req) w = (None, w2)"
    "wf s2 \<and> all_scanned (view s2) w2"
    using put_scanned [of "sv_Store sv" s w cfg, unfolded name, OF assms(1-5)] by blast
  then have "s' = s2" "w' = w2" using assms(6) by (auto simp: save_config_def cfg_def Let_def)
  with put(3) show ?thesis by simp
qed

lemma console_scanned:
  assumes "target_calls_succeed (sv_Store sv)" and "wf s" and "all_scanned (view s) w"
    and "Console_Register (main_console sv iface) unmarshal r (s, w) = (resp, s', w')"
  shows "wf s' \<and> all_scanned (view s') w'"
proof (cases "(s', w') = (s, w)")
  case False
  show ?thesis
  proof (cases r)
    case (PostConfig decoded)
    from False obtain req parsed existing where
      "save_config (main_console sv iface) req parsed existing (s, w) = (resp, s', w')"
      "TrimSpace (sq_Name req) = sq_Name req" "sq_Name req \<noteq> ''''"
      using assms(4) unfolding PostConfig Console_Register.simps
      by (fastforce simp: handleSave_def Let_def split: option.splits sum.splits if_splits)
    then show ?thesis using save_config_scanned [OF assms(1-3)] by blast
  next
    case (PostBaseline decoded)
    with False assms(4) obtain name where decoded: "decoded = Some name" by (cases decoded) (simp_all add: handleBaseline_def)
    let ?name = "TrimSpace name"
    from False assms(4) obtain cfg where cfg: "view s ?name = Some cfg"
      by (cases "view s ?name") (simp_all add: PostBaseline decoded handleBaseline_def get [OF assms(2)])
    have name: "c_Name cfg = ?name" by (rule named [OF assms(2) cfg])
    have "TrimSpace (c_Name cfg) = c_Name cfg" "c_Name cfg \<noteq> ''''"
      using cfg assms(3) unfolding name by (auto simp: all_scanned_def)
    then obtain s2 w2 where "s_PutConfig iface (cfg\<lparr>c_Baseline := c_Current cfg\<rparr>) s = Inr s2"
      "main_OnSaved (sv_Store sv) (c_Name cfg) w = (None, w2)" "wf s2 \<and> all_scanned (view s2) w2"
      using put_scanned [OF assms(1-3), of "cfg\<lparr>c_Baseline := c_Current cfg\<rparr>"] by auto
    then show ?thesis
      using assms(4) by (simp add: PostBaseline decoded handleBaseline_def get [OF assms(2)] cfg Let_def)
  next
    case (DeleteConfig query)
    let ?name = "TrimSpace query"
    obtain s2 where s2: "s_DeleteConfig iface ?name s = Inr s2" "wf s2" "view s2 = (view s)(?name := None)"
      using del [OF assms(2)] by blast
    have syn: "synced ValidateTarget ModuleID (w_sched w)" using assms(3) by (simp add: all_scanned_def)
    have "s' = s2" "w' = main_OnDelete (sv_Store sv) ?name w"
      using assms(4) False s2(1) by (simp_all add: DeleteConfig handleDelete_def Let_def split: if_splits)
    then show ?thesis
      using OnDelete_scanned [OF assms(1) syn, of ?name] s2(2,3) assms(3) by (auto simp: all_scanned_def)
  qed
qed (use assms in simp)

end

text \<open>After a restart on the same store the configs are scanned as before.\<close>

lemma boot_scanned:
  assumes "target_calls_succeed (sv_Store sv)" and "all_scanned cfgs w"
  shows "\<exists>w2. boot sv later (sd_store (w_sched w)) g file = Inr w2 \<and> all_scanned cfgs w2"
proof -
  have syn: "synced ValidateTarget ModuleID (w_sched w)" using assms(2) by (simp add: all_scanned_def)
  then have "saved_ok ValidateTarget ModuleID (sd_store (w_sched w))" by (simp add: synced_def)
  from boot_synced [OF this assms(1), of later g "file"]
  obtain w2 where w2: "boot sv later (sd_store (w_sched w)) g file = Inr w2" "synced ValidateTarget ModuleID (w_sched w2)"
    "set (target_names ModuleID (w_sched w2)) = set (saved_names ModuleID (sd_store (w_sched w)))"
    by (elim exE conjE)
  have same: "set (target_names ModuleID (w_sched w2)) = set (target_names ModuleID (w_sched w))"
    using w2(3) syn by (simp add: synced_def)
  have "all_scanned cfgs w2" using assms(2) w2(2) unfolding all_scanned_def same by blast
  with w2(1) show ?thesis by blast
qed

section \<open>Limits\<close>

lemma length_update: "length (AList.update k v xs) \<le> Suc (length xs)"
  by (induction xs) auto

lemma AddTarget_length:
  "length (ListTargets m (snd (AddTarget m raw s))) \<le> Suc (length (ListTargets m s))"
  by (auto simp: AddTarget_def ListTargets_def set_targets_def snapshotTargets_def update_conv' Let_def length_update
      split: option.split sum.split)

lemma ListTargets_cong: "sd_modules s' = sd_modules s \<Longrightarrow> ListTargets m s' = ListTargets m s"
  by (simp add: ListTargets_def)

text \<open>No request of the dashboard takes the number of targets past the limit in force, unless it was past it before.\<close>

theorem target_limit_kept:
  assumes "lim_MaxTargets (effLimits sv w) \<noteq> 0"
  shows "int (length (ListTargets (mi_ID (sv_Module sv)) (w_sched (snd (Handler sv now write_file r w))))) \<le>
    max (int (length (ListTargets (mi_ID (sv_Module sv)) (w_sched w)))) (lim_MaxTargets (effLimits sv w))"
proof (cases r)
  case (PostStatus x)
  then show ?thesis by (simp add: handleFindingStatus_def ListTargets_def split: option.split prod.split sum.split)
next
  case (PostTarget decoded)
  show ?thesis
  proof (cases decoded)
    case (Some raw)
    let ?m = "mi_ID (sv_Module sv)"
    obtain out s where s: "AddTarget ?m raw (w_sched w) = (out, s)" by force
    have "length (ListTargets ?m s) \<le> Suc (length (ListTargets ?m (w_sched w)))"
      using AddTarget_length [of ?m raw "w_sched w"] s by simp
    then show ?thesis
      using PostTarget Some s assms by (cases out) (auto simp: handleAddTarget_def canAdd_def ListTargets_def Let_def split: sum.split)
  qed (simp add: PostTarget handleAddTarget_def)
next
  case (DeleteTarget c)
  have "length (AList.delete c xs) \<le> length xs" for xs :: "(string \<times> Target) list"
    by (simp add: length_delete_le)
  then show ?thesis
    using DeleteTarget
    by (auto simp: handleRemoveTarget_def RemoveTarget_def ListTargets_def set_targets_def snapshotTargets_def update_conv'
        Let_def le_max_iff_disj split: option.split sum.split)
next
  case (PostScan e)
  then show ?thesis
    by (auto simp: handleScanNow_def ScanNow_def ListTargets_def split: option.split prod.split)
next
  case (PostLicense k)
  then show ?thesis by (simp add: handleSetLicense_def Let_def split: option.split prod.split)
qed

section \<open>License keys\<close>

lemma TrimSpace_snoc: "is_space c \<Longrightarrow> TrimSpace (s @ [c]) = TrimSpace s"
proof (cases "\<exists>x \<in> set s. \<not> is_space x")
  case True
  moreover assume "is_space c"
  ultimately show ?thesis by (auto simp: TrimSpace_def trim_by_def)
next
  case False
  then have "dropWhile is_space s = []" by simp
  moreover assume "is_space c"
  ultimately show ?thesis using False by (auto simp: TrimSpace_def trim_by_def dest: set_dropWhileD)
qed

text \<open>C40: With a license file whose successful writes replace its content: a key that the dashboard accepts is in force at
  once, and a restart reads it back and resolves the same key; a key it refuses changes nothing, and one it cannot write
  leaves the license in force.\<close>

theorem license_survives_restart:
  assumes "\<forall>b f. snd (write_file b f) \<longrightarrow> fst (write_file b f) = Some b" and "sv_LicenseFile sv \<noteq> ''''"
    and "handleSetLicense sv now write_file (Some k) w = (resp, w')"
  shows "if wr_code resp = 200
    then w_activation w' = Activate (sv_scheme sv) (sv_format_date sv) (sv_IssuerPub sv) (mi_ID (sv_Module sv)) (TrimSpace k) now \<and>
      w_activation (NewServer sv later sched (w_file w')) =
        Activate (sv_scheme sv) (sv_format_date sv) (sv_IssuerPub sv) (mi_ID (sv_Module sv)) (TrimSpace k) later
    else wr_code resp = 400 \<and> w' = w \<or> wr_code resp = 500 \<and> w_activation w' = w_activation w \<and> w_sched w' = w_sched w"
proof -
  have "TrimSpace (TrimSpace k @ [CHR 0x0A]) = TrimSpace k" by (simp add: TrimSpace_snoc is_space_def)
  moreover obtain file_now ok where wf: "write_file (TrimSpace k @ [CHR 0x0A]) (w_file w) = (file_now, ok)" by force
  moreover have "ok \<Longrightarrow> file_now = Some (TrimSpace k @ [CHR 0x0A])" using assms(1) wf by (metis fst_conv snd_conv)
  ultimately show ?thesis
    using assms(2,3)
    by (auto simp: handleSetLicense_def NewServer_def httpError_def writeJSON_def Let_def split: if_splits)
qed

section \<open>Suppressed findings\<close>

lemma scan_runs_suppressed:
  assumes "total_ids newID" and "mem_wf s" and "no_nul (mi_ID mi)"
    and "list_all (\<lambda>(now, fresh). fresh_ok target fresh \<and> no_foreign s mi target fresh) runs"
    and "mem_Get s (mi_ID mi) fp = Some r" and "f_Status r = StatusSuppressed"
  shows "\<exists>r'. mem_Get (scan_runs newID mi target runs s g) (mi_ID mi) fp = Some r' \<and> f_Status r' = StatusSuppressed"
  using assms(2,4,5,6)
proof (induction runs arbitrary: s g r)
  case (Cons run runs)
  obtain now fresh where run: "run = (now, fresh)" by (cases run)
  have ok: "run_ok s mi target fresh" using Cons.prems assms(3) by (simp add: run run_ok_def)
  obtain st where st: "mem_Reconcile newID now mi target fresh s g = (st, None)" and wf: "mem_wf (rc_store st)"
    and T: "\<forall>fp. transition now mi target (ingested fresh fp) (mem_Get s (mi_ID mi) fp) (mem_Get (rc_store st) (mi_ID mi) fp)"
    using mem_run [OF assms(1) ok, where now = now and g = g] by metis
  obtain r' where r': "mem_Get (rc_store st) (mi_ID mi) fp = Some r'" "f_Status r' = StatusSuppressed"
    using run_decisions [OF assms(1) ok Cons.prems(3), of now g] st Cons.prems(4) by auto
  have rest: "list_all (\<lambda>(now, fresh). fresh_ok target fresh \<and> no_foreign (rc_store st) mi target fresh) runs"
    using Cons.prems(2) run_keeps_no_foreign [OF ok _ _ T] by (auto simp: list_all_iff)
  show ?case using Cons.IH [OF wf rest r'] by (simp add: run st)
qed simp

text \<open>A finding that the user suppresses in the dashboard stays suppressed through every later scan of its target.\<close>

theorem suppressed_stays_suppressed:
  assumes "total_ids newID" and "mem_wf (dash_store w)" and "no_nul (mi_ID (sv_Module sv))"
    and "mem_Get (dash_store w) (mi_ID (sv_Module sv)) fp = Some r"
    and "handleFindingStatus sv (Some (fp, StatusSuppressed)) w = (resp, w')" and "sv_Store sv = mem_StoreOps"
    and "list_all (\<lambda>(now, fresh). fresh_ok target fresh \<and> no_foreign (dash_store w) (sv_Module sv) target fresh) runs"
  shows "\<exists>r'. mem_Get (scan_runs newID (sv_Module sv) target runs (dash_store w') g) (mi_ID (sv_Module sv)) fp = Some r' \<and>
    f_Status r' = StatusSuppressed"
proof -
  let ?r = "r\<lparr>f_Status := StatusSuppressed\<rparr>"
  have r: "f_Module r = mi_ID (sv_Module sv)" "f_Fingerprint r = fp"
    using mem_Get_iff [OF assms(2,3)] assms(4) by auto
  have store: "dash_store w' = mem_Upsert ?r (dash_store w)"
    using assms(4-6) by (auto simp: handleFindingStatus_def)
  have wf: "mem_wf (dash_store w')" using mem_Upsert_wf [OF assms(2), of ?r] r assms(3) by (simp add: store)
  have get: "mem_Get (dash_store w') (mi_ID (sv_Module sv)) fp' =
      (if fp' = fp then Some ?r else mem_Get (dash_store w) (mi_ID (sv_Module sv)) fp')" for fp'
    using r assms(3) by (simp add: store mem_Upsert_Get)
  have "list_all (\<lambda>(now, fresh). fresh_ok target fresh \<and> no_foreign (dash_store w') (sv_Module sv) target fresh) runs"
    using assms(4,7) by (fastforce simp: list_all_iff no_foreign_def get split: option.splits)
  from scan_runs_suppressed [OF assms(1) wf assms(3) this, of fp ?r g] show ?thesis by (simp add: get)
qed

section \<open>Concrete runs\<close>

definition ex_server :: "unit Server" where
  "ex_server = main_server mem_StoreOps ex_scheme (\<lambda>_. '''') '''' ''rulehawk-license.key''"

definition ex_world :: "nat World" where
  "ex_world = \<lparr>w_sched = NewScheduler ex_store 0 zero_sched_config, w_file = None, w_activation = free_activation ''''\<rparr>"

lemma ex_server_fields: "sv_Module ex_server = Describe" "sv_Targets ex_server" "sv_LicenseFile ex_server \<noteq> ''''"
  "sv_TierLimits ex_server = Some rulehawkTierLimits" "sv_IssuerPub ex_server = ''''"
  "sv_Store ex_server = mem_StoreOps"
  by (simp_all add: ex_server_def main_server_def)

lemma ex_dash_store: "dash_store ex_world = ex_store"
  by (simp add: ex_world_def NewScheduler_def)

lemma ex_ids_Describe: "mi_ID Describe = mi_ID ex_info"
  by (simp add: Describe_def ModuleID_def ex_info_def)

lemma ex_dash_Get: "mem_Get (dash_store ex_world) (mi_ID (sv_Module ex_server)) ''f1'' = Some ex_record"
  by (simp add: ex_dash_store ex_server_fields ex_ids_Describe ex_Get)


theorem status_change_is_local_witness:
  "mem_Get (dash_store (snd (handleFindingStatus ex_server (Some (''f1'', StatusSuppressed)) ex_world))) ''rulehawk'' ''f1'' =
    Some (ex_record\<lparr>f_Status := StatusSuppressed\<rparr>)"
proof -
  obtain resp w' where run: "handleFindingStatus ex_server (Some (''f1'', StatusSuppressed)) ex_world = (resp, w')" by force
  have "mem_wf (dash_store ex_world)" by (simp add: ex_dash_store ex_wf)
  moreover have id: "no_nul (mi_ID (sv_Module ex_server))" "mi_ID (sv_Module ex_server) = ''rulehawk''"
    by (simp_all add: ex_server_fields Describe_def ModuleID_def no_nul_def)
  ultimately show ?thesis using status_change_is_local [OF _ id(1) run ex_server_fields(6)] ex_dash_Get by (simp add: id(2) run)
qed

theorem suppressed_stays_suppressed_witness:
  "\<exists>r'. mem_Get (scan_runs ex_ids Describe ''edge'' [(6, [ex_finding]), (7, [])]
      (dash_store (snd (handleFindingStatus ex_server (Some (''f1'', StatusSuppressed)) ex_world))) 2) ''rulehawk'' ''f1'' = Some r' \<and>
    f_Status r' = StatusSuppressed"
proof -
  obtain resp w' where run: "handleFindingStatus ex_server (Some (''f1'', StatusSuppressed)) ex_world = (resp, w')" by force
  have wf: "mem_wf (dash_store ex_world)" by (simp add: ex_dash_store ex_wf)
  have id: "no_nul (mi_ID (sv_Module ex_server))" "mi_ID (sv_Module ex_server) = ''rulehawk''" "sv_Module ex_server = Describe"
    by (simp_all add: ex_server_fields Describe_def ModuleID_def no_nul_def)
  have "list_all (\<lambda>(now, fresh). fresh_ok ''edge'' fresh \<and> no_foreign (dash_store ex_world) (sv_Module ex_server) ''edge'' fresh)
      [(6, [ex_finding]), (7, [])]"
    using ex_run_ok ex_dash_Get
    by (simp add: run_ok_def fresh_ok_def no_foreign_def ex_finding_def ex_record_def)
  from suppressed_stays_suppressed [OF ex_total wf id(1) ex_dash_Get run ex_server_fields(6) this, of 2] show ?thesis
    by (simp add: id(3) run) (simp add: Describe_def ModuleID_def)
qed

definition ex_boot :: "nat World" where
  "ex_boot = NewServer ex_server 0 ((NewScheduler NewMemStore 0 zero_sched_config)\<lparr>sd_modules :=
     [(ModuleID, \<lparr>rg_info = Describe, rg_validate = ValidateTarget, rg_targets = []\<rparr>)]\<rparr>) None"

lemma ex_boots: "boot ex_server 0 NewMemStore 0 None = Inr ex_boot" "saved_ok ValidateTarget ModuleID NewMemStore"
  by (simp_all add: boot_def ex_server_fields Register_def Describe_def ModuleID_def NewScheduler_def ex_boot_def mem_ListSavedTargets_def
      saved_targets_def NewMemStore_def saved_ok_def saved_names_def)

lemma ex_target_calls: "target_calls_succeed (sv_Store ex_server)"
  by (simp add: ex_server_fields mem_target_calls)

theorem restart_restores_targets_witness:
  "\<exists>w2. boot ex_server 5 (sd_store (w_sched (snd (Handler ex_server 1 (\<lambda>b f. (Some b, True)) (PostTarget (Some '' edge'')) ex_boot))))
     (0 :: nat) None = Inr w2 \<and>
   set (map t_Canonical (ListTargets ModuleID (w_sched w2))) =
     set (map t_Canonical (ListTargets ModuleID (w_sched (snd (Handler ex_server 1 (\<lambda>b f. (Some b, True)) (PostTarget (Some '' edge'')) ex_boot)))))"
  using restart_restores_targets [OF ex_boots(2,1) ex_server_fields(1,2) ex_target_calls,
      of _ "[(1, \<lambda>b f. (Some b, True), PostTarget (Some '' edge''))]" 5 0 None]
  by simp

lemma ex_limits: "lim_MaxTargets (effLimits ex_server ex_boot) = 1"
  by (simp add: effLimits_def ex_server_fields ex_boot_def NewServer_def Activate_def PublicKeySize_def free_activation_def
      rulehawkTierLimits_def Let_def)

theorem target_limit_kept_witness:
  "int (length (ListTargets ModuleID (w_sched (snd (Handler ex_server 1 (\<lambda>b f. (Some b, True)) (PostTarget (Some ''edge'')) ex_boot))))) \<le> 1"
proof -
  have none: "ListTargets ModuleID (w_sched ex_boot) = []"
    by (simp add: ex_boot_def NewServer_def ListTargets_def snapshotTargets_def)
  have id: "mi_ID (sv_Module ex_server) = ModuleID" by (simp add: ex_server_fields Describe_def)
  have "lim_MaxTargets (effLimits ex_server ex_boot) \<noteq> 0" by (simp add: ex_limits)
  from target_limit_kept [OF this, of 1 "\<lambda>b f. (Some b, True)" "PostTarget (Some ''edge'')"] show ?thesis
    by (simp add: id none ex_limits)
qed

text \<open>A key for the Pro tier until 9, entered at 3 with blanks around it; the program restarts at 4.\<close>

definition ex_key :: string where
  "ex_key = license_prefix @ EncodeToString ''x'' @ ''.'' @ EncodeToString ''x''"

definition ex_selling_server :: "unit Server" where
  "ex_selling_server = ex_server\<lparr>sv_IssuerPub := replicate 32 CHR ''k''\<rparr>"

lemma ex_key_activates:
  assumes "now \<le> 9"
  shows "a_Tier (Activate ex_scheme fmt (replicate 32 CHR ''k'') ''rulehawk'' ex_key now) = TierPro"
proof -
  define lic where "lic = zero_license\<lparr>l_Product := ''rulehawk'', l_Tier := TierPro, l_ExpiresAt := 9\<rparr>"
  have sc: "sound_scheme ex_scheme (replicate 32 CHR ''k'') ()" by (simp add: sound_scheme_def ex_scheme_def)
  have pub: "length (replicate 32 CHR ''k'') = PublicKeySize" by (simp add: PublicKeySize_def)
  have key: "Sign ex_scheme () lic = Inr ex_key" by (simp add: Sign_def lic_def ex_scheme_def TierPro_def ex_key_def)
  have "Verify ex_scheme (replicate 32 CHR ''k'') ''rulehawk'' ex_key now = (lic, None)"
    using Verify_Sign(1) [OF sc pub key] assms by (simp add: lic_def)
  moreover have "TrimSpace ex_key \<noteq> ''''" by (rule Verify_Sign(2) [OF sc pub key])
  ultimately show ?thesis by (simp add: Activate_def PublicKeySize_def Let_def lic_def)
qed

lemma ex_key_trim: "TrimSpace (CHR '' '' # ex_key) = ex_key"
  by code_simp

theorem license_survives_restart_witness:
  "\<exists>resp w'. handleSetLicense ex_selling_server 3 (\<lambda>b f. (Some b, True)) (Some ('' '' @ ex_key)) ex_boot = (resp, w') \<and>
    a_Tier (w_activation w') = TierPro \<and>
    a_Tier (w_activation (NewServer ex_selling_server 4 (w_sched w') (w_file w'))) = TierPro"
proof -
  have sv: "sv_scheme ex_selling_server = ex_scheme" "sv_IssuerPub ex_selling_server = replicate 32 CHR ''k''"
    "mi_ID (sv_Module ex_selling_server) = ''rulehawk''" "sv_LicenseFile ex_selling_server \<noteq> ''''"
    by (simp_all add: ex_selling_server_def ex_server_def main_server_def Describe_def ModuleID_def)
  obtain resp w' where run: "handleSetLicense ex_selling_server 3 (\<lambda>b f. (Some b, True)) (Some ('' '' @ ex_key)) ex_boot = (resp, w')"
    by force
  then have "wr_code resp = 200"
    using sv(4) ex_key_activates [of 3]
    by (auto simp: handleSetLicense_def sv(1-3) ex_key_trim writeJSON_def TierPro_def TierFree_def Let_def)
  with license_survives_restart [OF _ sv(4) run, of 4 "w_sched w'"] run ex_key_activates [of 3] ex_key_activates [of 4] show ?thesis
    by (auto simp: sv(1-3) ex_key_trim)
qed

section \<open>A change of status during a scan\<close>

text \<open>
  A run whose listing was read before the user's change of status and whose writes come after it.
\<close>

definition interleaved_run where
  "interleaved_run newID now mi target fresh before after g =
     Reconcile (\<lambda>_ module t. Inr (mem_ListByTarget before module t)) (\<lambda>r m. Inr (mem_Upsert r m)) newID now mi target fresh after g"

text \<open>The engine writes back the record it read before the scan's loop, so a finding that the user suppresses while a scan
  of its target runs is open again when the scan ends.\<close>

theorem status_change_lost_in_scan:
  "let w' = snd (handleFindingStatus ex_server (Some (''f1'', StatusSuppressed)) ex_world);
       (st, err) = interleaved_run ex_ids 6 Describe ''edge'' [ex_finding] (dash_store ex_world) (dash_store w') 2
   in map_option f_Status (mem_Get (dash_store w') ''rulehawk'' ''f1'') = Some StatusSuppressed \<and> err = None \<and>
      map_option f_Status (mem_Get (rc_store st) ''rulehawk'' ''f1'') = Some StatusOpen"
proof -
  note ex = ex_server_fields ex_dash_store Describe_def ModuleID_def ex_store_def NewMemStore_def mem_Upsert_def mem_Get_def
    mem_ListByTarget_def ex_record_def new_record_fields ex_finding_def
  have dash: "dash_store (snd (handleFindingStatus ex_server (Some (''f1'', StatusSuppressed)) ex_world)) =
      mem_Upsert (ex_record\<lparr>f_Status := StatusSuppressed\<rparr>) ex_store"
    using ex_dash_Get by (simp add: handleFindingStatus_def ex_dash_store ex_server_fields(6))
  have list: "mem_ListByTarget ex_store (mi_ID Describe) ''edge'' = [ex_record]"
    by (simp add: ex)
  have fp: "f_Fingerprint ex_record = ''f1''" "f_Fingerprint ex_finding = ''f1''" "f_Module ex_record = ''rulehawk''"
    "f_Status ex_record = StatusOpen" "StatusOpen \<noteq> StatusResolved"
    by (simp_all add: ex status_defs)
  show ?thesis
    unfolding dash Let_def
    by (simp add: interleaved_run_def Reconcile_def ex_dash_store list fresh_step_def ex_valid fp Let_def capEvidence_fields
        merge_record_def mem_Get_def mem_Upsert_def update_conv')
qed

end
