(* ===== verification/AiEvidence.thy ===== *)
theory AiEvidence
  imports GoStrings
begin

text \<open>
  Package \<open>internal/aiclient\<close>, file \<open>evidence.go\<close>: the bounded copy of a finding's evidence that may leave the
  process. A value of type \<open>any\<close> is null, a boolean, a number, a string, a map, a slice of \<open>any\<close>, a slice of
  strings, or of another type; of the last the model has what its JSON reads back as, if it serialises. A
  map is the list of its entries; a nil map is the empty one.
\<close>

section \<open>Runes\<close>

text \<open>
  A conversion to runes reads UTF-8: the length of the sequence at the head of a string, 1 for a byte that starts
  no valid one; such a byte reads as the replacement character.
\<close>

definition cont :: "nat \<Rightarrow> nat \<Rightarrow> char \<Rightarrow> bool" where
  "cont a b c \<longleftrightarrow> a \<le> of_char c \<and> of_char c \<le> b"

fun valid_rune :: "string \<Rightarrow> bool" where
  "valid_rune [a] = cont 0 0x7F a"
| "valid_rune [a, b] = (cont 0xC2 0xDF a \<and> cont 0x80 0xBF b)"
| "valid_rune [a, b, c] =
     ((cont 0xE0 0xE0 a \<and> cont 0xA0 0xBF b \<or> cont 0xE1 0xEC a \<and> cont 0x80 0xBF b \<or>
       cont 0xED 0xED a \<and> cont 0x80 0x9F b \<or> cont 0xEE 0xEF a \<and> cont 0x80 0xBF b) \<and> cont 0x80 0xBF c)"
| "valid_rune [a, b, c, d] =
     ((cont 0xF0 0xF0 a \<and> cont 0x90 0xBF b \<or> cont 0xF1 0xF3 a \<and> cont 0x80 0xBF b \<or>
       cont 0xF4 0xF4 a \<and> cont 0x80 0x8F b) \<and> cont 0x80 0xBF c \<and> cont 0x80 0xBF d)"
| "valid_rune s = False"

definition rune_len :: "string \<Rightarrow> nat option" where
  "rune_len s = List.find (\<lambda>k. k \<le> length s \<and> valid_rune (take k s)) [1..<5]"

definition replacement :: string where
  "replacement = [CHR 0xEF, CHR 0xBF, CHR 0xBD]"

text \<open>The runes of a string, each in its UTF-8 form.\<close>

function runes :: "string \<Rightarrow> string list" where
  "runes s =
     (if s = [] then []
      else (case rune_len s of
          None \<Rightarrow> replacement # runes (drop 1 s)
        | Some k \<Rightarrow> take k s # runes (drop k s)))"
  by pat_completeness auto
termination
  by (relation "measure length") (auto simp: rune_len_def find_Some_iff nth_append)

declare runes.simps [simp del]

definition ellipsis :: string where
  "ellipsis = [CHR 0xE2, CHR 0x80, CHR 0xA6]"

definition truncateRunes :: "string \<Rightarrow> nat \<Rightarrow> string" where
  "truncateRunes s n = (let r = runes s in if length r \<le> n then s else concat (take n r) @ ellipsis)"

section \<open>Evidence\<close>

definition maxEvidenceKeys :: nat where "maxEvidenceKeys = 24"
definition maxEvidenceString :: nat where "maxEvidenceString = 400"
definition maxEvidenceList :: nat where "maxEvidenceList = 12"
definition maxEvidenceDepth :: nat where "maxEvidenceDepth = 3"

definition secretKeyMarkers :: "string list" where
  "secretKeyMarkers =
     [''password'', ''passwd'', ''passphrase'', ''secret'', ''token'', ''apikey'', ''api_key'', ''api-key'', ''private'',
      ''credential'', ''cookie'', ''session'', ''authorization'', ''bearer'', ''license_key'', ''licence_key'', ''signature'']"

definition isSecretKey :: "string \<Rightarrow> bool" where
  "isSecretKey k \<longleftrightarrow> list_ex (\<lambda>m. Contains (ToLower k) m) secretKeyMarkers"

datatype any_val =
    ANull
  | ABool bool
  | ANumber int
  | AString string
  | AMap "(string \<times> any_val) list"
  | AList "any_val list"
  | AStrings "string list"
  | AOther "any_val option"

definition too_deep :: string where
  "too_deep = ''[omitted: nested too deep]''"

definition not_serialisable :: string where
  "not_serialisable = ''[omitted: not serialisable]''"

text \<open>The entries a map keeps: those of the first keys in order that are not secret.\<close>

definition kept_entries :: "(string \<times> any_val) list \<Rightarrow> (string \<times> any_val) list" where
  "kept_entries kvs = take maxEvidenceKeys (sort_key fst (filter (\<lambda>kv. \<not> isSecretKey (fst kv)) kvs))"

lemma kept_entries_subset: "set (kept_entries kvs) \<subseteq> set kvs"
  using set_take_subset [of maxEvidenceKeys "sort_key fst (filter (\<lambda>kv. \<not> isSecretKey (fst kv)) kvs)"]
  by (auto simp: kept_entries_def)

lemma kept_entry_size: "kv \<in> set (kept_entries kvs) \<Longrightarrow> size (snd kv) < Suc (size_list (size_prod (\<lambda>_. 0) size) kvs)"
proof -
  assume "kv \<in> set (kept_entries kvs)"
  then have "kv \<in> set kvs" using kept_entries_subset by blast
  then have "size_prod (\<lambda>_. 0) size kv \<le> size_list (size_prod (\<lambda>_. 0) size) kvs" by (intro size_list_estimation') auto
  then show ?thesis by (cases kv) simp
qed

function sanitizeValue :: "any_val \<Rightarrow> nat \<Rightarrow> any_val" where
  "sanitizeValue ANull depth = ANull"
| "sanitizeValue (ABool b) depth = ABool b"
| "sanitizeValue (ANumber n) depth = ANumber n"
| "sanitizeValue (AString s) depth = AString (truncateRunes s maxEvidenceString)"
| "sanitizeValue (AMap kvs) depth =
     (if depth \<ge> maxEvidenceDepth then AString too_deep
      else AMap (map (\<lambda>kv. (fst kv, sanitizeValue (snd kv) (depth + 1))) (kept_entries kvs)))"
| "sanitizeValue (AList vs) depth =
     (if depth \<ge> maxEvidenceDepth then AString too_deep
      else AList (map (\<lambda>v. sanitizeValue v (depth + 1)) (take maxEvidenceList vs)))"
| "sanitizeValue (AStrings ss) depth =
     AList (map (\<lambda>s. AString (truncateRunes s maxEvidenceString)) (take maxEvidenceList ss))"
| "sanitizeValue (AOther None) depth = AString not_serialisable"
| "sanitizeValue (AOther (Some generic)) depth = sanitizeValue generic depth"
  by pat_completeness auto
termination
proof (relation "measure (\<lambda>(v, depth). size v)", goal_cases)
  case (2 kvs depth kv)
  then show ?case using kept_entry_size [of kv kvs] by simp
next
  case (3 vs depth v)
  then have "v \<in> set vs" by (meson in_set_takeD)
  then show ?case using size_list_estimation' [of v vs "size v" size] by simp
qed simp_all

text \<open>\<open>sanitizeMap\<close>; \<open>None\<close> is the nil map it returns when nothing is left.\<close>

definition sanitizeMap :: "(string \<times> any_val) list \<Rightarrow> nat \<Rightarrow> (string \<times> any_val) list option" where
  "sanitizeMap kvs depth =
     (if length kvs = 0 then None
      else if kept_entries kvs = [] then None
      else Some (map (\<lambda>kv. (fst kv, sanitizeValue (snd kv) depth)) (kept_entries kvs)))"

definition SanitizeEvidence :: "(string \<times> any_val) list \<Rightarrow> (string \<times> any_val) list option" where
  "SanitizeEvidence kvs = sanitizeMap kvs 1"

end
