(* ===== verification/AiEvidenceSpec.thy ===== *)
theory AiEvidenceSpec
  imports AiEvidence "HOL-Library.Multiset"
begin

text \<open>
  What the copy of the evidence guarantees: no secret-like key at any depth and bounded size, and that
  evidence which is already within the bounds is passed on as it is.
\<close>

section \<open>Runes\<close>

lemma rune_len_bound: "rune_len s = Some k \<Longrightarrow> 1 \<le> k \<and> k \<le> 4 \<and> k \<le> length s"
  by (auto simp: rune_len_def dest!: find_Some_in)

lemma runes_bytes: "length s \<le> 4 * length (runes s) \<and> (\<forall>r \<in> set (runes s). length r \<le> 4)"
proof (induction s rule: runes.induct)
  case (1 s)
  show ?case
  proof (cases "s = []")
    case True
    then show ?thesis by (simp add: runes.simps)
  next
    case False
    show ?thesis
    proof (cases "rune_len s")
      case None
      with 1(1) [OF False None] False show ?thesis
        by (subst (1 2) runes.simps) (auto simp: replacement_def)
    next
      case (Some k)
      with 1(2) [OF False Some] rune_len_bound [OF Some] False show ?thesis
        by (subst (1 2) runes.simps) auto
    qed
  qed
qed

lemma truncateRunes_bytes: "length (truncateRunes s n) \<le> 4 * n + 3"
proof -
  have "length (concat rs) \<le> 4 * length rs" if "\<forall>r \<in> set rs. length r \<le> 4" for rs :: "string list"
    using that by (induction rs) auto
  moreover have "\<forall>r \<in> set (take n (runes s)). length r \<le> 4" using runes_bytes [of s] by (auto dest: in_set_takeD)
  ultimately have "length (concat (take n (runes s))) \<le> 4 * length (take n (runes s))" by blast
  also have "\<dots> \<le> 4 * n" by simp
  finally show ?thesis using runes_bytes [of s] by (auto simp: truncateRunes_def Let_def ellipsis_def)
qed

section \<open>Safe values\<close>

text \<open>A value that nests at most \<open>d\<close> levels, with no secret key, and within the bounds.\<close>

fun safe :: "nat \<Rightarrow> any_val \<Rightarrow> bool" where
  "safe d (AString s) = (length s \<le> 1603)"
| "safe (Suc d) (AMap kvs) =
     (length kvs \<le> 24 \<and> list_all (\<lambda>kv. \<not> isSecretKey (fst kv)) kvs \<and> list_all (safe d) (map snd kvs))"
| "safe (Suc d) (AList vs) = (length vs \<le> 12 \<and> list_all (safe d) vs)"
| "safe 0 (AMap kvs) = False"
| "safe 0 (AList vs) = False"
| "safe d (AStrings ss) = False"
| "safe d (AOther g) = False"
| "safe d v = True"

lemma kept_entries_ok: "length (kept_entries kvs) \<le> 24" "kv \<in> set (kept_entries kvs) \<Longrightarrow> \<not> isSecretKey (fst kv)"
  by (auto simp: kept_entries_def maxEvidenceKeys_def dest: in_set_takeD)

lemma short_string [simp]: "length (truncateRunes s maxEvidenceString) \<le> 1603"
  using truncateRunes_bytes [of s 400] by (simp add: maxEvidenceString_def)

lemma sanitizeValue_safe: "1 \<le> depth \<Longrightarrow> depth \<le> 3 \<Longrightarrow> safe (4 - depth) (sanitizeValue v depth)"
proof (induction v depth rule: sanitizeValue.induct)
  case (5 kvs depth)
  show ?case
  proof (cases "depth \<ge> maxEvidenceDepth")
    case True
    then show ?thesis by (simp add: too_deep_def)
  next
    case False
    then have d: "4 - depth = Suc (4 - (depth + 1))" "depth + 1 \<le> 3" using 5(3) by (simp_all add: maxEvidenceDepth_def)
    have "list_all (safe (4 - (depth + 1))) (map snd (map (\<lambda>kv. (fst kv, sanitizeValue (snd kv) (depth + 1))) (kept_entries kvs)))"
      unfolding list_all_iff using 5(1) [OF False] d(2) by auto
    then show ?thesis
      unfolding d(1) using False kept_entries_ok(2) [of _ kvs] kept_entries_ok(1) [of kvs]
      by (simp add: list_all_iff)
  qed
next
  case (6 vs depth)
  show ?case
  proof (cases "depth \<ge> maxEvidenceDepth")
    case True
    then show ?thesis by (simp add: too_deep_def)
  next
    case False
    then have d: "4 - depth = Suc (4 - (depth + 1))" "depth + 1 \<le> 3" using 6(3) by (simp_all add: maxEvidenceDepth_def)
    have "list_all (safe (4 - (depth + 1))) (map (\<lambda>v. sanitizeValue v (depth + 1)) (take maxEvidenceList vs))"
      unfolding list_all_iff using 6(1) [OF False] d(2) by auto
    then show ?thesis unfolding d(1) using False by (simp add: maxEvidenceList_def)
  qed
next
  case (7 ss depth)
  then have "4 - depth = Suc (3 - depth)" by simp
  then show ?case by (simp add: list_all_iff maxEvidenceList_def)
qed (simp_all add: not_serialisable_def)

text \<open>The copy has no secret-like key at any depth, at most 24 entries a map, 12
  items a list and 1603 bytes a string, and nests at most four levels.\<close>

lemma SanitizeEvidence_safe:
  assumes "SanitizeEvidence kvs = Some out"
  shows "safe 4 (AMap out) \<and> map fst out = take 24 (sort (filter (\<lambda>k. \<not> isSecretKey k) (map fst kvs)))"
proof -
  have out: "out = map (\<lambda>kv. (fst kv, sanitizeValue (snd kv) 1)) (kept_entries kvs)"
    using assms by (auto simp: SanitizeEvidence_def sanitizeMap_def split: if_splits)
  have "safe 4 (AMap out)"
    using kept_entries_ok(2) [of _ kvs] kept_entries_ok(1) [of kvs] sanitizeValue_safe [of 1]
    by (auto simp: out list_all_iff numeral_eq_Suc)
  moreover have "map fst (sort_key fst xs) = sort (map fst xs)" for xs :: "(string \<times> any_val) list"
    by (metis mset_map properties_for_sort mset_sort sorted_sort_key)
  then have "map fst out = take 24 (sort (filter (\<lambda>k. \<not> isSecretKey k) (map fst kvs)))"
    by (simp add: out kept_entries_def maxEvidenceKeys_def comp_def filter_map flip: take_map)
  ultimately show ?thesis by blast
qed

lemma SanitizeEvidence_example:
  "SanitizeEvidence [(''Session_Token'', AString ''y''), (''Detail'', AString ''x'')] = Some [(''Detail'', AString ''x'')]"
  by code_simp

section \<open>Evidence within the bounds\<close>

fun clean :: "nat \<Rightarrow> any_val \<Rightarrow> bool" where
  "clean d (AString s) = (length (runes s) \<le> maxEvidenceString)"
| "clean d (AMap kvs) = (d > 0 \<and> length kvs \<le> maxEvidenceKeys \<and> sorted (map fst kvs) \<and>
     list_all (\<lambda>kv. \<not> isSecretKey (fst kv)) kvs \<and> list_all (clean (d - 1)) (map snd kvs))"
| "clean d (AList vs) = (d > 0 \<and> length vs \<le> maxEvidenceList \<and> list_all (clean (d - 1)) vs)"
| "clean d (AStrings ss) = False"
| "clean d (AOther g) = False"
| "clean d v = True"

lemma kept_entries_all:
  "length kvs \<le> maxEvidenceKeys \<Longrightarrow> sorted (map fst kvs) \<Longrightarrow> list_all (\<lambda>kv. \<not> isSecretKey (fst kv)) kvs \<Longrightarrow> kept_entries kvs = kvs"
  by (simp add: kept_entries_def list_all_iff sort_key_id_if_sorted)

lemma sanitizeValue_clean: "1 \<le> depth \<Longrightarrow> depth \<le> 3 \<Longrightarrow> clean (3 - depth) v \<Longrightarrow> sanitizeValue v depth = v"
proof (induction v depth rule: sanitizeValue.induct)
  case (5 kvs depth)
  then have keep: "kept_entries kvs = kvs" by (simp add: kept_entries_all)
  have d: "\<not> depth \<ge> maxEvidenceDepth" "3 - (depth + 1) = 3 - depth - 1" "depth + 1 \<le> 3"
    using 5(2-4) by (simp_all add: maxEvidenceDepth_def)
  have "sanitizeValue (snd kv) (depth + 1) = snd kv" if "kv \<in> set kvs" for kv
    using 5(1) [OF d(1), of kv] that 5(4) d by (simp add: keep list_all_iff)
  then show ?case using d(1) by (simp add: keep map_idI)
next
  case (6 vs depth)
  have d: "\<not> depth \<ge> maxEvidenceDepth" "3 - (depth + 1) = 3 - depth - 1" "depth + 1 \<le> 3"
    using 6(2-4) by (simp_all add: maxEvidenceDepth_def)
  have "sanitizeValue v (depth + 1) = v" if "v \<in> set vs" for v
    using 6(1) [OF d(1), of v] that 6(4) d by (simp add: list_all_iff)
  then show ?case using d(1) 6(4) by (simp add: map_idI)
qed (simp_all add: truncateRunes_def Let_def)

text \<open>Evidence that is within the bounds and has no secret-like key is passed on unchanged.\<close>

theorem clean_evidence_kept:
  assumes "clean 3 (AMap kvs)" and "kvs \<noteq> []"
  shows "SanitizeEvidence kvs = Some kvs"
proof -
  have keep: "kept_entries kvs = kvs" using assms(1) by (simp add: kept_entries_all)
  have "sanitizeValue (snd kv) 1 = snd kv" if "kv \<in> set kvs" for kv
    using assms(1) that by (intro sanitizeValue_clean) (auto simp: list_all_iff)
  then have "map (\<lambda>kv. (fst kv, sanitizeValue (snd kv) 1)) kvs = kvs" by (simp add: map_idI)
  with keep assms(2) show ?thesis by (simp add: SanitizeEvidence_def sanitizeMap_def)
qed

lemma clean_evidence_kept_witness:
  "SanitizeEvidence [(''covered_by'', AList [AString ''5'']), (''index'', ANumber 7)] =
     Some [(''covered_by'', AList [AString ''5'']), (''index'', ANumber 7)]"
  by (rule clean_evidence_kept) code_simp+

end
