(* ===== verification/AiGuard.thy ===== *)
theory AiGuard
  imports GoStrings
begin

text \<open>
  Package \<open>internal/aiclient\<close>, file \<open>guard.go\<close>: sentences that state another severity than the engine's are dropped from
  a narration. The part of \<open>regexp\<close> it uses is modelled: an expression is a value, and a position in the text
  is the character before it and the rest; \<open>ends\<close> lists the ends of the matches from a position. \<open>MatchString\<close>
  asks only whether there is one, so the preference among matches does not matter. Case folding is that
  of ASCII.
\<close>

section \<open>Regular expressions\<close>

datatype rx =
    Lit string
  | One "char list"
  | Many "char list"
  | Seq rx rx
  | Alt rx rx
  | Opt rx
  | WordBoundary

type_synonym pos = "char option \<times> string"

definition is_word :: "char \<Rightarrow> bool" where
  "is_word c \<longleftrightarrow> CHR ''a'' \<le> lower_char c \<and> lower_char c \<le> CHR ''z'' \<or> CHR ''0'' \<le> c \<and> c \<le> CHR ''9'' \<or> c = CHR ''_''"

definition at_boundary :: "pos \<Rightarrow> bool" where
  "at_boundary q \<longleftrightarrow>
     (case fst q of None \<Rightarrow> False | Some c \<Rightarrow> is_word c) \<noteq> (case snd q of [] \<Rightarrow> False | c # _ \<Rightarrow> is_word c)"

fun lit_end :: "string \<Rightarrow> pos \<Rightarrow> pos list" where
  "lit_end [] q = [q]"
| "lit_end (c # w) (p, []) = []"
| "lit_end (c # w) (p, d # s) = (if lower_char d = lower_char c then lit_end w (Some d, s) else [])"

fun many_ends :: "char list \<Rightarrow> char option \<Rightarrow> string \<Rightarrow> pos list" where
  "many_ends cs p [] = [(p, [])]"
| "many_ends cs p (c # s) = (p, c # s) # (if c \<in> set cs then many_ends cs (Some c) s else [])"

primrec ends :: "rx \<Rightarrow> pos \<Rightarrow> pos list" where
  "ends (Lit w) q = lit_end w q"
| "ends (One cs) q = (case snd q of [] \<Rightarrow> [] | c # s \<Rightarrow> if c \<in> set cs then [(Some c, s)] else [])"
| "ends (Many cs) q = many_ends cs (fst q) (snd q)"
| "ends (Seq r1 r2) q = concat (map (ends r2) (ends r1 q))"
| "ends (Alt r1 r2) q = ends r1 q @ ends r2 q"
| "ends (Opt r) q = ends r q @ [q]"
| "ends WordBoundary q = (if at_boundary q then [q] else [])"

fun match_from :: "rx \<Rightarrow> char option \<Rightarrow> string \<Rightarrow> bool" where
  "match_from r p [] = (ends r (p, []) \<noteq> [])"
| "match_from r p (c # s) = (ends r (p, c # s) \<noteq> [] \<or> match_from r (Some c) s)"

definition MatchString :: "rx \<Rightarrow> string \<Rightarrow> bool" where
  "MatchString r s = match_from r None s"

section \<open>The guard\<close>

definition severityWords :: "string list" where
  "severityWords = [''critical'', ''high'', ''medium'', ''moderate'', ''low'', ''info'', ''informational'']"

definition terminator :: "char \<Rightarrow> bool" where
  "terminator c \<longleftrightarrow> c = CHR ''.'' \<or> c = CHR ''!'' \<or> c = CHR ''?''"

text \<open>The white space of \<open>regexp\<close>.\<close>

definition rx_space :: "char list" where
  "rx_space = [CHR 0x09, CHR 0x0A, CHR 0x0C, CHR 0x0D, CHR '' '']"

text \<open>\<open>FindAllString\<close> of the sentence expression: a run of other characters, the terminators and the white space after it.\<close>

function sentenceSplit :: "string \<Rightarrow> string list" where
  "sentenceSplit s =
     (let s = dropWhile terminator s in
      if s = [] then []
      else
        (let body = takeWhile (\<lambda>c. \<not> terminator c) s; s = dropWhile (\<lambda>c. \<not> terminator c) s;
             marks = takeWhile terminator s; s = dropWhile terminator s;
             spaces = takeWhile (\<lambda>c. c \<in> set rx_space) s
         in (body @ marks @ spaces) # sentenceSplit (dropWhile (\<lambda>c. c \<in> set rx_space) s)))"
  by pat_completeness auto
termination
proof (relation "measure length", goal_cases)
  case (2 s t u v marks w spaces)
  have le: "length (dropWhile P x) \<le> length x" for P :: "char \<Rightarrow> bool" and x by (rule length_dropWhile_le)
  from 2 have t: "t \<noteq> []" "\<not> terminator (hd t)" "length t \<le> length s"
    using le [of terminator s] hd_dropWhile [of terminator s] by auto
  then have "length (dropWhile (\<lambda>c. \<not> terminator c) t) < length t"
    by (cases t) (use le in \<open>auto simp: le_imp_less_Suc\<close>)
  then show ?case
    using 2 t le [of terminator "dropWhile (\<lambda>c. \<not> terminator c) t"]
      le [of "\<lambda>c. c \<in> set rx_space" "dropWhile terminator (dropWhile (\<lambda>c. \<not> terminator c) t)"]
    by simp
qed simp

declare sentenceSplit.simps [simp del]

definition same_severity :: "string \<Rightarrow> string list" where
  "same_severity engine =
     (if engine = ''info'' \<or> engine = ''informational'' then [engine, ''info'', ''informational'']
      else if engine = ''medium'' \<or> engine = ''moderate'' then [engine, ''medium'', ''moderate'']
      else [engine])"

definition conflicting_words :: "string \<Rightarrow> string list" where
  "conflicting_words engine = filter (\<lambda>w. w \<notin> set (same_severity engine)) severityWords"

fun alternatives :: "string list \<Rightarrow> rx" where
  "alternatives [] = Lit ''''"
| "alternatives [w] = Lit w"
| "alternatives (w # ws) = Alt (Lit w) (alternatives ws)"

definition subject :: rx where
  "subject = alternatives [''severity'', ''risk'', ''priority'']"

definition some_space :: rx where
  "some_space = Seq (One rx_space) (Many rx_space)"

definition some_gap :: rx where
  "some_gap = Seq (One (CHR ''-'' # rx_space)) (Many (CHR ''-'' # rx_space))"

definition verb :: rx where
  "verb = Alt (Lit ''is'') (Alt (Lit ''of'')
     (Alt (Seq (Lit ''level'') (Seq some_space (Lit ''is''))) (Seq (Lit ''rating'') (Seq some_space (Lit ''is'')))))"

definition conflict_rx :: "string list \<Rightarrow> rx" where
  "conflict_rx words =
     Alt (Seq WordBoundary (Seq (alternatives words) (Seq some_gap (Seq subject WordBoundary))))
         (Seq WordBoundary (Seq subject (Seq some_space (Seq (Opt verb) (Seq (Many rx_space)
           (Seq (alternatives words) WordBoundary))))))"

definition dropConflictingSeverity :: "string \<Rightarrow> string \<Rightarrow> string" where
  "dropConflictingSeverity narration engineSeverity =
     (let engine = ToLower (TrimSpace engineSeverity) in
      if engine = '''' \<or> narration = '''' then narration
      else
        (let re = conflict_rx (conflicting_words engine);
             kept = filter (\<lambda>s. \<not> MatchString re s) (sentenceSplit narration);
             out = TrimSpace (concat kept)
         in if out = '''' then narration else out))"

end
