(* ===== verification/AiGuardSpec.thy ===== *)
theory AiGuardSpec
  imports AiGuard
begin

text \<open>
  What the guard of a narration guarantees: unless every sentence states a conflicting severity, no such statement
  is left, in a sentence or across two. Matching is first characterised by the matched part and the
  characters next to it.
\<close>

section \<open>Matches in context\<close>

definition wordo :: "char option \<Rightarrow> bool" where
  "wordo p = (case p of None \<Rightarrow> False | Some c \<Rightarrow> is_word c)"

definition lasto :: "char option \<Rightarrow> string \<Rightarrow> char option" where
  "lasto p u = (if u = [] then p else Some (last u))"

definition heado :: "string \<Rightarrow> char option \<Rightarrow> char option" where
  "heado s n = (case s of [] \<Rightarrow> n | c # _ \<Rightarrow> Some c)"

lemma context_simps [simp]:
  "lasto p [] = p" "lasto p (u @ v) = lasto (lasto p u) v" "lasto p [c] = Some c" "heado [] n = n" "heado (c # s) n = Some c"
  "heado (u @ v) n = heado u (heado v n)"
  by (simp_all add: lasto_def heado_def split: list.split)

lemma lasto_Cons [simp]: "lasto p (c # s) = lasto (Some c) s"
  by (simp add: lasto_def)

text \<open>The expression matches exactly \<open>u\<close> between the characters \<open>p\<close> and \<open>n\<close>.\<close>

primrec matches :: "rx \<Rightarrow> char option \<Rightarrow> string \<Rightarrow> char option \<Rightarrow> bool" where
  "matches (Lit w) p u n = (map lower_char u = map lower_char w)"
| "matches (One cs) p u n = (\<exists>c \<in> set cs. u = [c])"
| "matches (Many cs) p u n = (set u \<subseteq> set cs)"
| "matches (Seq r1 r2) p u n = (\<exists>u1 u2. u = u1 @ u2 \<and> matches r1 p u1 (heado u2 n) \<and> matches r2 (lasto p u1) u2 n)"
| "matches (Alt r1 r2) p u n = (matches r1 p u n \<or> matches r2 p u n)"
| "matches (Opt r) p u n = (matches r p u n \<or> u = [])"
| "matches WordBoundary p u n = (u = [] \<and> wordo p \<noteq> wordo n)"

lemma lit_end_matches: "(q, s') \<in> set (lit_end w (p, s)) \<longleftrightarrow>
    (\<exists>u. s = u @ s' \<and> q = lasto p u \<and> map lower_char u = map lower_char w)"
proof (induction w arbitrary: p s)
  case Nil
  show ?case by auto
next
  case (Cons c w)
  show ?case
  proof (cases s)
    case (Cons d s2)
    have "(\<exists>u. s = u @ s' \<and> q = lasto p u \<and> map lower_char u = map lower_char (c # w)) \<longleftrightarrow>
        (\<exists>v. s2 = v @ s' \<and> q = lasto (Some d) v \<and> lower_char d = lower_char c \<and> map lower_char v = map lower_char w)"
      by (auto simp: Cons Cons_eq_append_conv intro: exI [of _ "d # _"])
    then show ?thesis using Cons.IH [of "Some d" s2] by (auto simp: Cons)
  qed auto
qed

lemma many_ends_matches: "(q, s') \<in> set (many_ends cs p s) \<longleftrightarrow> (\<exists>u. s = u @ s' \<and> q = lasto p u \<and> set u \<subseteq> set cs)"
proof (induction s arbitrary: p)
  case Nil
  show ?case by auto
next
  case (Cons c s)
  have "(\<exists>u. c # s = u @ s' \<and> q = lasto p u \<and> set u \<subseteq> set cs) \<longleftrightarrow>
      q = p \<and> s' = c # s \<or> c \<in> set cs \<and> (\<exists>v. s = v @ s' \<and> q = lasto (Some c) v \<and> set v \<subseteq> set cs)"
    by (auto simp: Cons_eq_append_conv intro: exI [of _ "c # _"])
  then show ?case using Cons.IH [of "Some c"] by auto
qed

lemma ends_matches: "(q, s') \<in> set (ends r (p, s)) \<longleftrightarrow> (\<exists>u. s = u @ s' \<and> q = lasto p u \<and> matches r p u (heado s' None))"
proof (induction r arbitrary: p s q s')
  case (Lit w)
  show ?case by (simp add: lit_end_matches)
next
  case (One cs)
  show ?case by (cases s) auto
next
  case (Many cs)
  show ?case by (simp add: many_ends_matches)
next
  case (Seq r1 r2)
  have "(q, s') \<in> set (ends (Seq r1 r2) (p, s)) \<longleftrightarrow> (\<exists>q1 s1. (q1, s1) \<in> set (ends r1 (p, s)) \<and> (q, s') \<in> set (ends r2 (q1, s1)))"
    by force
  also have "\<dots> \<longleftrightarrow> (\<exists>u. s = u @ s' \<and> q = lasto p u \<and> matches (Seq r1 r2) p u (heado s' None))"
    unfolding Seq.IH by fastforce
  finally show ?case .
next
  case WordBoundary
  show ?case by (auto simp: at_boundary_def wordo_def heado_def split: list.splits)
qed auto

lemma match_from_matches:
  "match_from r p s \<longleftrightarrow> (\<exists>pre u post. s = pre @ u @ post \<and> matches r (lasto p pre) u (heado post None))"
proof -
  have here: "ends r (p, s) \<noteq> [] \<longleftrightarrow> (\<exists>u post. s = u @ post \<and> matches r p u (heado post None))" for p s
  proof -
    have "ends r (p, s) \<noteq> [] \<longleftrightarrow> (\<exists>q s'. (q, s') \<in> set (ends r (p, s)))" by (cases "ends r (p, s)") auto
    then show ?thesis unfolding ends_matches by blast
  qed
  show ?thesis
  proof (induction s arbitrary: p)
    case Nil
    show ?case by (simp add: here)
  next
    case (Cons c s)
    show ?case
    proof
      assume "match_from r p (c # s)"
      then have "ends r (p, c # s) \<noteq> [] \<or> match_from r (Some c) s" by simp
      then consider "\<exists>u post. c # s = u @ post \<and> matches r p u (heado post None)"
        | "\<exists>pre u post. s = pre @ u @ post \<and> matches r (lasto (Some c) pre) u (heado post None)"
        unfolding here Cons.IH by blast
      then show "\<exists>pre u post. c # s = pre @ u @ post \<and> matches r (lasto p pre) u (heado post None)"
      proof cases
        case 1
        then obtain u post where "c # s = [] @ u @ post \<and> matches r (lasto p []) u (heado post None)" by auto
        then show ?thesis by blast
      next
        case 2
        then show ?thesis by (metis append_Cons lasto_Cons)
      qed
    next
      assume "\<exists>pre u post. c # s = pre @ u @ post \<and> matches r (lasto p pre) u (heado post None)"
      then obtain pre u post where m: "c # s = pre @ u @ post" "matches r (lasto p pre) u (heado post None)" by blast
      show "match_from r p (c # s)"
      proof (cases pre)
        case Nil
        with m have "ends r (p, c # s) \<noteq> []" unfolding here by auto
        then show ?thesis by simp
      next
        case (Cons d pre2)
        with m have "match_from r (Some c) s" unfolding Cons.IH by auto
        then show ?thesis by simp
      qed
    qed
  qed
qed

lemma MatchString_matches:
  "MatchString r s \<longleftrightarrow> (\<exists>pre u post. s = pre @ u @ post \<and> matches r (lasto None pre) u (heado post None))"
  by (simp add: MatchString_def match_from_matches)

text \<open>Only whether the neighbours are word characters matters.\<close>

lemma matches_cong: "wordo p = wordo p' \<Longrightarrow> wordo n = wordo n' \<Longrightarrow> matches r p u n = matches r p' u n'"
proof (induction r arbitrary: p u n p' n')
  case (Seq r1 r2)
  have ctx: "wordo (lasto p u1) = wordo (lasto p' u1)" "wordo (heado u2 n) = wordo (heado u2 n')" for u1 u2
    using Seq.prems by (simp_all add: lasto_def heado_def split: list.split)
  have "matches r1 p u1 (heado u2 n) = matches r1 p' u1 (heado u2 n')"
    and "matches r2 (lasto p u1) u2 n = matches r2 (lasto p' u1) u2 n'" for u1 u2
    using Seq.IH(1) [OF Seq.prems(1) ctx(2)] Seq.IH(2) [OF ctx(1) Seq.prems(2)] by blast+
  then show ?case by simp
next
  case (Alt r1 r2)
  show ?case using Alt.IH(1) [OF Alt.prems] Alt.IH(2) [OF Alt.prems] by simp
next
  case (Opt r)
  show ?case using Opt.IH [OF Opt.prems] by simp
qed simp_all

section \<open>The shape of a severity statement\<close>

lemma is_word_nat: "is_word c \<longleftrightarrow> (97 \<le> (of_char (lower_char c) :: nat) \<and> (of_char (lower_char c) :: nat) \<le> 122) \<or>
    (48 \<le> (of_char c :: nat) \<and> (of_char c :: nat) \<le> 57) \<or> (of_char c :: nat) = 95"
  by (simp add: is_word_def less_eq_char_def char_eq_nat)

lemma is_word_lower_char [simp]: "is_word (lower_char c) = is_word c"
  unfolding is_word_nat lower_char_idem of_char_lower_char by auto

lemma word_not_terminator: "is_word c \<Longrightarrow> \<not> terminator c"
  unfolding is_word_nat of_char_lower_char by (auto simp: terminator_def split: if_splits)

lemma word_not_space: "is_word c \<Longrightarrow> \<not> is_space c"
  unfolding is_word_nat of_char_lower_char is_space_nat by auto

lemma rx_space_is_space: "c \<in> set rx_space \<Longrightarrow> is_space c"
  by (auto simp: rx_space_def is_space_nat)

text \<open>Every character that the expression can consume satisfies \<open>P\<close>.\<close>

primrec consumes :: "(char \<Rightarrow> bool) \<Rightarrow> rx \<Rightarrow> bool" where
  "consumes P (Lit w) = list_all P w"
| "consumes P (One cs) = list_all P cs"
| "consumes P (Many cs) = list_all P cs"
| "consumes P (Seq r1 r2) = (consumes P r1 \<and> consumes P r2)"
| "consumes P (Alt r1 r2) = (consumes P r1 \<and> consumes P r2)"
| "consumes P (Opt r) = consumes P r"
| "consumes P WordBoundary = True"

lemma same_letters: "map lower_char u = map lower_char w \<Longrightarrow> (\<And>c. P (lower_char c) = P c) \<Longrightarrow> list_all P u = list_all P w"
proof (induction u arbitrary: w)
  case (Cons c u)
  then obtain d w2 where w: "w = d # w2" "lower_char c = lower_char d" "map lower_char u = map lower_char w2"
    by (cases w) auto
  then have "P c = P d" using Cons.prems(2) by metis
  with w Cons show ?case by simp
qed simp

lemma consumes_matches: "consumes P r \<Longrightarrow> (\<And>c. P (lower_char c) = P c) \<Longrightarrow> matches r p u n \<Longrightarrow> list_all P u"
proof (induction r arbitrary: p u n)
  case (Lit w)
  then show ?case using same_letters [of u w P] by simp
next
  case (Seq r1 r2)
  then show ?case by fastforce
qed (auto simp: list_all_iff)

lemma terminator_lower_char: "terminator (lower_char c) = terminator c"
  unfolding terminator_def char_eq_nat of_char_lower_char by auto

lemma alternatives_matches:
  "ws \<noteq> [] \<Longrightarrow> matches (alternatives ws) p u n \<longleftrightarrow> (\<exists>w \<in> set ws. map lower_char u = map lower_char w)"
  by (induction ws rule: alternatives.induct) auto

definition word_only :: "string \<Rightarrow> bool" where
  "word_only w \<longleftrightarrow> w \<noteq> [] \<and> list_all is_word w"

lemma alternatives_word:
  assumes "matches (alternatives ws) p u n" and "ws \<noteq> []" and "list_all word_only ws"
  shows "word_only u"
proof -
  obtain w where w: "w \<in> set ws" "map lower_char u = map lower_char w"
    using assms(1) alternatives_matches [OF assms(2)] by blast
  then have "word_only w" using assms(3) by (simp add: list_all_iff)
  then show ?thesis using same_letters [OF w(2), of is_word] w(2) by (auto simp: word_only_def)
qed

lemma alternatives_consumes: "list_all (list_all P) ws \<Longrightarrow> consumes P (alternatives ws)"
  by (induction ws rule: alternatives.induct) auto

text \<open>A statement starts and ends with a word and holds no sentence terminator.\<close>

definition statement :: "string \<Rightarrow> bool" where
  "statement u \<longleftrightarrow> u \<noteq> [] \<and> is_word (hd u) \<and> is_word (last u) \<and> list_all (\<lambda>c. \<not> terminator c) u"

lemma severityWords_words: "list_all word_only severityWords" "list_all word_only [''severity'', ''risk'', ''priority'']"
  by code_simp+

lemma conflicting_words_ok: "list_all word_only (conflicting_words e)" "conflicting_words e \<noteq> []"
proof -
  show "list_all word_only (conflicting_words e)"
    using severityWords_words(1) by (auto simp: conflicting_words_def list_all_iff)
  have "\<exists>w \<in> set [''critical'', ''high'', ''medium'']. w \<notin> set (same_severity e)"
    by (auto simp: same_severity_def)
  then show "conflicting_words e \<noteq> []"
    by (auto simp: conflicting_words_def severityWords_def filter_empty_conv)
qed

lemma between_boundaries:
  assumes "matches (Seq WordBoundary r) p u n"
  shows "matches r p u n"
  using assms by (auto simp: heado_def)

lemma before_boundary:
  assumes "matches (Seq r WordBoundary) p u n"
  shows "\<exists>n'. matches r p u n'"
  using assms by auto

lemma matches_SeqE:
  assumes "matches (Seq r1 r2) p u n"
  obtains u1 u2 p' n' where "u = u1 @ u2" "matches r1 p u1 n'" "matches r2 p' u2 n"
  using assms by auto

lemma conflict_statement:
  assumes "matches (conflict_rx ws) p u n" and "list_all word_only ws" and "ws \<noteq> []"
  shows "statement u"
proof -
  note words = alternatives_word [OF _ assms(3,2)] alternatives_word [OF _ _ severityWords_words(2)]
  from assms(1) consider
      (adjective) a g t where "u = a @ g @ t" "word_only a" "word_only t"
    | (predicate) t g a where "u = t @ g @ a" "word_only t" "word_only a"
    unfolding conflict_rx_def matches.simps(5)
  proof (elim disjE)
    assume "matches (Seq WordBoundary (Seq (alternatives ws) (Seq some_gap (Seq subject WordBoundary)))) p u n"
    from between_boundaries [OF this] obtain a v p1 n1 where
      a: "u = a @ v" "matches (alternatives ws) p a n1" and v: "matches (Seq some_gap (Seq subject WordBoundary)) p1 v n"
      by (rule matches_SeqE)
    from v obtain g t p2 n2 where "v = g @ t" "matches (Seq subject WordBoundary) p2 t n" by (rule matches_SeqE)
    with before_boundary [OF this(2)] a words show thesis by (intro adjective [of a g t]) (auto simp: subject_def)
  next
    assume "matches (Seq WordBoundary (Seq subject (Seq some_space (Seq (Opt verb) (Seq (Many rx_space)
      (Seq (alternatives ws) WordBoundary)))))) p u n"
    from between_boundaries [OF this] obtain t v p1 n1 where
      t: "u = t @ v" "matches subject p t n1" and v: "matches (Seq some_space (Seq (Opt verb) (Seq (Many rx_space)
      (Seq (alternatives ws) WordBoundary)))) p1 v n"
      by (rule matches_SeqE)
    from v obtain g1 v2 p2 n2 where
      v2: "v = g1 @ v2" "matches (Seq (Opt verb) (Seq (Many rx_space) (Seq (alternatives ws) WordBoundary))) p2 v2 n"
      by (rule matches_SeqE)
    from v2(2) obtain g2 v3 p3 n3 where
      v3: "v2 = g2 @ v3" "matches (Seq (Many rx_space) (Seq (alternatives ws) WordBoundary)) p3 v3 n" by (rule matches_SeqE)
    from v3(2) obtain g3 a p4 n4 where
      v4: "v3 = g3 @ a" "matches (Seq (alternatives ws) WordBoundary) p4 a n" by (rule matches_SeqE)
    have "u = t @ (g1 @ g2 @ g3) @ a" using t v2(1) v3(1) v4(1) by simp
    with before_boundary [OF v4(2)] t(2) words show thesis by (intro predicate [of t "g1 @ g2 @ g3" a]) (auto simp: subject_def)
  qed
  then have ends: "u \<noteq> [] \<and> is_word (hd u) \<and> is_word (last u)"
    by cases (auto simp: word_only_def list_all_iff hd_append last_append)
  have "list_all (list_all (\<lambda>c. \<not> terminator c)) ws"
    using assms(2) word_not_terminator by (auto simp: word_only_def list_all_iff)
  then have "consumes (\<lambda>c. \<not> terminator c) (conflict_rx ws)"
    using alternatives_consumes [of "\<lambda>c. \<not> terminator c" ws]
    by (simp add: conflict_rx_def subject_def some_gap_def some_space_def verb_def rx_space_def terminator_def)
  then have "list_all (\<lambda>c. \<not> terminator c) u"
    using consumes_matches [OF _ _ assms(1), of "\<lambda>c. \<not> terminator c"] terminator_lower_char by simp
  with ends show ?thesis by (simp add: statement_def)
qed

section \<open>Sentences\<close>

definition closed_sentence :: "string \<Rightarrow> bool" where
  "closed_sentence s \<longleftrightarrow> (\<exists>b m sp. s = b @ m @ sp \<and> m \<noteq> [] \<and> list_all terminator m \<and> list_all (\<lambda>c. c \<in> set rx_space) sp)"

text \<open>Only the last sentence may lack its terminator.\<close>

primrec sentences :: "string list \<Rightarrow> bool" where
  "sentences [] = True"
| "sentences (s # rest) = ((closed_sentence s \<or> rest = [] \<and> list_all (\<lambda>c. \<not> terminator c) s) \<and> sentences rest)"

lemma sentences_sentenceSplit: "sentences (sentenceSplit s)"
proof (induction s rule: sentenceSplit.induct)
  case (1 s)
  define t where "t = dropWhile terminator s"
  define r where "r = dropWhile (\<lambda>c. \<not> terminator c) t"
  define rest where "rest = dropWhile (\<lambda>c. c \<in> set rx_space) (dropWhile terminator r)"
  define first where "first = takeWhile (\<lambda>c. \<not> terminator c) t @ takeWhile terminator r @
      takeWhile (\<lambda>c. c \<in> set rx_space) (dropWhile terminator r)"
  show ?case
  proof (cases "t = []")
    case True
    then show ?thesis by (simp add: sentenceSplit.simps [of s] t_def)
  next
    case False
    then have split: "sentenceSplit s = first # sentenceSplit rest"
      by (subst sentenceSplit.simps) (simp add: Let_def t_def r_def rest_def first_def)
    have "sentences (sentenceSplit rest)"
      using 1 [OF t_def _ _ r_def] False by (simp add: rest_def r_def t_def)
    moreover have "closed_sentence first" if "r \<noteq> []"
    proof -
      have "terminator (hd r)" using that hd_dropWhile [of "\<lambda>c. \<not> terminator c" t] by (simp add: r_def)
      then have "takeWhile terminator r \<noteq> []" using that by (cases r) auto
      then show ?thesis by (auto simp: closed_sentence_def first_def list_all_iff dest: set_takeWhileD)
    qed
    moreover have "sentenceSplit rest = [] \<and> list_all (\<lambda>c. \<not> terminator c) first" if "r = []"
    proof -
      have "sentenceSplit rest = []" using that by (simp add: rest_def sentenceSplit.simps)
      moreover have "first = takeWhile (\<lambda>c. \<not> terminator c) t" using that by (simp add: first_def)
      ultimately show ?thesis by (auto simp: list_all_iff dest: set_takeWhileD)
    qed
    ultimately show ?thesis by (cases "r = []") (auto simp: split)
  qed
qed

lemma sentences_filter: "sentences ss \<Longrightarrow> sentences (filter P ss)"
  by (induction ss) auto

lemma rx_space_not_word: "c \<in> set rx_space \<Longrightarrow> \<not> is_word c"
  using rx_space_is_space word_not_space by blast

lemma closed_sentence_end: "closed_sentence s \<Longrightarrow> s \<noteq> [] \<and> \<not> is_word (last s)"
  by (auto simp: closed_sentence_def list_all_iff last_append dest: word_not_terminator rx_space_not_word last_in_set
      intro: rx_space_not_word) (metis last_in_set word_not_terminator rx_space_not_word)+

text \<open>A suffix of a closed sentence that starts with a word character holds a terminator.\<close>

lemma closed_sentence_suffix:
  assumes "closed_sentence (pre @ x)" and "x \<noteq> []" and "is_word (hd x)"
  shows "\<exists>c \<in> set x. terminator c"
proof (rule ccontr)
  assume no: "\<not> (\<exists>c \<in> set x. terminator c)"
  obtain b m sp where s: "pre @ x = (b @ m) @ sp" "m \<noteq> []" "list_all terminator m" "list_all (\<lambda>c. c \<in> set rx_space) sp"
    using assms(1) by (auto simp: closed_sentence_def)
  from s(1) obtain us where "us @ x = sp \<or> pre @ us = b @ m \<and> x = us @ sp"
    using append_eq_append_conv2 [of pre x "b @ m" sp] by auto
  then have "\<exists>y. sp = y @ x"
  proof
    assume cut: "pre @ us = b @ m \<and> x = us @ sp"
    have "terminator (last us)" if "us \<noteq> []"
      using s(2,3) cut that by (metis last_appendR last_in_set list_all_iff)
    then have "us = []" using no cut by (cases us rule: rev_cases) auto
    with cut show ?thesis by auto
  qed auto
  then have "hd x \<in> set rx_space" using s(4) assms(2) by (auto simp: list_all_iff)
  with assms(3) rx_space_not_word show False by blast
qed

lemma wordo_Some [simp]: "wordo (Some c) = is_word c" and wordo_None [simp]: "wordo None = False"
  by (simp_all add: wordo_def)

lemma wordo_lasto: "\<not> wordo p \<Longrightarrow> \<not> wordo q \<Longrightarrow> wordo (lasto p s) = wordo (lasto q s)"
  by (simp add: lasto_def)

lemma wordo_heado: "\<not> wordo p \<Longrightarrow> \<not> wordo q \<Longrightarrow> wordo (heado s p) = wordo (heado s q)"
  by (cases s) simp_all

text \<open>A statement in the text lies in one of its sentences, between the same kinds of characters.\<close>

lemma statement_in_sentence:
  assumes "sentences ss" and "concat ss = pre @ u @ post" and "statement u" and "\<not> wordo p"
  shows "\<exists>s \<in> set ss. \<exists>pre' post'. s = pre' @ u @ post' \<and> wordo (lasto None pre') = wordo (lasto p pre) \<and>
      wordo (heado post' None) = wordo (heado post None)"
  using assms
proof (induction ss arbitrary: pre p)
  case Nil
  then show ?case by (simp add: statement_def)
next
  case (Cons s rest)
  have u: "u \<noteq> []" "is_word (hd u)" "is_word (last u)" "\<forall>c \<in> set u. \<not> terminator c"
    using Cons.prems(3) by (simp_all add: statement_def list_all_iff)
  show ?case
  proof (cases "closed_sentence s")
    case False
    then have "s = pre @ u @ post" using Cons.prems(1,2) by simp
    then show ?thesis using wordo_lasto [OF _ Cons.prems(4), of None pre] by auto
  next
    case True
    obtain x where "pre = s @ x \<and> x @ u @ post = concat rest \<or> pre @ x = s \<and> x @ concat rest = u @ post"
      using Cons.prems(2) append_eq_append_conv2 [of s "concat rest" pre "u @ post"] by fastforce
    then consider (later) "pre = s @ x" "concat rest = x @ u @ post"
      | (here) "s = pre @ x" "x \<noteq> []" "x @ concat rest = u @ post" by (cases "x = []") auto
    then show ?thesis
    proof cases
      case later
      have out: "\<not> wordo (lasto p s)" using closed_sentence_end [OF True] by (simp add: lasto_def)
      have "sentences rest" using Cons.prems(1) by simp
      from Cons.IH [OF this later(2) Cons.prems(3) out] show ?thesis by (auto simp: later(1))
    next
      case here
      obtain y where "u = x @ y \<or> x = u @ y \<and> post = y @ concat rest"
        using here(3) append_eq_append_conv2 [of x "concat rest" u post] by auto
      then have x: "x = u @ y \<and> post = y @ concat rest"
      proof
        assume "u = x @ y"
        moreover from this here(2) have "is_word (hd x)" using u(2) by (cases x) auto
        ultimately show ?thesis using closed_sentence_suffix [of pre x] True here(1,2) u(4) by auto
      qed
      have "y \<noteq> []" using closed_sentence_end [OF True] u(1,3) here(1) x by auto
      then have "wordo (heado y None) = wordo (heado post None)" using x by (cases y) auto
      moreover have "s = pre @ u @ y" using here(1) x by simp
      ultimately show ?thesis using wordo_lasto [OF _ Cons.prems(4), of None pre] by auto
    qed
  qed
qed

lemma TrimSpace_parts: "\<exists>l r. t = l @ TrimSpace t @ r \<and> list_all is_space l \<and> list_all is_space r"
proof -
  define d where "d = dropWhile is_space t"
  have "rev d = takeWhile is_space (rev d) @ rev (TrimSpace t)"
    by (simp add: d_def TrimSpace_def trim_by_def)
  then have "d = TrimSpace t @ rev (takeWhile is_space (rev d))" by (metis rev_append rev_rev_ident)
  moreover have "t = takeWhile is_space t @ d" by (simp add: d_def)
  ultimately have "t = takeWhile is_space t @ TrimSpace t @ rev (takeWhile is_space (rev d))" by simp
  moreover have "list_all is_space (takeWhile is_space t)" "list_all is_space (rev (takeWhile is_space (rev d)))"
    by (auto simp: list_all_iff dest: set_takeWhileD)
  ultimately show ?thesis by blast
qed

lemma spaces_not_word: "list_all is_space l \<Longrightarrow> \<not> wordo (lasto None l)" "list_all is_space r \<Longrightarrow> \<not> wordo (heado r None)"
  using word_not_space by (auto simp: lasto_def heado_def list_all_iff wordo_def split: list.split dest: last_in_set)

lemma MatchString_TrimSpace:
  assumes "MatchString r (TrimSpace t)"
  shows "MatchString r t"
proof -
  obtain l e where t: "t = l @ TrimSpace t @ e" "list_all is_space l" "list_all is_space e" using TrimSpace_parts by blast
  obtain pre u post where m: "TrimSpace t = pre @ u @ post" "matches r (lasto None pre) u (heado post None)"
    using assms unfolding MatchString_matches by blast
  have "wordo (lasto None (l @ pre)) = wordo (lasto None pre)"
    using wordo_lasto [of "lasto None l" None pre] spaces_not_word(1) [OF t(2)] by simp
  moreover have "wordo (heado (post @ e) None) = wordo (heado post None)"
    using wordo_heado [of "heado e None" None post] spaces_not_word(2) [OF t(3)] by simp
  ultimately have "matches r (lasto None (l @ pre)) u (heado (post @ e) None)"
    using m(2) matches_cong by blast
  moreover have "t = (l @ pre) @ u @ (post @ e)" using t(1) m(1) by simp
  ultimately show ?thesis unfolding MatchString_matches by blast
qed

lemma blank_parts: "TrimSpace (concat ss) = '''' \<Longrightarrow> s \<in> set ss \<Longrightarrow> TrimSpace s = ''''"
proof -
  assume blank: "TrimSpace (concat ss) = ''''" and s: "s \<in> set ss"
  obtain l r where "concat ss = l @ r" "list_all is_space l" "list_all is_space r"
    using TrimSpace_parts [of "concat ss"] blank by auto
  then have "list_all is_space (concat ss)" by simp
  then have "\<forall>c \<in> set s. is_space c" using s by (auto simp: list_all_iff)
  then have "\<forall>c \<in> set (dropWhile is_space s). is_space c" by (auto dest: set_dropWhileD)
  then show ?thesis by (simp add: TrimSpace_def trim_by_def)
qed

section \<open>The guard\<close>

text \<open>The text states another severity than the engine's.\<close>

definition conflicts :: "string \<Rightarrow> string \<Rightarrow> bool" where
  "conflicts engineSeverity = MatchString (conflict_rx (conflicting_words (ToLower (TrimSpace engineSeverity))))"

text \<open>The guarded text makes no such statement, in one sentence or across two; the exception is a narration of which nothing
  would be left, as every sentence conflicts or is blank: it is passed on as it came.\<close>

lemma dropConflictingSeverity_ok:
  assumes "TrimSpace engineSeverity \<noteq> ''''"
  shows "\<not> conflicts engineSeverity (dropConflictingSeverity narration engineSeverity) \<or>
    dropConflictingSeverity narration engineSeverity = narration \<and>
      list_all (\<lambda>s. conflicts engineSeverity s \<or> TrimSpace s = '''') (sentenceSplit narration)"
proof -
  define re where "re = conflict_rx (conflicting_words (ToLower (TrimSpace engineSeverity)))"
  have re: "conflicts engineSeverity = MatchString re" by (simp add: conflicts_def re_def)
  define kept where "kept = filter (\<lambda>s. \<not> MatchString re s) (sentenceSplit narration)"
  have no: "\<not> MatchString re (concat kept)"
  proof
    assume "MatchString re (concat kept)"
    then obtain pre u post where m: "concat kept = pre @ u @ post" "matches re (lasto None pre) u (heado post None)"
      unfolding MatchString_matches by blast
    have "statement u" using conflict_statement [OF m(2) [unfolded re_def]] conflicting_words_ok by blast
    moreover have "sentences kept" by (simp add: kept_def sentences_filter sentences_sentenceSplit)
    ultimately obtain s pre' post' where s: "s \<in> set kept" "s = pre' @ u @ post'"
      "wordo (lasto None pre') = wordo (lasto None pre)" "wordo (heado post' None) = wordo (heado post None)"
      using statement_in_sentence [of kept pre u post None] m(1) by auto
    have "MatchString re s"
      unfolding MatchString_matches using matches_cong [OF s(3,4)] m(2) s(2) by blast
    with s(1) show False by (simp add: kept_def)
  qed
  show ?thesis
  proof (cases "narration = '''' \<or> TrimSpace (concat kept) = ''''")
    case True
    then have "list_all (\<lambda>s. MatchString re s \<or> TrimSpace s = '''') (sentenceSplit narration)"
      using blank_parts [of kept] by (auto simp: list_all_iff kept_def sentenceSplit.simps [of "''''"])
    moreover have "dropConflictingSeverity narration engineSeverity = narration"
      using True by (auto simp: dropConflictingSeverity_def Let_def kept_def re_def)
    ultimately show ?thesis by (simp add: re)
  next
    case False
    then have "dropConflictingSeverity narration engineSeverity = TrimSpace (concat kept)"
      using assms(1) by (auto simp: dropConflictingSeverity_def Let_def kept_def re_def)
    then show ?thesis using no MatchString_TrimSpace unfolding re by metis
  qed
qed

lemma dropConflictingSeverity_blank: "TrimSpace narration \<noteq> '''' \<Longrightarrow> TrimSpace (dropConflictingSeverity narration sev) \<noteq> ''''"
  by (simp add: dropConflictingSeverity_def Let_def)

text \<open>One sentence of a narration of a high finding calls it a low risk: the sentence goes.\<close>

lemma dropConflictingSeverity_example:
  "dropConflictingSeverity ''Open. Low-Risk! Fix it.'' ''high'' = ''Open. Fix it.''"
proof -
  have split: "sentenceSplit ''Open. Low-Risk! Fix it.'' = [''Open. '', ''Low-Risk! '', ''Fix it.'']"
    by (subst sentenceSplit.simps, simp add: Let_def terminator_def rx_space_def)+
  have low: "ToLower (TrimSpace ''high'') = ''high''" by code_simp
  show ?thesis unfolding dropConflictingSeverity_def Let_def split low by code_simp
qed

end
