(* ===== verification/AiGuardMeaning.thy ===== *)
theory AiGuardMeaning
  imports AiGuardSpec
begin

text \<open>
  What the guard of a narration looks for, said without its expression and its tables: an English statement of a severity
  level, and the sentences of a text. The guard is proved to find exactly these.
\<close>

section \<open>Statements of a severity\<close>

text \<open>The level that a word names, in lower case; \<open>moderate\<close> is medium and \<open>informational\<close> is info.\<close>

definition severity_level :: "string \<Rightarrow> string option" where
  "severity_level w =
     (if w = ''critical'' \<or> w = ''high'' \<or> w = ''low'' then Some w
      else if w = ''medium'' \<or> w = ''moderate'' then Some ''medium''
      else if w = ''info'' \<or> w = ''informational'' then Some ''info''
      else None)"

definition names_level :: "string \<Rightarrow> string \<Rightarrow> bool" where
  "names_level u l \<longleftrightarrow> severity_level (ToLower u) = Some l"

definition topic :: "string \<Rightarrow> bool" where
  "topic u \<longleftrightarrow> ToLower u \<in> {''severity'', ''risk'', ''priority''}"

definition white :: "string \<Rightarrow> bool" where
  "white u \<longleftrightarrow> (\<forall>c \<in> set u. c \<in> set rx_space)"

definition spaces :: "string \<Rightarrow> bool" where
  "spaces u \<longleftrightarrow> u \<noteq> '''' \<and> white u"

definition gap :: "string \<Rightarrow> bool" where
  "gap u \<longleftrightarrow> u \<noteq> '''' \<and> (\<forall>c \<in> set u. c = CHR ''-'' \<or> c \<in> set rx_space)"

text \<open>What may stand between the topic and the level: nothing, \<open>is\<close>, \<open>of\<close>, \<open>level is\<close> or \<open>rating is\<close>.\<close>

definition link :: "string \<Rightarrow> bool" where
  "link v \<longleftrightarrow> v = '''' \<or> ToLower v \<in> {''is'', ''of''} \<or>
     (\<exists>x g y. v = x @ g @ y \<and> ToLower x \<in> {''level'', ''rating''} \<and> spaces g \<and> ToLower y = ''is'')"

text \<open>As in \<open>low-severity\<close> or \<open>high risk\<close>, and as in \<open>severity is medium\<close> or \<open>risk level is low\<close>.\<close>

definition level_phrase :: "string \<Rightarrow> string \<Rightarrow> bool" where
  "level_phrase u l \<longleftrightarrow>
     (\<exists>a g t. u = a @ g @ t \<and> names_level a l \<and> gap g \<and> topic t) \<or>
     (\<exists>t g v h a. u = t @ g @ v @ h @ a \<and> topic t \<and> spaces g \<and> link v \<and> white h \<and> names_level a l)"

text \<open>The text states the level, as whole words and in any case of letters.\<close>

definition states_level :: "string \<Rightarrow> string \<Rightarrow> bool" where
  "states_level s l \<longleftrightarrow> (\<exists>pre u post. s = pre @ u @ post \<and> level_phrase u l \<and>
     (pre = '''' \<or> \<not> is_word (last pre)) \<and> (post = '''' \<or> \<not> is_word (hd post)))"

definition states_other_level :: "string \<Rightarrow> string \<Rightarrow> bool" where
  "states_other_level severity s \<longleftrightarrow>
     (\<exists>l. states_level s l \<and> severity_level (ToLower (TrimSpace severity)) \<noteq> Some l)"

section \<open>The expression\<close>

lemma conflicting_words_level:
  "w \<in> set (conflicting_words e) \<longleftrightarrow> (\<exists>l. severity_level w = Some l \<and> severity_level e \<noteq> Some l)"
  by (auto simp: conflicting_words_def severityWords_def same_severity_def severity_level_def)

lemma conflicting_words_lower: "w \<in> set (conflicting_words e) \<Longrightarrow> ToLower w = w"
proof -
  have "\<forall>w \<in> set severityWords. ToLower w = w" by code_simp
  then show "w \<in> set (conflicting_words e) \<Longrightarrow> ToLower w = w" by (simp add: conflicting_words_def)
qed

lemma matches_words:
  "matches (alternatives (conflicting_words e)) p u n \<longleftrightarrow> (\<exists>l. names_level u l \<and> severity_level e \<noteq> Some l)"
proof -
  have "matches (alternatives (conflicting_words e)) p u n \<longleftrightarrow> (\<exists>w \<in> set (conflicting_words e). ToLower u = ToLower w)"
    using alternatives_matches [OF conflicting_words_ok(2)] by (simp add: ToLower_def)
  also have "\<dots> \<longleftrightarrow> ToLower u \<in> set (conflicting_words e)" using conflicting_words_lower by metis
  finally show ?thesis by (simp add: conflicting_words_level names_level_def)
qed

lemma lower_words:
  "map lower_char ''severity'' = ''severity''" "map lower_char ''risk'' = ''risk''" "map lower_char ''priority'' = ''priority''"
  "map lower_char ''is'' = ''is''" "map lower_char ''of'' = ''of''" "map lower_char ''level'' = ''level''"
  "map lower_char ''rating'' = ''rating''"
  by code_simp+

lemma matches_subject: "matches subject p u n \<longleftrightarrow> topic u"
  unfolding subject_def topic_def ToLower_def by (subst alternatives_matches) (simp_all only: lower_words list.set bex_simps, auto)

lemma one_many: "(\<exists>u1 u2. u = u1 @ u2 \<and> (\<exists>c \<in> A. u1 = [c]) \<and> set u2 \<subseteq> A) \<longleftrightarrow> u \<noteq> [] \<and> set u \<subseteq> A"
  by (cases u) (auto intro: exI [of _ "[_]"])

lemma matches_space: "matches some_space p u n \<longleftrightarrow> spaces u"
  using one_many [of u "set rx_space"] by (simp add: some_space_def spaces_def white_def subset_eq)

lemma matches_gap: "matches some_gap p u n \<longleftrightarrow> gap u"
  using one_many [of u "set (CHR ''-'' # rx_space)"] by (simp add: some_gap_def gap_def subset_eq)

lemma matches_many: "matches (Many rx_space) p u n \<longleftrightarrow> white u"
  by (auto simp: white_def)

lemma matches_verb: "matches (Opt verb) p v n \<longleftrightarrow> link v"
proof -
  have "matches (Opt verb) p v n \<longleftrightarrow> ToLower v = ''is'' \<or> ToLower v = ''of'' \<or>
      (\<exists>x y. v = x @ y \<and> ToLower x = ''level'' \<and> (\<exists>g z. y = g @ z \<and> spaces g \<and> ToLower z = ''is'')) \<or>
      (\<exists>x y. v = x @ y \<and> ToLower x = ''rating'' \<and> (\<exists>g z. y = g @ z \<and> spaces g \<and> ToLower z = ''is'')) \<or>
      v = ''''"
    unfolding verb_def matches.simps(5,6) matches.simps(1,4) matches_space lower_words ToLower_def by blast
  also have "\<dots> \<longleftrightarrow> link v" unfolding link_def by blast
  finally show ?thesis .
qed

lemma level_word_ends:
  assumes "names_level a l"
  shows "a \<noteq> '''' \<and> is_word (hd a) \<and> is_word (last a)"
proof -
  have "ToLower a \<in> {''critical'', ''high'', ''low'', ''medium'', ''moderate'', ''info'', ''informational''}"
    using assms by (auto simp: names_level_def severity_level_def split: if_splits)
  moreover have "list_all word_only [''critical'', ''high'', ''low'', ''medium'', ''moderate'', ''info'', ''informational'']"
    by code_simp
  ultimately have "word_only (ToLower a)" by (auto simp: list_all_iff)
  then have "a \<noteq> ''''" "\<forall>c \<in> set a. is_word c" by (auto simp: word_only_def ToLower_def list_all_iff)
  then show ?thesis by simp
qed

lemma topic_ends:
  assumes "topic t"
  shows "t \<noteq> '''' \<and> is_word (hd t) \<and> is_word (last t)"
proof -
  have "word_only (ToLower t)" using assms severityWords_words(2) by (auto simp: topic_def list_all_iff)
  then have "t \<noteq> ''''" "\<forall>c \<in> set t. is_word c" by (auto simp: word_only_def ToLower_def list_all_iff)
  then show ?thesis by simp
qed

text \<open>An expression that does not look at its context, and word boundaries around words.\<close>

lemma matches_seq:
  assumes "\<And>q v m. matches r q v m \<longleftrightarrow> R v"
  shows "matches (Seq r r2) p u n \<longleftrightarrow> (\<exists>v w. u = v @ w \<and> R v \<and> matches r2 (lasto p v) w n)"
  using assms by auto

lemma matches_word_end:
  assumes "\<And>q v m. matches r q v m \<longleftrightarrow> R v" and "\<And>v. R v \<Longrightarrow> v \<noteq> '''' \<and> is_word (last v)"
  shows "matches (Seq r WordBoundary) p u n \<longleftrightarrow> R u \<and> \<not> wordo n"
proof -
  have "matches (Seq r WordBoundary) p u n \<longleftrightarrow> R u \<and> wordo (lasto p u) \<noteq> wordo n" using assms(1) by auto
  moreover have "R u \<Longrightarrow> wordo (lasto p u)" using assms(2) [of u] by (simp add: lasto_def)
  ultimately show ?thesis by blast
qed

lemma matches_word_start:
  assumes "\<And>q. matches r q u n \<longleftrightarrow> R u" and "R u \<Longrightarrow> u \<noteq> '''' \<and> is_word (hd u)"
  shows "matches (Seq WordBoundary r) p u n \<longleftrightarrow> R u \<and> \<not> wordo p"
proof -
  have "matches (Seq WordBoundary r) p u n \<longleftrightarrow> R u \<and> wordo p \<noteq> wordo (heado u n)" using assms(1) by auto
  moreover have "R u \<Longrightarrow> wordo (heado u n)" using assms(2) by (cases u) simp_all
  ultimately show ?thesis by blast
qed

abbreviation other_level :: "string \<Rightarrow> string \<Rightarrow> bool" where
  "other_level e a \<equiv> \<exists>l. names_level a l \<and> severity_level e \<noteq> Some l"

lemma other_level_ends: "other_level e a \<Longrightarrow> a \<noteq> '''' \<and> is_word (hd a)" "other_level e a \<Longrightarrow> a \<noteq> '''' \<and> is_word (last a)"
  using level_word_ends by blast+

lemma matches_topic_end: "matches (Seq subject WordBoundary) p u n \<longleftrightarrow> topic u \<and> \<not> wordo n"
proof (rule matches_word_end)
  show "topic v \<Longrightarrow> v \<noteq> '''' \<and> is_word (last v)" for v using topic_ends by blast
qed (rule matches_subject)

lemma matches_level_end:
  "matches (Seq (alternatives (conflicting_words e)) WordBoundary) p u n \<longleftrightarrow> other_level e u \<and> \<not> wordo n"
proof (rule matches_word_end)
  show "other_level e v \<Longrightarrow> v \<noteq> '''' \<and> is_word (last v)" for v by (rule other_level_ends(2))
qed (rule matches_words)

lemma matches_adjective:
  "matches (Seq WordBoundary (Seq (alternatives (conflicting_words e)) (Seq some_gap (Seq subject WordBoundary)))) p u n \<longleftrightarrow>
    (\<exists>a v. u = a @ v \<and> other_level e a \<and> (\<exists>g t. v = g @ t \<and>
      gap g \<and> topic t \<and> \<not> wordo n)) \<and> \<not> wordo p"
  (is "_ \<longleftrightarrow> ?R \<and> _")
proof (rule matches_word_start)
  show "matches (Seq (alternatives (conflicting_words e)) (Seq some_gap (Seq subject WordBoundary))) q u n \<longleftrightarrow>
    (\<exists>a v. u = a @ v \<and> other_level e a \<and> (\<exists>g t. v = g @ t \<and>
      gap g \<and> topic t \<and> \<not> wordo n))" for q
    unfolding matches_seq [OF matches_words] matches_seq [OF matches_gap] matches_topic_end ..
next
  assume "?R"
  then obtain a v l where "u = a @ v" "names_level a l" by (elim exE conjE)
  with level_word_ends [of a l] show "u \<noteq> '''' \<and> is_word (hd u)" by simp
qed

lemma matches_predicate:
  "matches (Seq WordBoundary (Seq subject (Seq some_space (Seq (Opt verb) (Seq (Many rx_space)
      (Seq (alternatives (conflicting_words e)) WordBoundary)))))) p u n \<longleftrightarrow>
    (\<exists>t v. u = t @ v \<and> topic t \<and> (\<exists>g w. v = g @ w \<and> spaces g \<and> (\<exists>k x. w = k @ x \<and> link k \<and>
      (\<exists>h a. x = h @ a \<and> white h \<and> other_level e a \<and> \<not> wordo n)))) \<and> \<not> wordo p"
  (is "_ \<longleftrightarrow> ?R \<and> _")
proof (rule matches_word_start)
  show "matches (Seq subject (Seq some_space (Seq (Opt verb) (Seq (Many rx_space)
      (Seq (alternatives (conflicting_words e)) WordBoundary))))) q u n \<longleftrightarrow>
    (\<exists>t v. u = t @ v \<and> topic t \<and> (\<exists>g w. v = g @ w \<and> spaces g \<and> (\<exists>k x. w = k @ x \<and> link k \<and>
      (\<exists>h a. x = h @ a \<and> white h \<and> other_level e a \<and> \<not> wordo n))))" for q
    unfolding matches_seq [OF matches_subject] matches_seq [OF matches_space] matches_seq [OF matches_verb]
      matches_seq [OF matches_many] matches_level_end ..
next
  assume "?R"
  then obtain t v where "u = t @ v" "topic t" by (elim exE conjE)
  with topic_ends [of t] show "u \<noteq> '''' \<and> is_word (hd u)" by simp
qed

lemma matches_conflict:
  "matches (conflict_rx (conflicting_words e)) p u n \<longleftrightarrow>
    \<not> wordo p \<and> \<not> wordo n \<and> (\<exists>l. level_phrase u l \<and> severity_level e \<noteq> Some l)"
proof -
  have "(\<exists>a v. u = a @ v \<and> other_level e a \<and> (\<exists>g t. v = g @ t \<and> gap g \<and> topic t \<and> \<not> wordo n)) \<longleftrightarrow>
      \<not> wordo n \<and> (\<exists>l. (\<exists>a g t. u = a @ g @ t \<and> names_level a l \<and> gap g \<and> topic t) \<and> severity_level e \<noteq> Some l)"
    by (intro iffI; elim exE conjE; hypsubst; intro conjI exI; (assumption | rule refl))
  moreover have "(\<exists>t v. u = t @ v \<and> topic t \<and> (\<exists>g w. v = g @ w \<and> spaces g \<and> (\<exists>k x. w = k @ x \<and> link k \<and>
      (\<exists>h a. x = h @ a \<and> white h \<and> other_level e a \<and> \<not> wordo n)))) \<longleftrightarrow>
      \<not> wordo n \<and> (\<exists>l. (\<exists>t g v h a. u = t @ g @ v @ h @ a \<and> topic t \<and> spaces g \<and> link v \<and> white h \<and> names_level a l) \<and>
        severity_level e \<noteq> Some l)"
    by (intro iffI; elim exE conjE; hypsubst; intro conjI exI; (assumption | rule refl))
  ultimately have "matches (conflict_rx (conflicting_words e)) p u n \<longleftrightarrow>
      (\<not> wordo n \<and> (\<exists>l. (\<exists>a g t. u = a @ g @ t \<and> names_level a l \<and> gap g \<and> topic t) \<and> severity_level e \<noteq> Some l)) \<and> \<not> wordo p \<or>
      (\<not> wordo n \<and> (\<exists>l. (\<exists>t g v h a. u = t @ g @ v @ h @ a \<and> topic t \<and> spaces g \<and> link v \<and> white h \<and> names_level a l) \<and>
        severity_level e \<noteq> Some l)) \<and> \<not> wordo p"
    unfolding conflict_rx_def matches.simps(5) matches_adjective matches_predicate by (rule arg_cong2)
  then show ?thesis unfolding level_phrase_def conj_disj_distribR ex_disj_distrib by (simp only: conj_disj_distribL conj_ac)
qed

text \<open>The guard's expression finds exactly the statements of another level.\<close>

lemma conflicts_states_other_level: "conflicts severity s \<longleftrightarrow> states_other_level severity s"
proof -
  have "wordo (lasto None pre) \<longleftrightarrow> \<not> (pre = '''' \<or> \<not> is_word (last pre))" for pre
    by (simp add: lasto_def)
  moreover have "wordo (heado post None) \<longleftrightarrow> \<not> (post = '''' \<or> \<not> is_word (hd post))" for post
    by (cases post) simp_all
  ultimately show ?thesis
    unfolding conflicts_def MatchString_matches matches_conflict states_other_level_def states_level_def by blast
qed

section \<open>Sentences of a text\<close>

text \<open>A sentence is a run of other characters, then terminators and white space; only at the end of the text may the
  terminators be missing. Terminators before a sentence belong to none.\<close>

definition sentence :: "string \<Rightarrow> bool" where
  "sentence s \<longleftrightarrow> (\<exists>b m sp. s = b @ m @ sp \<and> b \<noteq> '''' \<and> (\<forall>c \<in> set b. \<not> terminator c) \<and> m \<noteq> '''' \<and>
     (\<forall>c \<in> set m. terminator c) \<and> white sp)"

inductive sentences_of :: "string \<Rightarrow> string list \<Rightarrow> bool" where
  no_sentence: "\<forall>c \<in> set m. terminator c \<Longrightarrow> sentences_of m []"
| open_sentence: "\<forall>c \<in> set m. terminator c \<Longrightarrow> b \<noteq> '''' \<Longrightarrow> \<forall>c \<in> set b. \<not> terminator c \<Longrightarrow> sentences_of (m @ b) [b]"
| next_sentence: "\<forall>c \<in> set m. terminator c \<Longrightarrow> sentence s \<Longrightarrow> sentences_of rest ss \<Longrightarrow> sentences_of (m @ s @ rest) (s # ss)"

lemma sentenceSplit_sentences_of: "sentences_of s (sentenceSplit s)"
proof (induction s rule: sentenceSplit.induct)
  case (1 s)
  define m where "m = takeWhile terminator s"
  define t where "t = dropWhile terminator s"
  define r where "r = dropWhile (\<lambda>c. \<not> terminator c) t"
  define d where "d = dropWhile terminator r"
  define rest where "rest = dropWhile (\<lambda>c. c \<in> set rx_space) d"
  define first where "first = takeWhile (\<lambda>c. \<not> terminator c) t @ takeWhile terminator r @ takeWhile (\<lambda>c. c \<in> set rx_space) d"
  have m: "\<forall>c \<in> set m. terminator c" unfolding m_def by (metis set_takeWhileD)
  have t: "t = first @ rest" by (simp add: first_def rest_def d_def r_def)
  have s: "s = m @ t" by (simp add: m_def t_def)
  show ?case
  proof (cases "t = []")
    case True
    then have "sentenceSplit s = []" by (simp add: sentenceSplit.simps [of s] t_def)
    then show ?thesis using no_sentence [OF m] s True by simp
  next
    case False
    then have split: "sentenceSplit s = first # sentenceSplit rest"
      by (subst sentenceSplit.simps) (simp add: Let_def t_def r_def d_def rest_def first_def)
    have "\<not> terminator (hd t)" using False hd_dropWhile [of terminator s] by (simp add: t_def)
    then have body: "takeWhile (\<lambda>c. \<not> terminator c) t \<noteq> ''''" using False by (cases t) auto
    have IH: "sentences_of rest (sentenceSplit rest)"
      using 1 [OF t_def _ _ r_def] False by (simp add: rest_def d_def r_def t_def)
    show ?thesis
    proof (cases "r = []")
      case True
      then have d: "d = []" by (simp add: d_def)
      then have rest: "rest = []" by (simp add: rest_def)
      have "first = takeWhile (\<lambda>c. \<not> terminator c) t" using True d by (simp add: first_def)
      then have "\<forall>c \<in> set first. \<not> terminator c" by (metis set_takeWhileD)
      moreover have "first = t" using t rest by simp
      moreover have "sentenceSplit rest = []" by (simp add: rest sentenceSplit.simps)
      ultimately show ?thesis using open_sentence [OF m False] s split by simp
    next
      case more: False
      then have "terminator (hd r)" using hd_dropWhile [of "\<lambda>c. \<not> terminator c" t] by (simp add: r_def)
      then have marks: "takeWhile terminator r \<noteq> ''''" using more by (cases r) auto
      have "sentence first"
        unfolding sentence_def first_def
        by (intro exI conjI, rule refl) (use body marks in \<open>auto simp: white_def dest: set_takeWhileD\<close>)
      from next_sentence [OF m this IH] show ?thesis unfolding split using s t by simp
    qed
  qed
qed

end
