(* ===== verification/AiClient.thy ===== *)
theory AiClient
  imports AiEvidence AiGuard "HOL-Library.Word"
begin

text \<open>
  Package \<open>internal/aiclient\<close>: the client of the narration sidecar (\<open>client.go\<close>, \<open>types.go\<close>) and the packet it
  sends (\<open>evidence.go\<close>). The wire formats of \<open>encoding/json\<close>, the HTTP transport and the wait between two
  attempts are parameters; the requests handed to the transport are logged in the state. An error keeps
  which sentinel \<open>errors.Is\<close> finds in it, whether it is a \<open>retryableError\<close>, and its text.
\<close>

section \<open>Types\<close>

definition ai_dash :: string where
  "ai_dash = [CHR 0xE2, CHR 0x80, CHR 0x94]"

definition CanonicalDisclaimer :: string where
  "CanonicalDisclaimer = ''AI-generated summary '' @ ai_dash @ '' verify against raw findings''"

definition FeatureRuleHawkExplainFinding :: string where
  "FeatureRuleHawkExplainFinding = ''rulehawk.explain_finding''"

definition FeatureAuditLightWhyDisappeared :: string where
  "FeatureAuditLightWhyDisappeared = ''auditlight.why_disappeared''"

definition FeatureExplainFinding :: string where
  "FeatureExplainFinding = ''hexward.explain_finding''"

text \<open>\<open>CoreFinding\<close>: a finding as it is forwarded. The nil map of evidence is \<open>None\<close>.\<close>

record AiFinding =
  af_Fingerprint :: string
  af_Module :: string
  af_Check :: string
  af_Title :: string
  af_Target :: string
  af_Severity :: string
  af_Status :: string
  af_Remediation :: string
  af_Evidence :: "(string \<times> any_val) list option"

text \<open>\<open>Finding\<close> is the JSON text of the feature's payload.\<close>

record EvidencePacket =
  ep_Feature :: string
  ep_Product :: string
  ep_Finding :: string
  ep_Language :: string

record Explanation =
  ex_ExplanationText :: string
  ex_WhatToVerify :: "string list"
  ex_Disclaimer :: string

record chatMessage =
  cm_Role :: string
  cm_Content :: string

text \<open>The temperature is kept as its JSON text; \<open>cr_ChatTemplateKwargs\<close> is empty when the field is left out.\<close>

record chatCompletionRequest =
  cr_Model :: string
  cr_Messages :: "chatMessage list"
  cr_Temperature :: string
  cr_Grammar :: string
  cr_MaxTokens :: int
  cr_ChatTemplateKwargs :: "(string \<times> bool) list"

text \<open>The message of the error object, if there is one.\<close>

record chatCompletionResponse =
  cp_Choices :: "chatMessage list"
  cp_Error :: "string option"

text \<open>The wire formats: \<open>None\<close> is an error of \<open>Marshal\<close> or \<open>Unmarshal\<close>. \<open>wf_quote\<close> is the verb \<open>%q\<close>.\<close>

record wire_format =
  wf_MarshalFinding :: "AiFinding \<Rightarrow> string option"
  wf_UnmarshalSeverity :: "string \<Rightarrow> string option"
  wf_MarshalPacket :: "EvidencePacket \<Rightarrow> string option"
  wf_MarshalRequest :: "chatCompletionRequest \<Rightarrow> string option"
  wf_UnmarshalResponse :: "string \<Rightarrow> chatCompletionResponse option"
  wf_UnmarshalExplanation :: "string \<Rightarrow> Explanation option"
  wf_quote :: "string \<Rightarrow> string"

section \<open>Errors\<close>

datatype sentinel = ErrUnavailable | ErrInvalidRequest | ErrInvalidResponse

fun sentinel_text :: "sentinel \<Rightarrow> string" where
  "sentinel_text ErrUnavailable = ''aiclient: hexward-ai sidecar unavailable''"
| "sentinel_text ErrInvalidRequest = ''aiclient: hexward-ai rejected the request''"
| "sentinel_text ErrInvalidResponse = ''aiclient: hexward-ai returned an unparsable response''"

record ai_error =
  ae_Is :: "sentinel option"
  ae_retryable :: bool
  ae_Text :: string

definition plain_error :: "string \<Rightarrow> ai_error" where
  "plain_error msg = \<lparr>ae_Is = None, ae_retryable = False, ae_Text = msg\<rparr>"

definition wrap_error :: "sentinel \<Rightarrow> string \<Rightarrow> ai_error" where
  "wrap_error s msg = \<lparr>ae_Is = Some s, ae_retryable = False, ae_Text = sentinel_text s @ msg\<rparr>"

definition retryableError :: "ai_error \<Rightarrow> ai_error" where
  "retryableError e = e\<lparr>ae_retryable := True\<rparr>"

definition IsUnavailable :: "ai_error \<Rightarrow> bool" where
  "IsUnavailable e \<longleftrightarrow> ae_Is e = Some ErrUnavailable"

definition isRetryable :: "ai_error \<Rightarrow> bool" where
  "isRetryable e \<longleftrightarrow> ae_retryable e"

section \<open>The packet\<close>

text \<open>\<open>strings.ReplaceAll\<close> of an underscore by a dash is \<open>ReplaceByte\<close>.\<close>

definition NormalizeLanguage :: "string \<Rightarrow> string" where
  "NormalizeLanguage lang =
     (let l = ReplaceByte (ToLower (TrimSpace lang)) (CHR ''_'') (CHR ''-'') in
      if l = ''id'' \<or> l = ''in'' \<or> l = ''ind'' \<or> HasPrefix l ''id-'' \<or> l = ''indonesian'' \<or> l = ''bahasa'' \<or>
        l = ''bahasa indonesia'' then ''id'' else ''en'')"

text \<open>The finding that goes into the packet.\<close>

definition bounded_finding :: "AiFinding \<Rightarrow> AiFinding" where
  "bounded_finding f =
     f\<lparr>af_Title := truncateRunes (af_Title f) maxEvidenceString, af_Target := truncateRunes (af_Target f) maxEvidenceString,
       af_Remediation := truncateRunes (af_Remediation f) (2 * maxEvidenceString),
       af_Evidence := SanitizeEvidence (case af_Evidence f of None \<Rightarrow> [] | Some kvs \<Rightarrow> kvs)\<rparr>"

definition NewFindingPacket :: "wire_format \<Rightarrow> string \<Rightarrow> string \<Rightarrow> AiFinding \<Rightarrow> string + EvidencePacket" where
  "NewFindingPacket wire product_id language f =
     (if TrimSpace product_id = '''' then Inl ''aiclient: product is required''
      else if TrimSpace (af_Check f) = '''' \<or> TrimSpace (af_Title f) = '''' \<or> TrimSpace (af_Severity f) = ''''
      then Inl ''aiclient: finding needs check, title and severity''
      else (case wf_MarshalFinding wire (bounded_finding f) of
          None \<Rightarrow> Inl ''aiclient: marshal finding''
        | Some raw \<Rightarrow>
            Inr \<lparr>ep_Feature = FeatureExplainFinding, ep_Product = product_id, ep_Finding = raw,
              ep_Language = NormalizeLanguage language\<rparr>))"

section \<open>The client\<close>

record HttpRequest =
  rq_URL :: string
  rq_Headers :: "(string \<times> string) list"
  rq_Body :: string

text \<open>What the transport answers: no response, a body that cannot be read, or a status and a body.\<close>

datatype HttpReply = NoResponse string | BodyError string | Response int string

text \<open>
  The outside world: the transport with its timeout for one attempt, the reason why a URL makes no request, and a wait,
  which reports the error of the context when that ends first.
\<close>

record 'w Outside =
  ow_Do :: "int \<Rightarrow> HttpRequest \<Rightarrow> 'w \<Rightarrow> HttpReply \<times> 'w"
  ow_BadURL :: "string \<Rightarrow> string option"
  ow_Wait :: "int \<Rightarrow> 'w \<Rightarrow> string option \<times> 'w"

text \<open>The state: the requests handed over so far, and the world.\<close>

record 'w Net =
  nt_sent :: "HttpRequest list"
  nt_world :: 'w

definition second :: int where
  "second = 1000000000"

definition DefaultBaseURL :: string where
  "DefaultBaseURL = ''http://127.0.0.1:8435''"

text \<open>The HTTP client is a parameter of its own (\<open>'w Outside\<close>), which is what \<open>WithHTTPClient\<close> replaces.\<close>

record Client =
  cl_baseURL :: string
  cl_model :: string
  cl_timeout :: int
  cl_maxRetries :: int
  cl_retryBackoff :: int
  cl_grammar :: string
  cl_maxTokens :: int
  cl_apiKey :: string
  cl_noThinking :: bool

datatype ClientOption =
    WithModel string
  | WithTimeout int
  | WithMaxRetries int
  | WithRetryBackoff int
  | WithGrammar string
  | WithMaxTokens int
  | WithAPIKey string
  | WithDisableThinking

fun apply_option :: "ClientOption \<Rightarrow> Client \<Rightarrow> Client" where
  "apply_option (WithModel model) c = (if model \<noteq> '''' then c\<lparr>cl_model := model\<rparr> else c)"
| "apply_option (WithTimeout d) c = (if d > 0 then c\<lparr>cl_timeout := d\<rparr> else c)"
| "apply_option (WithMaxRetries n) c = (if n \<ge> 0 then c\<lparr>cl_maxRetries := n\<rparr> else c)"
| "apply_option (WithRetryBackoff d) c = (if d > 0 then c\<lparr>cl_retryBackoff := d\<rparr> else c)"
| "apply_option (WithGrammar gbnf) c = c\<lparr>cl_grammar := gbnf\<rparr>"
| "apply_option (WithMaxTokens n) c = (if n > 0 then c\<lparr>cl_maxTokens := n\<rparr> else c)"
| "apply_option (WithAPIKey k) c = c\<lparr>cl_apiKey := TrimSpace k\<rparr>"
| "apply_option WithDisableThinking c = c\<lparr>cl_noThinking := True\<rparr>"

definition NewClient :: "string \<Rightarrow> ClientOption list \<Rightarrow> Client" where
  "NewClient baseURL opts =
     fold apply_option opts
       \<lparr>cl_baseURL = TrimRight (if baseURL = '''' then DefaultBaseURL else baseURL) ''/'', cl_model = ''hexward-ai'',
        cl_timeout = 20 * second, cl_maxRetries = 2, cl_retryBackoff = 400 * 1000000, cl_grammar = '''', cl_maxTokens = 512,
        cl_apiKey = '''', cl_noThinking = False\<rparr>"

section \<open>The prompt\<close>

definition systemPrompt :: string where
  "systemPrompt =
      ''You are the Hexward AI Assist narrator. You will receive one JSON evidence packet describing a '' @
      ''single security finding that a Hexward product's own deterministic engine already produced.'' @ [CHR 0x0A] @ [CHR 0x0A] @
      ''Rules you must follow exactly:'' @ [CHR 0x0A] @
      ''1. Use ONLY the fields inside the evidence packet. Do not state any fact (an ID, a rule '' @
      ''number, an IP address, a hostname, a CVE identifier, a date, or any other specific value) that '' @
      ''is not present in the packet. Do not calculate, convert, round or re-express numbers and dates '' @
      ''(no \"that is about 11 years\"); quote them exactly as the packet gives them. If something '' @
      ''relevant is not in the packet, say plainly that the evidence does not contain it.'' @ [CHR 0x0A] @
      ''2. You narrate; you do not decide. Never invent a new finding, never change or imply a '' @
      ''different severity, never claim something is fixed, safe, or dangerous beyond what the packet '' @
      ''already states.'' @ [CHR 0x0A] @
      ''3. If the feature is hexward.explain_finding: explain in plain language what the finding '' @
      ''means, using only its check, title, target, severity, status, remediation and evidence fields, '' @
      ''and why it matters to the owner of that target. Keep the explanation to at most four '' @
      ''sentences. In what_to_verify give two to four concrete checks a person can actually perform '' @
      ''before acting (for example: confirm who owns the target, confirm the change window, re-run the '' @
      ''check after the fix) '' @ ai_dash @
      '' do not simply restate evidence values as list items. You may restate the packet's own '' @
      ''remediation text; never invent a different fix, command, or configuration.'' @ [CHR 0x0A] @
      ''4. If the feature is rulehawk.explain_finding: explain in plain language why the rule '' @
      ''relationship in the packet matters, and list what a human should verify before touching the '' @
      ''rule. Never draft a replacement rule or CLI command.'' @ [CHR 0x0A] @
      ''5. If the feature is auditlight.why_disappeared: explain, using only the packet's \"status\" '' @
      ''field and its plain meaning (fixed / no_longer_detected / check_failed / target_skipped), '' @
      ''which of those happened and what that means for how much the report can be trusted. Never '' @
      ''claim \"fixed\" for any other status value.'' @ [CHR 0x0A] @
      ''6. Respond with a single JSON object matching the required schema exactly: {\"explanation\": '' @
      ''string, \"what_to_verify\": [string, ...], \"disclaimer\": string}. No prose outside the JSON '' @
      ''object.''"

definition languageInstruction :: "string \<Rightarrow> string" where
  "languageInstruction lang =
     (if lang = ''id'' then
        ''Write the \"explanation\" and every \"what_to_verify\" item in Bahasa Indonesia. Keep rule text, hostnames, '' @
        ''IP addresses, identifiers and other field values exactly as they appear in the packet '' @ ai_dash @
        '' do not translate them.''
      else ''Write the \"explanation\" and every \"what_to_verify\" item in English.'')"

definition findingSeverity :: "wire_format \<Rightarrow> EvidencePacket \<Rightarrow> string" where
  "findingSeverity wire evidence =
     (if ep_Feature evidence \<noteq> FeatureExplainFinding then ''''
      else (case wf_UnmarshalSeverity wire (ep_Finding evidence) of None \<Rightarrow> '''' | Some sev \<Rightarrow> TrimSpace sev))"

definition severityInstruction :: "wire_format \<Rightarrow> EvidencePacket \<Rightarrow> string" where
  "severityInstruction wire evidence =
     (let sev = findingSeverity wire evidence in
      if sev = '''' then ''''
      else ''The engine rated this finding '' @ wf_quote wire sev @
        ''. If you mention severity, use exactly that word; never call it higher or lower. '')"

definition chat_request :: "wire_format \<Rightarrow> Client \<Rightarrow> EvidencePacket \<Rightarrow> string \<Rightarrow> chatCompletionRequest" where
  "chat_request wire c evidence payload =
     (let instruction = languageInstruction (ep_Language evidence) in
      \<lparr>cr_Model = cl_model c,
       cr_Messages =
         [\<lparr>cm_Role = ''system'', cm_Content = systemPrompt @ [CHR 0x0A] @ ''7. '' @ instruction\<rparr>,
          \<lparr>cm_Role = ''user'',
           cm_Content = payload @ [CHR 0x0A, CHR 0x0A] @ severityInstruction wire evidence @ instruction\<rparr>],
       cr_Temperature = ''0.2'', cr_Grammar = cl_grammar c, cr_MaxTokens = cl_maxTokens c,
       cr_ChatTemplateKwargs = (if cl_noThinking c then [(''enable_thinking'', False)] else [])\<rparr>)"

section \<open>One attempt\<close>

definition truncate_body :: "string \<Rightarrow> nat \<Rightarrow> string" where
  "truncate_body s n = (if length s \<le> n then s else take n s @ ellipsis)"

definition http_request :: "Client \<Rightarrow> string \<Rightarrow> HttpRequest" where
  "http_request c body =
     \<lparr>rq_URL = cl_baseURL c @ ''/v1/chat/completions'',
      rq_Headers = (''Content-Type'', ''application/json'') #
        (if cl_apiKey c \<noteq> '''' then [(''Authorization'', ''Bearer '' @ cl_apiKey c)] else []),
      rq_Body = body\<rparr>"

text \<open>What is made of the body of a response below 400.\<close>

definition read_explanation :: "wire_format \<Rightarrow> string \<Rightarrow> ai_error + Explanation" where
  "read_explanation wire respBody =
     (case wf_UnmarshalResponse wire respBody of
        None \<Rightarrow> Inl (wrap_error ErrInvalidResponse ('': not valid JSON: '' @ truncate_body respBody 300))
      | Some parsed \<Rightarrow>
          (case cp_Error parsed of
             Some msg \<Rightarrow> Inl (retryableError (wrap_error ErrUnavailable ('': sidecar reported an error: '' @ msg)))
           | None \<Rightarrow>
               (case cp_Choices parsed of
                  [] \<Rightarrow> Inl (wrap_error ErrInvalidResponse '': response had no choices'')
                | choice # _ \<Rightarrow>
                    (case wf_UnmarshalExplanation wire (cm_Content choice) of
                       None \<Rightarrow> Inl (wrap_error ErrInvalidResponse
                         ('': model content was not the required JSON schema: '' @ truncate_body (cm_Content choice) 300))
                     | Some exp \<Rightarrow>
                         if TrimSpace (ex_ExplanationText exp) = ''''
                         then Inl (wrap_error ErrInvalidResponse '': empty explanation field'')
                         else Inr exp))))"

text \<open>The body is read through a limit of one mebibyte.\<close>

definition read_reply :: "wire_format \<Rightarrow> string \<Rightarrow> HttpReply \<Rightarrow> ai_error + Explanation" where
  "read_reply wire baseURL reply =
     (case reply of
        NoResponse err \<Rightarrow> Inl (retryableError (plain_error (''aiclient: request to '' @ baseURL @ '': '' @ err)))
      | BodyError err \<Rightarrow> Inl (retryableError (plain_error (''aiclient: read response body: '' @ err)))
      | Response status body \<Rightarrow>
          (let respBody = take (2 ^ 20) body; detail = '': HTTP '' @ Itoa status @ '': '' @ truncate_body respBody 300 in
           if status \<ge> 500 then Inl (retryableError (wrap_error ErrUnavailable detail))
           else if status \<ge> 400 then Inl (wrap_error ErrInvalidRequest detail)
           else read_explanation wire respBody))"

definition doRequest ::
  "wire_format \<Rightarrow> 'w Outside \<Rightarrow> Client \<Rightarrow> chatCompletionRequest \<Rightarrow> 'w Net \<Rightarrow> (ai_error + Explanation) \<times> 'w Net" where
  "doRequest wire ow c reqBody net =
     (case wf_MarshalRequest wire reqBody of
        None \<Rightarrow> (Inl (plain_error ''aiclient: marshal request''), net)
      | Some body \<Rightarrow>
          (let req = http_request c body in
           case ow_BadURL ow (rq_URL req) of
             Some err \<Rightarrow> (Inl (plain_error (''aiclient: build request: '' @ err)), net)
           | None \<Rightarrow>
               (let (reply, w) = ow_Do ow (cl_timeout c) req (nt_world net);
                    net = \<lparr>nt_sent = nt_sent net @ [req], nt_world = w\<rparr>
                in (read_reply wire (cl_baseURL c) reply, net))))"

section \<open>Explain\<close>

text \<open>What is done to an answer: the guard, and the fixed disclaimer.\<close>

definition finish_explanation :: "string \<Rightarrow> Explanation \<Rightarrow> Explanation" where
  "finish_explanation sev exp =
     (let exp = (if sev \<noteq> '''' then exp\<lparr>ex_ExplanationText := dropConflictingSeverity (ex_ExplanationText exp) sev\<rparr> else exp)
      in exp\<lparr>ex_Disclaimer := CanonicalDisclaimer\<rparr>)"

text \<open>The product of a 64-bit duration and the number of the attempt wraps.\<close>

definition retry_delay :: "Client \<Rightarrow> nat \<Rightarrow> int" where
  "retry_delay c attempt = sint (word_of_int (int attempt * cl_retryBackoff c) :: 64 word)"

text \<open>The loop over the attempts that are left, with the last error.\<close>

fun attempt_loop ::
  "wire_format \<Rightarrow> 'w Outside \<Rightarrow> Client \<Rightarrow> string \<Rightarrow> chatCompletionRequest \<Rightarrow> nat list \<Rightarrow> string \<Rightarrow> 'w Net \<Rightarrow>
    (ai_error + Explanation) \<times> 'w Net" where
  "attempt_loop wire ow c sev reqBody [] lastErr net =
     (Inl (wrap_error ErrUnavailable ('' (after '' @ Itoa (cl_maxRetries c + 1) @ '' attempt(s)): '' @ lastErr)), net)"
| "attempt_loop wire ow c sev reqBody (attempt # attempts) lastErr net =
     (case (if attempt > 0 then ow_Wait ow (retry_delay c attempt) (nt_world net) else (None, nt_world net)) of
        (Some err, w) \<Rightarrow> (Inl (plain_error err), net\<lparr>nt_world := w\<rparr>)
      | (None, w) \<Rightarrow>
          (case doRequest wire ow c reqBody (net\<lparr>nt_world := w\<rparr>) of
             (Inr exp, net) \<Rightarrow> (Inr (finish_explanation sev exp), net)
           | (Inl err, net) \<Rightarrow>
               if \<not> isRetryable err then (Inl err, net)
               else attempt_loop wire ow c sev reqBody attempts (ae_Text err) net))"

definition Explain ::
  "wire_format \<Rightarrow> 'w Outside \<Rightarrow> Client \<Rightarrow> EvidencePacket \<Rightarrow> 'w Net \<Rightarrow> (ai_error + Explanation) \<times> 'w Net" where
  "Explain wire ow c evidence net =
     (if ep_Feature evidence = '''' then (Inl (plain_error ''aiclient: EvidencePacket.Feature is required''), net)
      else if ep_Product evidence = '''' then (Inl (plain_error ''aiclient: EvidencePacket.Product is required''), net)
      else if length (ep_Finding evidence) = 0 then (Inl (plain_error ''aiclient: EvidencePacket.Finding is required''), net)
      else
        (let evidence = evidence\<lparr>ep_Language := NormalizeLanguage (ep_Language evidence)\<rparr> in
         case wf_MarshalPacket wire evidence of
           None \<Rightarrow> (Inl (plain_error ''aiclient: marshal evidence packet''), net)
         | Some payload \<Rightarrow>
             attempt_loop wire ow c (findingSeverity wire evidence) (chat_request wire c evidence payload)
               [0..<nat (cl_maxRetries c + 1)] '''' net))"

end
