(* ===== verification/WebAi.thy ===== *)
theory WebAi
  imports Web AiClient
begin

text \<open>
  Package \<open>web\<close>, file \<open>ai.go\<close>: the configuration of AI Assist, its gate by edition, and the two handlers. A
  handler returns the status code and the value of the body, with the state of the network; it does not
  return a store, as it writes none. The URL parser and the key file are parameters.
\<close>

section \<open>Configuration\<close>

record AIConfig =
  ac_URL :: string
  ac_KeyFile :: string
  ac_Language :: string
  ac_NoThinking :: bool

record AIAssist =
  aa_Client :: Client
  aa_Endpoint :: string
  aa_Keyed :: bool
  aa_Language :: string

text \<open>\<open>parse_url\<close> gives the scheme and the host. \<open>Inr None\<close> is AI Assist off.\<close>

definition NewAIAssist ::
  "(string \<Rightarrow> (string \<times> string) option) \<Rightarrow> (string \<Rightarrow> string + string) \<Rightarrow> (string \<Rightarrow> string) \<Rightarrow> AIConfig \<Rightarrow>
    string + AIAssist option" where
  "NewAIAssist parse_url read_file quoted cfg =
     (let raw = TrimSpace (ac_URL cfg) in
      if raw = '''' then Inr None
      else if (case parse_url raw of None \<Rightarrow> True
               | Some (scheme, host) \<Rightarrow> (scheme \<noteq> ''http'' \<and> scheme \<noteq> ''https'') \<or> host = '''')
      then Inl (''ai-assist-url must be an http(s) base URL such as http://127.0.0.1:8435, got '' @ quoted raw)
      else
        (let opts = [WithTimeout (120 * second), WithMaxRetries 0, WithMaxTokens 300];
             endpoint = TrimRight raw ''/'';
             lang = NormalizeLanguage (ac_Language cfg);
             thinking = (if ac_NoThinking cfg then [WithDisableThinking] else [])
         in if ac_KeyFile cfg \<noteq> '''' then
              (case read_file (ac_KeyFile cfg) of
                 Inl err \<Rightarrow> Inl (''read ai-assist-key-file: '' @ err)
               | Inr b \<Rightarrow>
                   (let key = TrimSpace b in
                    if key = '''' then Inl (''ai-assist-key-file '' @ ac_KeyFile cfg @ '' is empty'')
                    else Inr (Some \<lparr>aa_Client = NewClient endpoint (opts @ [WithAPIKey key] @ thinking), aa_Endpoint = endpoint,
                      aa_Keyed = True, aa_Language = lang\<rparr>)))
            else Inr (Some \<lparr>aa_Client = NewClient endpoint (opts @ thinking), aa_Endpoint = endpoint, aa_Keyed = False,
              aa_Language = lang\<rparr>)))"

section \<open>The gate\<close>

text \<open>The server with its \<open>AI\<close> field; the pointer to the client inside is never nil when the field is not.\<close>

record 'priv AIServer = "'priv Server" +
  sv_AI :: "AIAssist option"

definition aiAllowed :: "'priv AIServer \<Rightarrow> 'g World \<Rightarrow> bool \<times> string" where
  "aiAllowed sv w =
     (case sv_AI sv of
        None \<Rightarrow> (False, ''AI Assist is off. Start with -ai-assist-url to enable it.'')
      | Some ai \<Rightarrow>
          (let t = a_Tier (w_activation w) in
           if aa_Keyed ai \<and> t \<noteq> TierPro \<and> t \<noteq> TierTeam
           then (False, ''A dedicated AI host or your own endpoint (API key) needs a Pro or Team licence. The free edition works '' @
             ''with a hexward-ai sidecar on the same host.'')
           else (True, '''')))"

section \<open>Handlers\<close>

record explainResponse =
  er_Available :: bool
  er_Reason :: string
  er_Explanation :: string
  er_WhatToVerify :: "string list"
  er_Disclaimer :: string

datatype ai_body =
    AiError string
  | AiStatusBody bool string string bool
  | ExplainBody explainResponse

definition handleAIStatus :: "'priv AIServer \<Rightarrow> 'g World \<Rightarrow> nat \<times> ai_body" where
  "handleAIStatus sv w =
     (let (ok, reason) = aiAllowed sv w in
      (200, (case sv_AI sv of
          Some ai \<Rightarrow> AiStatusBody ok reason (aa_Language ai) (aa_Keyed ai)
        | None \<Rightarrow> AiStatusBody ok reason '''' False)))"

definition not_available :: "string \<Rightarrow> explainResponse" where
  "not_available reason =
     \<lparr>er_Available = False, er_Reason = reason, er_Explanation = '''', er_WhatToVerify = [], er_Disclaimer = ''''\<rparr>"

text \<open>The evidence of a record as values of type \<open>any\<close>; a slice of the store is one of \<open>any\<close>, as its JSON reads back.\<close>

fun any_of_json :: "json \<Rightarrow> any_val" where
  "any_of_json JNull = ANull"
| "any_of_json (JBool b) = ABool b"
| "any_of_json (JInt n) = ANumber n"
| "any_of_json (JString s) = AString s"
| "any_of_json (JArray js) = AList (map any_of_json js)"
| "any_of_json (JObject kvs) = AMap (map (\<lambda>kv. (fst kv, any_of_json (snd kv))) kvs)"
| "any_of_json JBad = AOther None"

definition forwarded :: "string \<Rightarrow> Record \<Rightarrow> AiFinding" where
  "forwarded m rec =
     \<lparr>af_Fingerprint = f_Fingerprint rec, af_Module = m, af_Check = f_Check rec, af_Title = f_Title rec,
      af_Target = f_Target rec, af_Severity = severity_str (f_Severity rec), af_Status = f_Status rec,
      af_Remediation = f_Remediation rec,
      af_Evidence = map_option (map (\<lambda>kv. (fst kv, any_of_json (snd kv)))) (f_Evidence rec)\<rparr>"

text \<open>The decoded request is the fingerprint, \<open>None\<close> when its JSON does not decode.\<close>

definition handleExplainFinding ::
  "wire_format \<Rightarrow> 'w Outside \<Rightarrow> 'priv AIServer \<Rightarrow> 'g World \<Rightarrow> string option \<Rightarrow> 'w Net \<Rightarrow> (nat \<times> ai_body) \<times> 'w Net" where
  "handleExplainFinding wire ow sv w decoded net =
     (case decoded of
        None \<Rightarrow> ((400, AiError ''fingerprint is required''), net)
      | Some fingerprint \<Rightarrow>
          if TrimSpace fingerprint = '''' then ((400, AiError ''fingerprint is required''), net)
          else (case so_Get (sv_Store sv) (sd_store (w_sched w)) (mi_ID (sv_Module sv)) fingerprint of
              Inl _ \<Rightarrow> ((500, AiError ''store error''), net)
            | Inr None \<Rightarrow> ((404, AiError ''no such finding''), net)
            | Inr (Some rec) \<Rightarrow>
                (case aiAllowed sv w of
                   (False, reason) \<Rightarrow> ((200, ExplainBody (not_available reason)), net)
                 | (True, _) \<Rightarrow>
                     (let ai = the (sv_AI sv) in
                      case NewFindingPacket wire (mi_ID (sv_Module sv)) (aa_Language ai) (forwarded (mi_ID (sv_Module sv)) rec) of
                        Inl err \<Rightarrow> ((200, ExplainBody (not_available ''This finding has no title or severity to explain.'')), net)
                      | Inr packet \<Rightarrow>
                          (case Explain wire ow (aa_Client ai) packet net of
                             (Inl err, net) \<Rightarrow>
                               ((200, ExplainBody (not_available
                                 ''The AI Assist sidecar did not answer. The finding is unaffected.'')), net)
                           | (Inr ex, net) \<Rightarrow>
                               ((200, ExplainBody \<lparr>er_Available = True, er_Reason = '''', er_Explanation = ex_ExplanationText ex,
                                 er_WhatToVerify = ex_WhatToVerify ex, er_Disclaimer = ex_Disclaimer ex\<rparr>), net))))))"

end
