(* ===== verification/AiClientSpec.thy ===== *)
theory AiClientSpec
  imports AiClient AiEvidenceSpec AiGuardSpec
begin

text \<open>
  What the client of the sidecar guarantees, whatever the sidecar answers: the requests it sends are one and
  the same, their number is bounded, and they stop at the first answer that is decisive; an explanation it returns
  has the fixed disclaimer and no severity but the engine's.
\<close>

section \<open>One attempt\<close>

text \<open>An attempt hands over at most the one request of its body.\<close>

lemma doRequest_sent:
  assumes "doRequest wire ow c reqBody net = (res, net')"
  shows "nt_sent net' = nt_sent net \<and> (\<exists>err. res = Inl err \<and> \<not> isRetryable err \<and> \<not> IsUnavailable err) \<or>
    (\<exists>body reply. wf_MarshalRequest wire reqBody = Some body \<and> nt_sent net' = nt_sent net @ [http_request c body] \<and>
      res = read_reply wire (cl_baseURL c) reply)"
  using assms
  by (auto simp: doRequest_def Let_def plain_error_def isRetryable_def IsUnavailable_def split: option.splits prod.splits)

lemma read_reply_nonblank: "read_reply wire url reply = Inr exp \<Longrightarrow> TrimSpace (ex_ExplanationText exp) \<noteq> ''''"
  by (auto simp: read_reply_def read_explanation_def Let_def split: HttpReply.splits option.splits list.splits if_splits)

lemma read_reply_unavailable: "read_reply wire url reply = Inl err \<Longrightarrow> IsUnavailable err \<Longrightarrow> isRetryable err"
  by (auto simp: read_reply_def read_explanation_def Let_def plain_error_def wrap_error_def retryableError_def
      isRetryable_def IsUnavailable_def split: HttpReply.splits option.splits list.splits if_splits)

section \<open>The loop\<close>

text \<open>
  The requests of the attempts that are left are \<open>n\<close> copies of one; every attempt is made when the sidecar is reported
  unavailable, at least one when there is an explanation.
\<close>

lemma attempt_loop_sent:
  assumes "attempt_loop wire ow c sev reqBody attempts lastErr net = (res, net')"
  shows "\<exists>n body. nt_sent net' = nt_sent net @ replicate n (http_request c body) \<and> n \<le> length attempts \<and>
    (0 < n \<longrightarrow> wf_MarshalRequest wire reqBody = Some body) \<and>
    (\<forall>err. res = Inl err \<longrightarrow> \<not> isRetryable err \<and> (IsUnavailable err \<longrightarrow> n = length attempts)) \<and>
    (\<forall>exp. res = Inr exp \<longrightarrow> 0 < n \<and>
      (\<exists>reply e. read_reply wire (cl_baseURL c) reply = Inr e \<and> exp = finish_explanation sev e))"
  using assms
proof (induction attempts arbitrary: lastErr net)
  case Nil
  then show ?case by (auto simp: isRetryable_def wrap_error_def)
next
  case (Cons a attempts)
  obtain stop w where wait: "(if a > 0 then ow_Wait ow (retry_delay c a) (nt_world net) else (None, nt_world net)) = (stop, w)"
    by (cases "if a > 0 then ow_Wait ow (retry_delay c a) (nt_world net) else (None, nt_world net)") blast
  show ?case
  proof (cases stop)
    case (Some err)
    then show ?thesis using Cons.prems wait
      by (auto simp: plain_error_def isRetryable_def IsUnavailable_def intro!: exI [of _ "0 :: nat"])
  next
    case None
    obtain r net1 where req: "doRequest wire ow c reqBody (net\<lparr>nt_world := w\<rparr>) = (r, net1)"
      by (cases "doRequest wire ow c reqBody (net\<lparr>nt_world := w\<rparr>)") blast
    from doRequest_sent [OF this] consider
        (unsent) err where "nt_sent net1 = nt_sent net" "r = Inl err" "\<not> isRetryable err" "\<not> IsUnavailable err"
      | (sent) body reply where "wf_MarshalRequest wire reqBody = Some body" "nt_sent net1 = nt_sent net @ [http_request c body]"
          "r = read_reply wire (cl_baseURL c) reply"
      by auto
    then show ?thesis
    proof cases
      case unsent
      then show ?thesis using Cons.prems wait None req by (auto intro!: exI [of _ "0 :: nat"])
    next
      case sent
      show ?thesis
      proof (cases r)
        case (Inr e)
        then have "res = Inr (finish_explanation sev e)" "net' = net1" using Cons.prems wait None req by auto
        moreover have "\<exists>reply e'. read_reply wire (cl_baseURL c) reply = Inr e' \<and>
            finish_explanation sev e = finish_explanation sev e'" using sent(3) Inr by (intro exI [of _ reply] exI [of _ e]) simp
        ultimately show ?thesis using sent(1,2) by (intro exI [of _ "1 :: nat"] exI [of _ body]) auto
      next
        case (Inl err)
        show ?thesis
        proof (cases "isRetryable err")
          case False
          then have "res = Inl err" "net' = net1" using Cons.prems wait None req Inl by auto
          moreover have "\<not> IsUnavailable err" using read_reply_unavailable sent(3) Inl False by metis
          ultimately show ?thesis using sent False by (auto intro!: exI [of _ "1 :: nat"] exI [of _ body])
        next
          case True
          then have "attempt_loop wire ow c sev reqBody attempts (ae_Text err) net1 = (res, net')"
            using Cons.prems wait None req Inl by simp
          from Cons.IH [OF this] obtain n b where n: "nt_sent net' = nt_sent net1 @ replicate n (http_request c b)"
            "n \<le> length attempts" "0 < n \<longrightarrow> wf_MarshalRequest wire reqBody = Some b"
            "\<forall>err. res = Inl err \<longrightarrow> \<not> isRetryable err \<and> (IsUnavailable err \<longrightarrow> n = length attempts)"
            "\<forall>exp. res = Inr exp \<longrightarrow> 0 < n \<and>
              (\<exists>reply e. read_reply wire (cl_baseURL c) reply = Inr e \<and> exp = finish_explanation sev e)"
            by blast
          have same: "replicate n (http_request c b) = replicate n (http_request c body)" using n(3) sent(1) by (cases n) auto
          then have "nt_sent net' = nt_sent net @ replicate (Suc n) (http_request c body)"
            by (simp add: n(1) same sent(2))
          then show ?thesis using n(2,4,5) sent(1) by (intro exI [of _ "Suc n"] exI [of _ body]) auto
        qed
      qed
    qed
  qed
qed

section \<open>Explain\<close>

lemma Explain_cases:
  assumes "Explain wire ow c evidence net = (res, net')"
  shows "(\<exists>err. res = Inl err \<and> \<not> IsUnavailable err \<and> \<not> isRetryable err) \<and> net' = net \<or>
    (\<exists>payload. wf_MarshalPacket wire (evidence\<lparr>ep_Language := NormalizeLanguage (ep_Language evidence)\<rparr>) = Some payload \<and>
      attempt_loop wire ow c (findingSeverity wire evidence)
      (chat_request wire c (evidence\<lparr>ep_Language := NormalizeLanguage (ep_Language evidence)\<rparr>) payload)
      [0..<nat (cl_maxRetries c + 1)] '''' net = (res, net'))"
  using assms
  by (auto simp: Explain_def Let_def plain_error_def IsUnavailable_def isRetryable_def findingSeverity_def
      split: if_splits option.splits)

text \<open>C11: Explain ends after at most one request more than the configured retries, all of them one and the same request; it has
  made all of them when it reports the sidecar unavailable, and at least one when it returns an explanation.\<close>

theorem explain_terminates:
  assumes "Explain wire ow c evidence net = (res, net')"
  shows "\<exists>n req. nt_sent net' = nt_sent net @ replicate n req \<and> n \<le> nat (cl_maxRetries c + 1) \<and>
    (\<forall>err. res = Inl err \<and> IsUnavailable err \<longrightarrow> n = nat (cl_maxRetries c + 1)) \<and> (\<forall>exp. res = Inr exp \<longrightarrow> 0 < n)"
proof -
  from Explain_cases [OF assms] consider
      (early) err where "res = Inl err" "\<not> IsUnavailable err" "net' = net"
    | (loop) payload where "attempt_loop wire ow c (findingSeverity wire evidence)
        (chat_request wire c (evidence\<lparr>ep_Language := NormalizeLanguage (ep_Language evidence)\<rparr>) payload)
        [0..<nat (cl_maxRetries c + 1)] '''' net = (res, net')"
    by auto
  then show ?thesis
  proof cases
    case early
    then show ?thesis by (intro exI [of _ "0 :: nat"]) auto
  next
    case loop
    then show ?thesis using attempt_loop_sent [OF loop] by fastforce
  qed
qed

text \<open>An explanation carries the fixed disclaimer, is not blank, and states no severity but the engine's, unless every
  sentence of it does or is blank.\<close>

lemma Explain_grounded:
  assumes "Explain wire ow c evidence net = (Inr exp, net')"
  shows "ex_Disclaimer exp = CanonicalDisclaimer \<and> TrimSpace (ex_ExplanationText exp) \<noteq> '''' \<and>
    (findingSeverity wire evidence = '''' \<or> \<not> conflicts (findingSeverity wire evidence) (ex_ExplanationText exp) \<or>
     list_all (\<lambda>s. conflicts (findingSeverity wire evidence) s \<or> TrimSpace s = '''') (sentenceSplit (ex_ExplanationText exp)))"
proof -
  define sev where "sev = findingSeverity wire evidence"
  obtain reply e where e: "read_reply wire (cl_baseURL c) reply = Inr e" "exp = finish_explanation sev e"
    using Explain_cases [OF assms] attempt_loop_sent unfolding sev_def by blast
  have trimmed: "TrimSpace sev = sev"
    by (simp add: sev_def findingSeverity_def split: option.split)
  show ?thesis
  proof (cases "sev = ''''")
    case True
    then show ?thesis using e read_reply_nonblank [OF e(1)] by (simp add: finish_explanation_def sev_def [symmetric])
  next
    case False
    then have "ex_ExplanationText exp = dropConflictingSeverity (ex_ExplanationText e) sev"
      "ex_Disclaimer exp = CanonicalDisclaimer"
      by (simp_all add: e(2) finish_explanation_def)
    then show ?thesis
      using dropConflictingSeverity_ok [of sev "ex_ExplanationText e"] dropConflictingSeverity_blank [of _ sev]
        read_reply_nonblank [OF e(1)] False trimmed
      unfolding sev_def [symmetric] by metis
  qed
qed

section \<open>A scripted sidecar\<close>

text \<open>The sidecar gives the replies of a list in order, and no wait is interrupted; the world is what is left of the list.\<close>

definition next_reply :: "HttpReply list \<Rightarrow> HttpReply" where
  "next_reply replies = (case replies of [] \<Rightarrow> NoResponse ''connection refused'' | r # _ \<Rightarrow> r)"

definition scripted :: "HttpReply list Outside" where
  "scripted = \<lparr>ow_Do = (\<lambda>timeout req replies. (next_reply replies, tl replies)), ow_BadURL = (\<lambda>url. None),
     ow_Wait = (\<lambda>d replies. (None, replies))\<rparr>"

text \<open>A reply after which there is no other attempt.\<close>

definition decisive :: "wire_format \<Rightarrow> string \<Rightarrow> HttpReply \<Rightarrow> bool" where
  "decisive wire url reply \<longleftrightarrow> (case read_reply wire url reply of Inl err \<Rightarrow> \<not> isRetryable err | Inr _ \<Rightarrow> True)"

text \<open>The decisive replies: an explanation, a refusal of the request, or an answer that is not what was asked for.\<close>

lemma decisive_iff:
  "decisive wire url reply \<longleftrightarrow> (\<exists>status body. reply = Response status body \<and> status < 500 \<and>
     (400 \<le> status \<or> (case wf_UnmarshalResponse wire (take (2 ^ 20) body) of None \<Rightarrow> True | Some p \<Rightarrow> cp_Error p = None)))"
  by (auto simp: decisive_def read_reply_def read_explanation_def Let_def plain_error_def wrap_error_def retryableError_def
      isRetryable_def split: HttpReply.splits option.splits list.splits)

lemma doRequest_scripted:
  assumes "wf_MarshalRequest wire reqBody = Some body"
  shows "doRequest wire scripted c reqBody net =
    (read_reply wire (cl_baseURL c) (next_reply (nt_world net)),
     \<lparr>nt_sent = nt_sent net @ [http_request c body], nt_world = tl (nt_world net)\<rparr>)"
  using assms by (simp add: doRequest_def scripted_def Let_def)

lemma attempt_loop_scripted:
  assumes "wf_MarshalRequest wire reqBody = Some body" and "length attempts \<le> length (nt_world net)"
  shows "case List.find (decisive wire (cl_baseURL c)) (take (length attempts) (nt_world net)) of
      None \<Rightarrow> \<exists>err net'. attempt_loop wire scripted c sev reqBody attempts lastErr net = (Inl err, net') \<and> IsUnavailable err
    | Some r \<Rightarrow> fst (attempt_loop wire scripted c sev reqBody attempts lastErr net) =
        (case read_reply wire (cl_baseURL c) r of Inl err \<Rightarrow> Inl err | Inr exp \<Rightarrow> Inr (finish_explanation sev exp))"
  using assms(2)
proof (induction attempts arbitrary: lastErr net)
  case Nil
  then show ?case by (simp add: IsUnavailable_def wrap_error_def)
next
  case (Cons a attempts)
  then obtain r rs where world: "nt_world net = r # rs" by (cases "nt_world net") auto
  define net1 where "net1 = \<lparr>nt_sent = nt_sent net @ [http_request c body], nt_world = rs\<rparr>"
  have nowait: "(if a > 0 then ow_Wait scripted (retry_delay c a) (nt_world net) else (None, nt_world net)) = (None, nt_world net)"
    by (simp add: scripted_def)
  have req: "doRequest wire scripted c reqBody net = (read_reply wire (cl_baseURL c) r, net1)"
    using doRequest_scripted [OF assms(1), of c net] by (simp add: world net1_def next_reply_def)
  have step: "attempt_loop wire scripted c sev reqBody (a # attempts) lastErr net =
      (case read_reply wire (cl_baseURL c) r of
         Inr exp \<Rightarrow> (Inr (finish_explanation sev exp), net1)
       | Inl err \<Rightarrow> if \<not> isRetryable err then (Inl err, net1)
           else attempt_loop wire scripted c sev reqBody attempts (ae_Text err) net1)"
    by (simp add: nowait req split: sum.split)
  show ?case
  proof (cases "read_reply wire (cl_baseURL c) r")
    case (Inr exp)
    then show ?thesis unfolding step by (simp add: world decisive_def)
  next
    case (Inl err)
    show ?thesis
    proof (cases "isRetryable err")
      case False
      with Inl show ?thesis unfolding step by (simp add: world decisive_def)
    next
      case True
      then have "\<not> decisive wire (cl_baseURL c) r" using Inl by (simp add: decisive_def)
      then have find: "List.find (decisive wire (cl_baseURL c)) (take (length (a # attempts)) (nt_world net)) =
          List.find (decisive wire (cl_baseURL c)) (take (length attempts) (nt_world net1))"
        by (simp add: world net1_def)
      have loop: "attempt_loop wire scripted c sev reqBody (a # attempts) lastErr net =
          attempt_loop wire scripted c sev reqBody attempts (ae_Text err) net1"
        unfolding step using Inl True by simp
      have "length attempts \<le> length (nt_world net1)" using Cons.prems by (simp add: world net1_def)
      then show ?thesis unfolding find loop by (rule Cons.IH)
    qed
  qed
qed

text \<open>C10: Explain answers by the first decisive reply among as many as it may ask for, and reports the sidecar unavailable when
  none of them is: no sooner, and no later.\<close>

theorem explain_first_decisive:
  assumes "ep_Feature evidence \<noteq> ''''" and "ep_Product evidence \<noteq> ''''" and "ep_Finding evidence \<noteq> ''''"
    and "\<And>p. wf_MarshalPacket wire p \<noteq> None" and "\<And>r. wf_MarshalRequest wire r \<noteq> None"
    and "0 \<le> cl_maxRetries c" and "nat (cl_maxRetries c + 1) \<le> length (nt_world net)"
  shows "case List.find (decisive wire (cl_baseURL c)) (take (nat (cl_maxRetries c + 1)) (nt_world net)) of
      None \<Rightarrow> \<exists>err net'. Explain wire scripted c evidence net = (Inl err, net') \<and> IsUnavailable err
    | Some r \<Rightarrow> fst (Explain wire scripted c evidence net) =
        (case read_reply wire (cl_baseURL c) r of Inl err \<Rightarrow> Inl err
         | Inr exp \<Rightarrow> Inr (finish_explanation (findingSeverity wire evidence) exp))"
proof -
  obtain payload where "wf_MarshalPacket wire (evidence\<lparr>ep_Language := NormalizeLanguage (ep_Language evidence)\<rparr>) = Some payload"
    using assms(4) by blast
  moreover define req where "req = chat_request wire c (evidence\<lparr>ep_Language := NormalizeLanguage (ep_Language evidence)\<rparr>) payload"
  ultimately have run: "Explain wire scripted c evidence net =
      attempt_loop wire scripted c (findingSeverity wire evidence) req [0..<nat (cl_maxRetries c + 1)] '''' net"
    using assms(1-3) by (simp add: Explain_def findingSeverity_def)
  obtain body where "wf_MarshalRequest wire req = Some body" using assms(5) by blast
  from attempt_loop_scripted [OF this, of "[0..<nat (cl_maxRetries c + 1)]" net c "findingSeverity wire evidence" "''''"] assms(7)
  show ?thesis unfolding run by simp
qed

end
