(* ===== verification/WebAiSpec.thy ===== *)
theory WebAiSpec
  imports WebAi AiClientSpec AiGuardMeaning WebSpec
begin

text \<open>
  What the explain handler guarantees: what leaves the process is one bounded, secret-free copy of a stored finding,
  and only when the edition allows the endpoint; an explanation that is shown never contradicts the severity
  of the record; and every failure is the same quiet answer.
\<close>

section \<open>The packet\<close>

text \<open>A finding whose free text and evidence are within the bounds, with no secret-like key.\<close>

definition bounded :: "AiFinding \<Rightarrow> bool" where
  "bounded f \<longleftrightarrow> length (af_Title f) \<le> 1603 \<and> length (af_Target f) \<le> 1603 \<and> length (af_Remediation f) \<le> 3203 \<and>
     (case af_Evidence f of None \<Rightarrow> True | Some kvs \<Rightarrow> safe 4 (AMap kvs))"

lemma bounded_bounded_finding: "bounded (bounded_finding f)"
proof -
  have "length (truncateRunes s maxEvidenceString) \<le> 1603" "length (truncateRunes s (2 * maxEvidenceString)) \<le> 3203" for s
    using truncateRunes_bytes [of s 400] truncateRunes_bytes [of s 800] by (simp_all add: maxEvidenceString_def)
  then show ?thesis
    using SanitizeEvidence_safe [of "case af_Evidence f of None \<Rightarrow> [] | Some kvs \<Rightarrow> kvs"]
    by (auto simp: bounded_def bounded_finding_def split: option.split)
qed

lemma bounded_severity: "af_Severity (bounded_finding f) = af_Severity f"
  by (simp add: bounded_finding_def)

lemma forwarded_severity: "af_Severity (forwarded m rec) = severity_str (f_Severity rec)"
  by (simp add: forwarded_def)

text \<open>The packet of a record.\<close>

definition record_packet :: "wire_format \<Rightarrow> 'priv AIServer \<Rightarrow> AIAssist \<Rightarrow> Record \<Rightarrow> string + EvidencePacket" where
  "record_packet wire sv ai rec =
     NewFindingPacket wire (mi_ID (sv_Module sv)) (aa_Language ai) (forwarded (mi_ID (sv_Module sv)) rec)"

lemma NewFindingPacket_Inr:
  assumes "NewFindingPacket wire p lang f = Inr packet"
  shows "wf_MarshalFinding wire (bounded_finding f) = Some (ep_Finding packet) \<and> bounded (bounded_finding f) \<and>
    ep_Feature packet = FeatureExplainFinding \<and> TrimSpace (af_Severity f) \<noteq> ''''"
  using assms bounded_bounded_finding [of f] by (auto simp: NewFindingPacket_def split: if_splits option.splits)

lemma NormalizeLanguage_idem [simp]: "NormalizeLanguage (NormalizeLanguage l) = NormalizeLanguage l"
proof -
  have "NormalizeLanguage l = ''id'' \<or> NormalizeLanguage l = ''en''" by (simp add: NormalizeLanguage_def Let_def)
  moreover have "NormalizeLanguage ''id'' = ''id''" "NormalizeLanguage ''en'' = ''en''" by code_simp+
  ultimately show ?thesis by metis
qed

section \<open>The handler\<close>

definition gate_open :: "'priv AIServer \<Rightarrow> 'g World \<Rightarrow> AIAssist \<Rightarrow> bool" where
  "gate_open sv w ai \<longleftrightarrow> sv_AI sv = Some ai \<and>
     (aa_Keyed ai \<longrightarrow> a_Tier (w_activation w) = TierPro \<or> a_Tier (w_activation w) = TierTeam)"

lemma aiAllowed_gate: "fst (aiAllowed sv w) \<longleftrightarrow> (\<exists>ai. gate_open sv w ai)"
  by (auto simp: aiAllowed_def gate_open_def Let_def split: option.split)

text \<open>Either nothing is sent and nothing is shown, or the packet of the record is explained.\<close>

lemma handleExplain_cases:
  assumes "handleExplainFinding wire ow sv w decoded net = (resp, net')"
  shows "net' = net \<and> (\<forall>er. snd resp = ExplainBody er \<longrightarrow> \<not> er_Available er) \<or>
    (\<exists>fp rec ai packet res. decoded = Some fp \<and> so_Get (sv_Store sv) (sd_store (w_sched w)) (mi_ID (sv_Module sv)) fp = Inr (Some rec) \<and>
      gate_open sv w ai \<and> record_packet wire sv ai rec = Inr packet \<and> Explain wire ow (aa_Client ai) packet net = (res, net') \<and>
      (\<forall>er. snd resp = ExplainBody er \<and> er_Available er \<longrightarrow> (\<exists>ex. res = Inr ex \<and>
        er_Explanation er = ex_ExplanationText ex \<and> er_Disclaimer er = ex_Disclaimer ex)))"
proof (cases decoded)
  case None
  then show ?thesis using assms by (auto simp: handleExplainFinding_def)
next
  case (Some fp)
  note decoded = this
  show ?thesis
  proof (cases "TrimSpace fp = '''' \<or> (\<forall>rec. so_Get (sv_Store sv) (sd_store (w_sched w)) (mi_ID (sv_Module sv)) fp \<noteq> Inr (Some rec)) \<or>
      \<not> fst (aiAllowed sv w)")
    case True
    then show ?thesis using assms decoded
      by (cases "aiAllowed sv w") (auto simp: handleExplainFinding_def not_available_def split: if_splits option.splits sum.splits)
  next
    case False
    then obtain rec where rec: "so_Get (sv_Store sv) (sd_store (w_sched w)) (mi_ID (sv_Module sv)) fp = Inr (Some rec)" by auto
    from False obtain ai where ai: "gate_open sv w ai" using aiAllowed_gate by blast
    then have allowed: "aiAllowed sv w = (True, '''')" "sv_AI sv = Some ai"
      by (auto simp: aiAllowed_def gate_open_def Let_def)
    show ?thesis
    proof (cases "record_packet wire sv ai rec")
      case (Inl err)
      then show ?thesis using assms decoded False rec allowed
        by (auto simp: handleExplainFinding_def record_packet_def not_available_def)
    next
      case (Inr packet)
      obtain res net1 where run: "Explain wire ow (aa_Client ai) packet net = (res, net1)"
        by (cases "Explain wire ow (aa_Client ai) packet net") blast
      then have "net' = net1" "\<forall>er. snd resp = ExplainBody er \<and> er_Available er \<longrightarrow> (\<exists>ex. res = Inr ex \<and>
          er_Explanation er = ex_ExplanationText ex \<and> er_Disclaimer er = ex_Disclaimer ex)"
        using assms decoded False rec allowed Inr
        by (auto simp: handleExplainFinding_def record_packet_def not_available_def split: sum.splits)
      then show ?thesis using decoded rec ai Inr run by blast
    qed
  qed
qed

text \<open>The line on the severity in the user message, from the finding as it is sent.\<close>

definition rated :: "wire_format \<Rightarrow> string \<Rightarrow> string" where
  "rated wire raw =
     (case wf_UnmarshalSeverity wire raw of
        None \<Rightarrow> ''''
      | Some sev \<Rightarrow>
          if TrimSpace sev = '''' then ''''
          else ''The engine rated this finding '' @ wf_quote wire (TrimSpace sev) @
            ''. If you mention severity, use exactly that word; never call it higher or lower. '')"

lemma severityInstruction_rated:
  "ep_Feature p = FeatureExplainFinding \<Longrightarrow> severityInstruction wire p = rated wire (ep_Finding p)"
  by (auto simp: severityInstruction_def rated_def findingSeverity_def Let_def split: option.split)

lemma http_request_fields:
  "rq_Body (http_request c body) = body" "rq_URL (http_request c body) = cl_baseURL c @ ''/v1/chat/completions''"
  "set (rq_Headers (http_request c body)) \<subseteq>
     {(''Content-Type'', ''application/json''), (''Authorization'', ''Bearer '' @ cl_apiKey c)}"
  by (auto simp: http_request_def)

text \<open>C8: What an explain request hands to the network is nothing, or copies of one request, and only when the license allows
  it. Its body is a chat of two messages: the fixed system prompt, and the packet of the stored finding, bounded and
  free of secret-like keys, followed by the lines on severity and language and by nothing else.\<close>

theorem explain_discloses_bounded:
  assumes "handleExplainFinding wire ow sv w decoded net = (resp, net')" and "nt_sent net' \<noteq> nt_sent net"
  shows "\<exists>fp rec ai c lang f raw payload body req n. decoded = Some fp \<and>
    so_Get (sv_Store sv) (sd_store (w_sched w)) (mi_ID (sv_Module sv)) fp = Inr (Some rec) \<and> gate_open sv w ai \<and>
    c = aa_Client ai \<and> lang = NormalizeLanguage (aa_Language ai) \<and>
    f = bounded_finding (forwarded (mi_ID (sv_Module sv)) rec) \<and> bounded f \<and> wf_MarshalFinding wire f = Some raw \<and>
    wf_MarshalPacket wire \<lparr>ep_Feature = ''hexward.explain_finding'', ep_Product = mi_ID (sv_Module sv), ep_Finding = raw,
      ep_Language = lang\<rparr> = Some payload \<and>
    wf_MarshalRequest wire
      \<lparr>cr_Model = cl_model c,
       cr_Messages =
         [\<lparr>cm_Role = ''system'', cm_Content = systemPrompt @ [CHR 0x0A] @ ''7. '' @ languageInstruction lang\<rparr>,
          \<lparr>cm_Role = ''user'', cm_Content = payload @ [CHR 0x0A, CHR 0x0A] @ rated wire raw @ languageInstruction lang\<rparr>],
       cr_Temperature = ''0.2'', cr_Grammar = cl_grammar c, cr_MaxTokens = cl_maxTokens c,
       cr_ChatTemplateKwargs = (if cl_noThinking c then [(''enable_thinking'', False)] else [])\<rparr> = Some body \<and>
    rq_Body req = body \<and> rq_URL req = cl_baseURL c @ ''/v1/chat/completions'' \<and>
    set (rq_Headers req) \<subseteq> {(''Content-Type'', ''application/json''), (''Authorization'', ''Bearer '' @ cl_apiKey c)} \<and>
    nt_sent net' = nt_sent net @ replicate n req"
proof -
  from handleExplain_cases [OF assms(1)] assms(2) obtain fp rec ai packet res where h: "decoded = Some fp"
    "so_Get (sv_Store sv) (sd_store (w_sched w)) (mi_ID (sv_Module sv)) fp = Inr (Some rec)" "gate_open sv w ai"
    "record_packet wire sv ai rec = Inr packet" "Explain wire ow (aa_Client ai) packet net = (res, net')"
    by auto
  define f where "f = bounded_finding (forwarded (mi_ID (sv_Module sv)) rec)"
  define lang where "lang = NormalizeLanguage (aa_Language ai)"
  define raw where "raw = ep_Finding packet"
  have f: "wf_MarshalFinding wire f = Some raw" "bounded f"
    using NewFindingPacket_Inr [OF h(4) [unfolded record_packet_def]] by (simp_all add: f_def raw_def)
  have packet: "packet = \<lparr>ep_Feature = ''hexward.explain_finding'', ep_Product = mi_ID (sv_Module sv), ep_Finding = raw, ep_Language = lang\<rparr>"
    using h(4)
    by (auto simp: record_packet_def NewFindingPacket_def lang_def raw_def FeatureExplainFinding_def split: if_splits option.splits)
  have "ep_Language packet = lang" by (subst packet) simp
  then have same: "packet\<lparr>ep_Language := NormalizeLanguage (ep_Language packet)\<rparr> = packet" by (simp add: lang_def)
  from Explain_cases [OF h(5)] assms(2) obtain payload where p: "wf_MarshalPacket wire packet = Some payload"
    and loop: "attempt_loop wire ow (aa_Client ai) (findingSeverity wire packet) (chat_request wire (aa_Client ai) packet payload)
      [0..<nat (cl_maxRetries (aa_Client ai) + 1)] '''' net = (res, net')"
    by (auto simp: same)
  from attempt_loop_sent [OF loop] obtain n body where
    n: "nt_sent net' = nt_sent net @ replicate n (http_request (aa_Client ai) body)"
    "0 < n \<longrightarrow> wf_MarshalRequest wire (chat_request wire (aa_Client ai) packet payload) = Some body"
    by blast
  with assms(2) have "wf_MarshalRequest wire (chat_request wire (aa_Client ai) packet payload) = Some body" by (cases n) auto
  then have body: "wf_MarshalRequest wire
      \<lparr>cr_Model = cl_model (aa_Client ai),
       cr_Messages =
         [\<lparr>cm_Role = ''system'', cm_Content = systemPrompt @ [CHR 0x0A] @ ''7. '' @ languageInstruction lang\<rparr>,
          \<lparr>cm_Role = ''user'', cm_Content = payload @ [CHR 0x0A, CHR 0x0A] @ rated wire raw @ languageInstruction lang\<rparr>],
       cr_Temperature = ''0.2'', cr_Grammar = cl_grammar (aa_Client ai), cr_MaxTokens = cl_maxTokens (aa_Client ai),
       cr_ChatTemplateKwargs = (if cl_noThinking (aa_Client ai) then [(''enable_thinking'', False)] else [])\<rparr> = Some body"
    by (simp add: packet chat_request_def severityInstruction_rated FeatureExplainFinding_def Let_def)
  show ?thesis
    by (rule exI [of _ fp], rule exI [of _ rec], rule exI [of _ ai], rule exI [of _ "aa_Client ai"], rule exI [of _ lang],
        rule exI [of _ f], rule exI [of _ raw], rule exI [of _ payload], rule exI [of _ body],
        rule exI [of _ "http_request (aa_Client ai) body"], rule exI [of _ n], intro conjI)
      (rule h(1-3) refl lang_def f_def f n(1) p [unfolded packet] body http_request_fields)+
qed

text \<open>The law of the wire format: a forwarded finding reads back with its severity.\<close>

definition keeps_severity :: "wire_format \<Rightarrow> bool" where
  "keeps_severity wire \<longleftrightarrow>
     (\<forall>f raw. wf_MarshalFinding wire f = Some raw \<longrightarrow> wf_UnmarshalSeverity wire raw = Some (af_Severity f))"

text \<open>C9: An explanation that is shown is not blank, carries the fixed disclaimer, and makes no English statement of a severity
  level but that of the stored record, unless every sentence of it does or is blank.\<close>

theorem shown_explanation_is_grounded:
  assumes "handleExplainFinding wire ow sv w decoded net = ((code, ExplainBody er), net')" and "er_Available er"
    and "keeps_severity wire"
  shows "\<exists>fp rec. decoded = Some fp \<and> so_Get (sv_Store sv) (sd_store (w_sched w)) (mi_ID (sv_Module sv)) fp = Inr (Some rec) \<and>
    er_Disclaimer er = CanonicalDisclaimer \<and> TrimSpace (er_Explanation er) \<noteq> '''' \<and>
    (\<not> states_other_level (severity_str (f_Severity rec)) (er_Explanation er) \<or>
     (\<exists>ss. sentences_of (er_Explanation er) ss \<and>
       (\<forall>s \<in> set ss. states_other_level (severity_str (f_Severity rec)) s \<or> TrimSpace s = '''')))"
proof -
  from handleExplain_cases [OF assms(1)] assms(2) obtain fp rec ai packet ex where h: "decoded = Some fp"
    "so_Get (sv_Store sv) (sd_store (w_sched w)) (mi_ID (sv_Module sv)) fp = Inr (Some rec)" "record_packet wire sv ai rec = Inr packet"
    "Explain wire ow (aa_Client ai) packet net = (Inr ex, net')" "er_Explanation er = ex_ExplanationText ex"
    "er_Disclaimer er = ex_Disclaimer ex"
    by auto
  note packet = NewFindingPacket_Inr [OF h(3) [unfolded record_packet_def]]
  define sev where "sev = severity_str (f_Severity rec)"
  have "wf_UnmarshalSeverity wire (ep_Finding packet) = Some sev"
    using packet assms(3) bounded_severity [of "forwarded (mi_ID (sv_Module sv)) rec"]
    unfolding keeps_severity_def by (metis forwarded_severity sev_def)
  then have "findingSeverity wire packet = TrimSpace sev" "TrimSpace sev \<noteq> ''''"
    using packet by (simp_all add: findingSeverity_def forwarded_severity sev_def)
  moreover have "conflicts (TrimSpace sev) = conflicts sev" by (simp add: conflicts_def)
  ultimately have ok: "er_Disclaimer er = CanonicalDisclaimer" "TrimSpace (er_Explanation er) \<noteq> ''''"
    "\<not> conflicts sev (er_Explanation er) \<or>
      list_all (\<lambda>s. conflicts sev s \<or> TrimSpace s = '''') (sentenceSplit (er_Explanation er))"
    using Explain_grounded [OF h(4)] h(5,6) by simp_all
  from ok(3) have "\<not> states_other_level sev (er_Explanation er) \<or> (\<exists>ss. sentences_of (er_Explanation er) ss \<and>
      (\<forall>s \<in> set ss. states_other_level sev s \<or> TrimSpace s = ''''))"
    unfolding conflicts_states_other_level list_all_iff using sentenceSplit_sentences_of by blast
  with ok(1,2) h(1,2) show ?thesis unfolding sev_def by blast
qed

section \<open>The gate\<close>

lemma NewClient_simps:
  "cl_maxRetries (NewClient url [WithTimeout t, WithMaxRetries 0, WithMaxTokens n]) = 0"
  "cl_apiKey (NewClient url [WithTimeout t, WithMaxRetries 0, WithMaxTokens n]) = ''''"
  "cl_maxRetries (NewClient url [WithTimeout t, WithMaxRetries 0, WithMaxTokens n, WithDisableThinking]) = 0"
  "cl_apiKey (NewClient url [WithTimeout t, WithMaxRetries 0, WithMaxTokens n, WithDisableThinking]) = ''''"
  "cl_maxRetries (NewClient url [WithTimeout t, WithMaxRetries 0, WithMaxTokens n, WithAPIKey k]) = 0"
  "cl_maxRetries (NewClient url [WithTimeout t, WithMaxRetries 0, WithMaxTokens n, WithAPIKey k, WithDisableThinking]) = 0"
  by (simp_all add: NewClient_def)

lemma NewAIAssist_client:
  assumes "NewAIAssist parse_url read_file quoted cfg = Inr (Some ai)"
  shows "cl_maxRetries (aa_Client ai) = 0 \<and> (cl_apiKey (aa_Client ai) \<noteq> '''' \<longrightarrow> aa_Keyed ai)"
  using assms by (auto simp: NewAIAssist_def Let_def NewClient_simps split: if_splits sum.splits option.splits)

text \<open>C14: With the configuration that the program makes of its flags, an explain request sends at most one request, and one
  with an API key only under a Pro or Team license.\<close>

theorem keyed_request_needs_license:
  assumes "NewAIAssist parse_url read_file quoted cfg = Inr (sv_AI sv)"
    and "handleExplainFinding wire ow sv w decoded net = (resp, net')"
  shows "nt_sent net' = nt_sent net \<or> (\<exists>req. nt_sent net' = nt_sent net @ [req] \<and>
    (''Authorization'' \<notin> fst ` set (rq_Headers req) \<or>
     a_Tier (w_activation w) = TierPro \<or> a_Tier (w_activation w) = TierTeam))"
proof (cases "nt_sent net' = nt_sent net")
  case False
  with handleExplain_cases [OF assms(2)] obtain ai packet res where h: "gate_open sv w ai"
    "Explain wire ow (aa_Client ai) packet net = (res, net')" by auto
  then have ai: "cl_maxRetries (aa_Client ai) = 0" "cl_apiKey (aa_Client ai) \<noteq> '''' \<longrightarrow> aa_Keyed ai"
    using NewAIAssist_client [of parse_url read_file quoted cfg ai] assms(1) by (auto simp: gate_open_def)
  from Explain_cases [OF h(2)] False obtain req where
    "attempt_loop wire ow (aa_Client ai) (findingSeverity wire packet) req [0..<nat (cl_maxRetries (aa_Client ai) + 1)] '''' net =
      (res, net')"
    by auto
  from attempt_loop_sent [OF this] obtain n body where
    "nt_sent net' = nt_sent net @ replicate n (http_request (aa_Client ai) body)" "n \<le> 1"
    by (auto simp: ai)
  with False have "nt_sent net' = nt_sent net @ [http_request (aa_Client ai) body]" by (cases n) auto
  moreover have "''Authorization'' \<notin> fst ` set (rq_Headers (http_request (aa_Client ai) body)) \<or> aa_Keyed ai"
    using ai(2) by (auto simp: http_request_def)
  ultimately show ?thesis using h(1) by (auto simp: gate_open_def)
qed simp

text \<open>C15: An explain request is refused without a fingerprint, when the store fails, and for a finding that is not stored, each
  with its code; whatever else goes wrong, the answer is 200 with the reason why there is no explanation.\<close>

theorem explain_fails_quietly:
  "let (code, body) = fst (handleExplainFinding wire ow sv w decoded net)
   in (if decoded = None \<or> TrimSpace (the decoded) = '''' then code = 400 \<and> body = AiError ''fingerprint is required''
       else (case so_Get (sv_Store sv) (sd_store (w_sched w)) (mi_ID (sv_Module sv)) (the decoded) of
           Inl err \<Rightarrow> code = 500 \<and> body = AiError ''store error''
         | Inr None \<Rightarrow> code = 404 \<and> body = AiError ''no such finding''
         | Inr (Some rec) \<Rightarrow> code = 200 \<and> (\<exists>er. body = ExplainBody er \<and> er_Available er = (er_Reason er = ''''))))"
proof -
  have reason: "snd (aiAllowed sv w) \<noteq> ''''" if "\<not> fst (aiAllowed sv w)"
    using that by (auto simp: aiAllowed_def Let_def split: option.splits if_splits)
  show ?thesis
    using reason
    by (cases "aiAllowed sv w")
      (auto simp: handleExplainFinding_def not_available_def Let_def split: option.split sum.split prod.split bool.split)
qed

section \<open>An example\<close>

text \<open>A wire format in which a finding is its severity and an answer is its text.\<close>

definition ex_wire :: wire_format where
  "ex_wire = \<lparr>wf_MarshalFinding = (\<lambda>f. Some (af_Severity f)), wf_UnmarshalSeverity = Some,
     wf_MarshalPacket = (\<lambda>p. Some (ep_Finding p)), wf_MarshalRequest = (\<lambda>r. Some ''{}''),
     wf_UnmarshalResponse = (\<lambda>s. Some \<lparr>cp_Choices = [\<lparr>cm_Role = ''assistant'', cm_Content = s\<rparr>], cp_Error = None\<rparr>),
     wf_UnmarshalExplanation = (\<lambda>s. Some \<lparr>ex_ExplanationText = s, ex_WhatToVerify = [], ex_Disclaimer = ''''\<rparr>),
     wf_quote = (\<lambda>s. s)\<rparr>"

definition ex_cfg :: AIConfig where
  "ex_cfg = \<lparr>ac_URL = ''http://127.0.0.1:8435/'', ac_KeyFile = '''', ac_Language = '''', ac_NoThinking = False\<rparr>"

definition ex_parse_url :: "string \<Rightarrow> (string \<times> string) option" where
  "ex_parse_url url = Some (''http'', ''127.0.0.1:8435'')"

definition ex_client :: Client where
  "ex_client = NewClient ''http://127.0.0.1:8435'' [WithTimeout (120 * second), WithMaxRetries 0, WithMaxTokens 300]"

definition ex_ai :: AIAssist where
  "ex_ai = \<lparr>aa_Client = ex_client, aa_Endpoint = ''http://127.0.0.1:8435'', aa_Keyed = False, aa_Language = ''en''\<rparr>"

lemma ex_config: "NewAIAssist ex_parse_url (\<lambda>_. Inl '''') (\<lambda>s. s) ex_cfg = Inr (Some ex_ai)"
proof -
  have "TrimSpace ''http://127.0.0.1:8435/'' = ''http://127.0.0.1:8435/''" "NormalizeLanguage '''' = ''en''"
    "TrimRight ''http://127.0.0.1:8435/'' ''/'' = ''http://127.0.0.1:8435''"
    by code_simp+
  then show ?thesis by (simp add: NewAIAssist_def ex_cfg_def ex_parse_url_def ex_ai_def ex_client_def Let_def)
qed

definition ex_ai_server :: "unit AIServer" where
  "ex_ai_server = Server.extend ex_server \<lparr>sv_AI = Some ex_ai\<rparr>"

definition ex_net :: "HttpReply list Net" where
  "ex_net = \<lparr>nt_sent = [], nt_world = [Response 200 ''Open. Low-Risk! Fix it.'']\<rparr>"

lemma ex_ai_server_fields: "sv_Module ex_ai_server = sv_Module ex_server" "sv_AI ex_ai_server = Some ex_ai"
  "sv_Store ex_ai_server = sv_Store ex_server"
  by (simp_all add: ex_ai_server_def Server.defs)

lemma ex_ai_Get: "so_Get (sv_Store ex_ai_server) (sd_store (w_sched ex_world)) (mi_ID (sv_Module ex_ai_server)) ''f1'' = Inr (Some ex_record)"
  using ex_dash_Get by (simp add: ex_ai_server_fields ex_server_fields(6))

lemma ex_product: "mi_ID (sv_Module ex_ai_server) = ''rulehawk''"
  by (simp add: ex_ai_server_fields ex_server_fields Describe_def ModuleID_def)

definition ex_packet :: EvidencePacket where
  "ex_packet = \<lparr>ep_Feature = FeatureExplainFinding, ep_Product = ''rulehawk'', ep_Finding = ''high'', ep_Language = ''en''\<rparr>"

lemma ex_record_packet: "record_packet ex_wire ex_ai_server ex_ai ex_record = Inr ex_packet"
proof -
  have "af_Check (forwarded m ex_record) = ''any-any''" "af_Title (forwarded m ex_record) = ''wide rule''"
    "af_Severity (forwarded m ex_record) = ''high''" for m
    by (simp_all add: forwarded_def ex_record_def ex_finding_def new_record_def Finding.defs Record.defs)
  moreover have "TrimSpace ''rulehawk'' = ''rulehawk''" "TrimSpace ''any-any'' = ''any-any''" "TrimSpace ''wide rule'' = ''wide rule''"
    "TrimSpace ''high'' = ''high''" "NormalizeLanguage ''en'' = ''en''"
    by code_simp+
  ultimately show ?thesis
    by (simp add: record_packet_def NewFindingPacket_def ex_product ex_packet_def ex_wire_def bounded_severity ex_ai_def)
qed

definition ex_explanation :: Explanation where
  "ex_explanation = \<lparr>ex_ExplanationText = ''Open. Fix it.'', ex_WhatToVerify = [], ex_Disclaimer = CanonicalDisclaimer\<rparr>"

lemma ex_read: "read_reply ex_wire url (Response 200 ''Open. Low-Risk! Fix it.'') =
    Inr \<lparr>ex_ExplanationText = ''Open. Low-Risk! Fix it.'', ex_WhatToVerify = [], ex_Disclaimer = ''''\<rparr>"
proof -
  have "TrimSpace ''Open. Low-Risk! Fix it.'' = ''Open. Low-Risk! Fix it.''" by code_simp
  then show ?thesis by (simp add: read_reply_def read_explanation_def ex_wire_def)
qed

lemma ex_severity: "findingSeverity ex_wire ex_packet = ''high''"
proof -
  have "TrimSpace ''high'' = ''high''" by code_simp
  then show ?thesis by (simp add: findingSeverity_def ex_packet_def ex_wire_def)
qed

lemma ex_finish: "finish_explanation ''high''
    \<lparr>ex_ExplanationText = ''Open. Low-Risk! Fix it.'', ex_WhatToVerify = [], ex_Disclaimer = ''''\<rparr> = ex_explanation"
  by (simp add: finish_explanation_def ex_explanation_def dropConflictingSeverity_example)

lemma ex_retries: "cl_maxRetries ex_client = 0"
  by (simp add: ex_client_def NewClient_simps)

lemma ex_Explain: "Explain ex_wire scripted ex_client ex_packet ex_net =
    (Inr ex_explanation, \<lparr>nt_sent = [http_request ex_client ''{}''], nt_world = []\<rparr>)"
proof -
  have "NormalizeLanguage ''en'' = ''en''" by code_simp
  then have lang: "ex_packet\<lparr>ep_Language := NormalizeLanguage (ep_Language ex_packet)\<rparr> = ex_packet" by (simp add: ex_packet_def)
  have fields: "ep_Feature ex_packet \<noteq> ''''" "ep_Product ex_packet \<noteq> ''''" "ep_Finding ex_packet = ''high''"
    by (simp_all add: ex_packet_def FeatureExplainFinding_def)
  have marshal: "wf_MarshalPacket ex_wire p = Some (ep_Finding p)" "wf_MarshalRequest ex_wire r = Some ''{}''" for p r
    by (simp_all add: ex_wire_def)
  have "doRequest ex_wire scripted ex_client r ex_net =
      (Inr \<lparr>ex_ExplanationText = ''Open. Low-Risk! Fix it.'', ex_WhatToVerify = [], ex_Disclaimer = ''''\<rparr>,
       \<lparr>nt_sent = [http_request ex_client ''{}''], nt_world = []\<rparr>)" for r
    using doRequest_scripted [OF marshal(2), of ex_client r ex_net] by (simp add: ex_net_def next_reply_def ex_read)
  then show ?thesis
    by (simp add: Explain_def Let_def lang fields marshal ex_severity ex_retries ex_finish)
qed

lemma ex_handle: "handleExplainFinding ex_wire scripted ex_ai_server ex_world (Some ''f1'') ex_net =
    ((200, ExplainBody \<lparr>er_Available = True, er_Reason = '''', er_Explanation = ''Open. Fix it.'', er_WhatToVerify = [],
      er_Disclaimer = CanonicalDisclaimer\<rparr>), \<lparr>nt_sent = [http_request ex_client ''{}''], nt_world = []\<rparr>)"
proof -
  have "TrimSpace ''f1'' = ''f1''" by code_simp
  moreover have "aiAllowed ex_ai_server ex_world = (True, '''')"
    by (simp add: aiAllowed_def ex_ai_server_fields ex_ai_def Let_def)
  moreover have "aa_Client ex_ai = ex_client" by (simp add: ex_ai_def)
  ultimately show ?thesis
    using ex_record_packet ex_Explain
    by (simp add: handleExplainFinding_def ex_ai_Get ex_ai_server_fields(2) record_packet_def ex_explanation_def)
qed

lemma ex_record_severity: "severity_str (f_Severity ex_record) = ''high''"
  by (simp add: ex_record_def ex_finding_def new_record_def Finding.defs Record.defs)

theorem explain_discloses_bounded_witness:
  "bounded (bounded_finding (forwarded ''rulehawk'' ex_record)) \<and> gate_open ex_ai_server ex_world ex_ai"
  using explain_discloses_bounded [OF ex_handle]
  by (auto simp: ex_net_def ex_ai_Get [unfolded ex_product] ex_product gate_open_def ex_ai_server_fields(2))

theorem shown_explanation_is_grounded_witness:
  "TrimSpace ''Open. Fix it.'' \<noteq> '''' \<and> \<not> states_other_level ''high'' ''Open. Fix it.'' \<and>
    states_other_level ''high'' ''Open. Low-Risk! Fix it.''"
proof -
  have "keeps_severity ex_wire" by (simp add: keeps_severity_def ex_wire_def)
  from shown_explanation_is_grounded [OF ex_handle _ this] have "TrimSpace ''Open. Fix it.'' \<noteq> ''''" by auto
  moreover have "\<not> conflicts ''high'' ''Open. Fix it.''" "conflicts ''high'' ''Open. Low-Risk! Fix it.''" by code_simp+
  ultimately show ?thesis unfolding conflicts_states_other_level by blast
qed

theorem keyed_request_needs_license_witness:
  "\<exists>req. [http_request ex_client ''{}''] = [req] \<and> ''Authorization'' \<notin> fst ` set (rq_Headers req)"
proof -
  have "NewAIAssist ex_parse_url (\<lambda>_. Inl '''') (\<lambda>s. s) ex_cfg = Inr (sv_AI ex_ai_server)"
    by (simp add: ex_config ex_ai_server_fields)
  from keyed_request_needs_license [OF this ex_handle] show ?thesis
    by (auto simp: ex_net_def ex_world_def free_activation_def TierFree_def TierPro_def TierTeam_def)
qed

theorem explain_terminates_witness:
  "\<exists>n req. [http_request ex_client ''{}''] = replicate n req \<and> 0 < n \<and> n \<le> 1"
  using explain_terminates [OF ex_Explain] by (auto simp: ex_net_def ex_retries)

theorem explain_first_decisive_witness:
  "fst (Explain ex_wire scripted ex_client ex_packet ex_net) = Inr ex_explanation"
proof -
  have "decisive ex_wire url (Response 200 ''Open. Low-Risk! Fix it.'')" for url by (simp add: decisive_def ex_read)
  then have "List.find (decisive ex_wire (cl_baseURL ex_client)) (take (nat (cl_maxRetries ex_client + 1)) (nt_world ex_net)) =
      Some (Response 200 ''Open. Low-Risk! Fix it.'')"
    by (simp add: ex_net_def ex_retries)
  moreover have "ep_Feature ex_packet \<noteq> ''''" "ep_Product ex_packet \<noteq> ''''" "ep_Finding ex_packet \<noteq> ''''"
    by (simp_all add: ex_packet_def FeatureExplainFinding_def)
  moreover have "wf_MarshalPacket ex_wire p \<noteq> None" "wf_MarshalRequest ex_wire r \<noteq> None" for p r by (simp_all add: ex_wire_def)
  moreover have "nat (cl_maxRetries ex_client + 1) \<le> length (nt_world ex_net)" by (simp add: ex_retries ex_net_def)
  ultimately show ?thesis
    using explain_first_decisive [of ex_packet ex_wire ex_client ex_net] by (simp add: ex_retries ex_read ex_severity ex_finish)
qed

end
