(* ===== verification/Sql.thy ===== *)
theory Sql
  imports Store "HOL-Library.Multiset" "HOL-Library.Product_Lexorder"
begin

text \<open>
  The SQL that the program sends, as abstract syntax, and the driver, a parameter. What the program relies on is the
  documented meaning of these statements: \<open>sql_exec\<close> and \<open>sql_rows\<close> give it on tables of rows, and
  \<open>faithful\<close> says of a driver that a statement which it reports as done had that effect, and a query which it
  answers has those rows, in the order asked for and otherwise in any. A driver may fail at any time.
\<close>

section \<open>Statements\<close>

datatype sqlval = SNull | SText string | SInt int | STime int

text \<open>A condition is a conjunct of a WHERE clause with its bound value.\<close>

datatype sql_cond = ColEq string sqlval | ColNotNull string | ColBefore string int

datatype sql_order = AnyOrder | OrderAsc string | OrderDesc string | OrderRowid

text \<open>INSERT INTO table (columns) VALUES (values) ON CONFLICT(key) DO UPDATE SET c = excluded.c for the columns of the
  last argument, or DO NOTHING.\<close>

datatype on_conflict = DoUpdate "string list" | DoNothing

datatype sql_stmt =
    CreateTable string "string list"
  | InsertOnConflict string "(string \<times> sqlval) list" "string list" on_conflict
  | DeleteWhere string "sql_cond list"
  | Vacuum

text \<open>SELECT columns FROM table WHERE conditions ORDER BY order.\<close>

datatype sql_query = Select "string list" string "sql_cond list" sql_order

section \<open>Their meaning\<close>

type_synonym row = "string \<Rightarrow> sqlval"
type_synonym tables = "string \<Rightarrow> row list"

fun cond_holds :: "row \<Rightarrow> sql_cond \<Rightarrow> bool" where
  "cond_holds r (ColEq c v) = (v \<noteq> SNull \<and> r c = v)"
| "cond_holds r (ColNotNull c) = (r c \<noteq> SNull)"
| "cond_holds r (ColBefore c t) = (case r c of STime t' \<Rightarrow> t' < t | _ \<Rightarrow> False)"

definition where_holds :: "sql_cond list \<Rightarrow> row \<Rightarrow> bool" where
  "where_holds cs r = list_all (cond_holds r) cs"

definition new_row :: "(string \<times> sqlval) list \<Rightarrow> row" where
  "new_row vals c = (case map_of vals c of Some v \<Rightarrow> v | None \<Rightarrow> SNull)"

definition same_key :: "string list \<Rightarrow> row \<Rightarrow> row \<Rightarrow> bool" where
  "same_key key a b = list_all (\<lambda>c. a c = b c) key"

text \<open>The rows of a table are in the order of their rowids; a new row comes last, an update keeps the place.\<close>

definition insert_row :: "row \<Rightarrow> string list \<Rightarrow> on_conflict \<Rightarrow> row list \<Rightarrow> row list" where
  "insert_row new key conflict rows =
     (if list_ex (same_key key new) rows then
        (case conflict of
           DoNothing \<Rightarrow> rows
         | DoUpdate cols \<Rightarrow> map (\<lambda>r. if same_key key new r then (\<lambda>c. if c \<in> set cols then new c else r c) else r) rows)
      else rows @ [new])"

fun sql_exec :: "sql_stmt \<Rightarrow> tables \<Rightarrow> tables" where
  "sql_exec (CreateTable t cols) db = db"
| "sql_exec (InsertOnConflict t vals key conflict) db = db(t := insert_row (new_row vals) key conflict (db t))"
| "sql_exec (DeleteWhere t cs) db = db(t := filter (\<lambda>r. \<not> where_holds cs r) (db t))"
| "sql_exec Vacuum db = db"

text \<open>Values order by their storage class, NULL before numbers before text, then by their value.\<close>

fun val_key :: "sqlval \<Rightarrow> nat \<times> int \<times> string" where
  "val_key SNull = (0, 0, '''')"
| "val_key (SInt n) = (1, n, '''')"
| "val_key (STime n) = (2, n, '''')"
| "val_key (SText s) = (3, 0, s)"

fun in_order :: "sql_order \<Rightarrow> row list \<Rightarrow> row list \<Rightarrow> bool" where
  "in_order AnyOrder stored rows = True"
| "in_order (OrderAsc c) stored rows = sorted (map (\<lambda>r. val_key (r c)) rows)"
| "in_order (OrderDesc c) stored rows = sorted (rev (map (\<lambda>r. val_key (r c)) rows))"
| "in_order OrderRowid stored rows = (rows = stored)"

fun sql_rows :: "sql_query \<Rightarrow> tables \<Rightarrow> row list" where
  "sql_rows (Select cols t cs ord) db = filter (where_holds cs) (db t)"

fun query_cols :: "sql_query \<Rightarrow> string list" where
  "query_cols (Select cols t cs ord) = cols"

fun query_order :: "sql_query \<Rightarrow> sql_order" where
  "query_order (Select cols t cs ord) = ord"

section \<open>Drivers\<close>

text \<open>
  \<open>Exec\<close> gives what its \<open>RowsAffected\<close> answers and the database after it; \<open>Query\<close> with its \<open>Next\<close> loop gives
  the values of the rows. An error is \<open>Inl\<close>.
\<close>

record 'db driver =
  dr_Exec :: "sql_stmt \<Rightarrow> 'db \<Rightarrow> string + (string + int) \<times> 'db"
  dr_Query :: "sql_query \<Rightarrow> 'db \<Rightarrow> string + sqlval list list"

text \<open>The rows that a statement deletes.\<close>

fun rows_deleted :: "sql_stmt \<Rightarrow> tables \<Rightarrow> nat" where
  "rows_deleted (DeleteWhere t cs) db = length (filter (where_holds cs) (db t))"
| "rows_deleted st db = 0"

text \<open>\<open>tables\<close> is what the database holds.\<close>

definition faithful :: "'db driver \<Rightarrow> ('db \<Rightarrow> tables) \<Rightarrow> bool" where
  "faithful d tables \<longleftrightarrow>
     (\<forall>st db n db'. dr_Exec d st db = Inr (n, db') \<longrightarrow> tables db' = sql_exec st (tables db) \<and>
       (\<forall>t cs k. st = DeleteWhere t cs \<and> n = Inr k \<longrightarrow> k = int (rows_deleted st (tables db)))) \<and>
     (\<forall>q db out. dr_Query d q db = Inr out \<longrightarrow>
       (\<exists>rows. out = map (\<lambda>r. map r (query_cols q)) rows \<and> mset rows = mset (sql_rows q (tables db)) \<and>
         in_order (query_order q) (sql_rows q (tables db)) rows))"

text \<open>A driver that never fails.\<close>

definition reliable :: "'db driver \<Rightarrow> bool" where
  "reliable d \<longleftrightarrow> (\<forall>st db. \<exists>n db'. dr_Exec d st db = Inr (n, db')) \<and> (\<forall>q db. \<exists>out. dr_Query d q db = Inr out)"

lemma faithful_Exec: "faithful d tables \<Longrightarrow> dr_Exec d st db = Inr (n, db') \<Longrightarrow> tables db' = sql_exec st (tables db)"
  by (auto simp: faithful_def)

lemma faithful_deleted:
  "faithful d tables \<Longrightarrow> dr_Exec d (DeleteWhere t cs) db = Inr (Inr k, db') \<Longrightarrow>
    k = int (length (filter (where_holds cs) (tables db t)))"
  by (auto simp: faithful_def)

lemma faithful_Query:
  assumes "faithful d tables" and "dr_Query d (Select cols t cs ord) db = Inr out"
  obtains rows where "out = map (\<lambda>r. map r cols) rows" "mset rows = mset (filter (where_holds cs) (tables db t))"
    "in_order ord (filter (where_holds cs) (tables db t)) rows"
proof -
  from assms have "\<exists>rows. out = map (\<lambda>r. map r (query_cols (Select cols t cs ord))) rows \<and>
      mset rows = mset (sql_rows (Select cols t cs ord) (tables db)) \<and>
      in_order (query_order (Select cols t cs ord)) (sql_rows (Select cols t cs ord) (tables db)) rows"
    unfolding faithful_def by blast
  then show thesis using that by auto
qed

section \<open>The reference driver\<close>

text \<open>A driver on tables in memory that never fails: it shows that the law can hold.\<close>

fun put_in_order :: "sql_order \<Rightarrow> row list \<Rightarrow> row list" where
  "put_in_order AnyOrder rows = rows"
| "put_in_order OrderRowid rows = rows"
| "put_in_order (OrderAsc c) rows = sort_key (\<lambda>r. val_key (r c)) rows"
| "put_in_order (OrderDesc c) rows = rev (sort_key (\<lambda>r. val_key (r c)) rows)"

definition ref_driver :: "tables driver" where
  "ref_driver = \<lparr>dr_Exec = (\<lambda>st db. Inr (Inr (int (rows_deleted st db)), sql_exec st db)),
     dr_Query = (\<lambda>q db. Inr (map (\<lambda>r. map r (query_cols q)) (put_in_order (query_order q) (sql_rows q db))))\<rparr>"

lemma put_in_order_ok: "mset (put_in_order ord rows) = mset rows \<and> in_order ord rows (put_in_order ord rows)"
  by (cases ord) (simp_all add: rev_map [symmetric])

lemma ref_driver_faithful: "faithful ref_driver (\<lambda>db. db)"
  unfolding faithful_def using put_in_order_ok by (auto simp: ref_driver_def intro!: exI conjI)

lemma ref_driver_reliable: "reliable ref_driver"
  by (simp add: reliable_def ref_driver_def)

end
