(* ===== verification/SqlStore.thy ===== *)
theory SqlStore
  imports Sql
begin

text \<open>
  Package \<open>store\<close>, file \<open>sqlite.go\<close>: the production store of findings and targets, over a driver. A store is its
  database; a method takes the driver first. \<open>unmarshal\<close> is \<open>json.Unmarshal\<close> into a map. Times are kept as they
  are: \<open>UTC\<close> does not change the instant.
\<close>

section \<open>Schema\<close>

definition findingCols :: "string list" where
  "findingCols =
     [''id'', ''fingerprint'', ''module'', ''target'', ''check_id'', ''title'', ''severity'', ''status'', ''remediation'',
      ''evidence'', ''group_id'', ''first_seen'', ''last_seen'', ''resolved_at'', ''absent_streak'']"

text \<open>One call runs both CREATE statements; the indexes have no effect on the rows.\<close>

definition sqlite_migrate :: "'db driver \<Rightarrow> 'db \<Rightarrow> string + 'db" where
  "sqlite_migrate d db =
     (case dr_Exec d (CreateTable ''findings'' findingCols) db of
        Inl err \<Rightarrow> Inl err
      | Inr (_, db) \<Rightarrow>
          (case dr_Exec d (CreateTable ''targets'' [''module'', ''raw'', ''canonical'']) db of
             Inl err \<Rightarrow> Inl err
           | Inr (_, db) \<Rightarrow> Inr db))"

definition NewSQLiteStore :: "'db driver \<Rightarrow> 'db \<Rightarrow> string + 'db" where
  "NewSQLiteStore d db =
     (case sqlite_migrate d db of Inl err \<Rightarrow> Inl (''sqlite migrate: '' @ err) | Inr db \<Rightarrow> Inr db)"

section \<open>Rows\<close>

text \<open>The evidence column; a nil map is NULL.\<close>

definition marshalEvidence :: "evidence option \<Rightarrow> string + sqlval" where
  "marshalEvidence ev =
     (case ev of
        None \<Rightarrow> Inr SNull
      | Some ev \<Rightarrow> (case marshal_evidence ev of None \<Rightarrow> Inl ''marshal evidence'' | Some b \<Rightarrow> Inr (SText b)))"

text \<open>The conversions of \<open>Scan\<close>: of a column that is not nullable, and of one read as \<open>NullString\<close> or \<open>NullTime\<close>. A value of
  another type than its column's is an error here; the store writes none.\<close>

fun text_col :: "sqlval \<Rightarrow> string + string" where
  "text_col (SText s) = Inr s"
| "text_col _ = Inl ''converting to a string''"

fun int_col :: "sqlval \<Rightarrow> string + int" where
  "int_col (SInt n) = Inr n"
| "int_col _ = Inl ''converting to an integer''"

fun time_col :: "sqlval \<Rightarrow> string + int" where
  "time_col (STime t) = Inr t"
| "time_col _ = Inl ''converting to a time''"

definition nullable :: "(sqlval \<Rightarrow> string + 'a) \<Rightarrow> sqlval \<Rightarrow> string + 'a option" where
  "nullable col v =
     (if v = SNull then Inr None else (case col v of Inl err \<Rightarrow> Inl err | Inr x \<Rightarrow> Inr (Some x)))"

text \<open>The next step of a scan, when the one before has no error.\<close>

fun scan_then :: "string + 'a \<Rightarrow> ('a \<Rightarrow> string + 'b) \<Rightarrow> string + 'b" where
  "scan_then (Inl err) f = Inl err"
| "scan_then (Inr x) f = f x"

definition scan_evidence :: "(string \<Rightarrow> evidence option) \<Rightarrow> string option \<Rightarrow> evidence option" where
  "scan_evidence unmarshal col =
     (case col of
        None \<Rightarrow> None
      | Some b \<Rightarrow>
          if b = '''' then None
          else (case unmarshal b of
              Some ev \<Rightarrow> Some ev
            | None \<Rightarrow> Some [(''_error'', JString ''stored evidence unreadable'')]))"

definition scanRecord :: "(string \<Rightarrow> evidence option) \<Rightarrow> sqlval list \<Rightarrow> string + Record" where
  "scanRecord unmarshal row =
     (if length row \<noteq> 15 then Inl ''expected 15 destination arguments in Scan''
      else
        scan_then (text_col (row ! 0)) (\<lambda>i. scan_then (text_col (row ! 1)) (\<lambda>fp. scan_then (text_col (row ! 2)) (\<lambda>m.
        scan_then (text_col (row ! 3)) (\<lambda>target. scan_then (text_col (row ! 4)) (\<lambda>check.
        scan_then (text_col (row ! 5)) (\<lambda>title. scan_then (text_col (row ! 6)) (\<lambda>severity.
        scan_then (text_col (row ! 7)) (\<lambda>status. scan_then (text_col (row ! 8)) (\<lambda>remediation.
        scan_then (nullable text_col (row ! 9)) (\<lambda>evidence. scan_then (nullable text_col (row ! 10)) (\<lambda>groupID.
        scan_then (time_col (row ! 11)) (\<lambda>opened. scan_then (time_col (row ! 12)) (\<lambda>seen.
        scan_then (nullable time_col (row ! 13)) (\<lambda>resolvedAt. scan_then (int_col (row ! 14)) (\<lambda>streak.
          Inr \<lparr>f_Fingerprint = fp, f_Target = target, f_Check = check, f_Title = title, f_Severity = Severity_of severity,
            f_Remediation = remediation, f_Evidence = scan_evidence unmarshal evidence, f_ID = i, f_Module = m, f_Status = status,
            f_GroupID = groupID, f_FirstSeen = opened, f_LastSeen = seen, f_ResolvedAt = resolvedAt,
            r_AbsentStreak = streak\<rparr>))))))))))))))))"

fun scanRecords :: "(string \<Rightarrow> evidence option) \<Rightarrow> sqlval list list \<Rightarrow> string + Record list" where
  "scanRecords unmarshal [] = Inr []"
| "scanRecords unmarshal (row # rows) =
     (case scanRecord unmarshal row of
        Inl err \<Rightarrow> Inl err
      | Inr rec \<Rightarrow> (case scanRecords unmarshal rows of Inl err \<Rightarrow> Inl err | Inr out \<Rightarrow> Inr (rec # out)))"

section \<open>Findings\<close>

definition query_records ::
  "'db driver \<Rightarrow> (string \<Rightarrow> evidence option) \<Rightarrow> sql_cond list \<Rightarrow> sql_order \<Rightarrow> 'db \<Rightarrow> string + Record list" where
  "query_records d unmarshal cs ord db =
     (case dr_Query d (Select findingCols ''findings'' cs ord) db of
        Inl err \<Rightarrow> Inl err
      | Inr rows \<Rightarrow> scanRecords unmarshal rows)"

definition sqlite_ListByTarget ::
  "'db driver \<Rightarrow> (string \<Rightarrow> evidence option) \<Rightarrow> 'db \<Rightarrow> string \<Rightarrow> string \<Rightarrow> string + Record list" where
  "sqlite_ListByTarget d unmarshal db m target =
     query_records d unmarshal [ColEq ''module'' (SText m), ColEq ''target'' (SText target)] AnyOrder db"

definition sqlite_ListOpen :: "'db driver \<Rightarrow> (string \<Rightarrow> evidence option) \<Rightarrow> 'db \<Rightarrow> string \<Rightarrow> string + Record list" where
  "sqlite_ListOpen d unmarshal db m =
     query_records d unmarshal [ColEq ''module'' (SText m), ColEq ''status'' (SText StatusOpen)] AnyOrder db"

definition sqlite_ListAll :: "'db driver \<Rightarrow> (string \<Rightarrow> evidence option) \<Rightarrow> 'db \<Rightarrow> string \<Rightarrow> string + Record list" where
  "sqlite_ListAll d unmarshal db m =
     query_records d unmarshal [ColEq ''module'' (SText m)] (OrderDesc ''last_seen'') db"

text \<open>\<open>QueryRow\<close> reads the first row; no row is \<open>ErrNoRows\<close>.\<close>

definition sqlite_Get ::
  "'db driver \<Rightarrow> (string \<Rightarrow> evidence option) \<Rightarrow> 'db \<Rightarrow> string \<Rightarrow> string \<Rightarrow> string + Record option" where
  "sqlite_Get d unmarshal db m fingerprint =
     (case dr_Query d (Select findingCols ''findings''
         [ColEq ''module'' (SText m), ColEq ''fingerprint'' (SText fingerprint)] AnyOrder) db of
        Inl err \<Rightarrow> Inl err
      | Inr [] \<Rightarrow> Inr None
      | Inr (row # _) \<Rightarrow> (case scanRecord unmarshal row of Inl err \<Rightarrow> Inl err | Inr rec \<Rightarrow> Inr (Some rec)))"

text \<open>The values bound by an upsert, and the columns that a conflict updates.\<close>

definition record_row :: "Record \<Rightarrow> sqlval \<Rightarrow> (string \<times> sqlval) list" where
  "record_row r evidence =
     zip findingCols
       [SText (f_ID r), SText (f_Fingerprint r), SText (f_Module r), SText (f_Target r), SText (f_Check r), SText (f_Title r),
        SText (severity_str (f_Severity r)), SText (f_Status r), SText (f_Remediation r), evidence,
        (case f_GroupID r of None \<Rightarrow> SNull | Some g \<Rightarrow> SText g), STime (f_FirstSeen r), STime (f_LastSeen r),
        (case f_ResolvedAt r of None \<Rightarrow> SNull | Some t \<Rightarrow> STime t), SInt (r_AbsentStreak r)]"

definition updated_cols :: "string list" where
  "updated_cols = [''title'', ''severity'', ''status'', ''remediation'', ''evidence'', ''group_id'', ''last_seen'',
     ''resolved_at'', ''absent_streak'']"

definition sqlite_Upsert :: "'db driver \<Rightarrow> Record \<Rightarrow> 'db \<Rightarrow> string + 'db" where
  "sqlite_Upsert d r db =
     (case marshalEvidence (f_Evidence r) of
        Inl err \<Rightarrow> Inl err
      | Inr evidence \<Rightarrow>
          (case dr_Exec d (InsertOnConflict ''findings'' (record_row r evidence) [''module'', ''fingerprint'']
              (DoUpdate updated_cols)) db of
             Inl err \<Rightarrow> Inl err
           | Inr (_, db) \<Rightarrow> Inr db))"

definition sqlite_Vacuum :: "'db driver \<Rightarrow> 'db \<Rightarrow> string + 'db" where
  "sqlite_Vacuum d db = (case dr_Exec d Vacuum db of Inl err \<Rightarrow> Inl err | Inr (_, db) \<Rightarrow> Inr db)"

text \<open>The result is what \<open>RowsAffected\<close> answers after the rows are gone.\<close>

definition sqlite_PruneResolvedBefore :: "'db driver \<Rightarrow> int \<Rightarrow> 'db \<Rightarrow> string + (string + int) \<times> 'db" where
  "sqlite_PruneResolvedBefore d cutoff db =
     (case dr_Exec d (DeleteWhere ''findings''
         [ColEq ''status'' (SText StatusResolved), ColNotNull ''resolved_at'', ColBefore ''resolved_at'' cutoff]) db of
        Inl err \<Rightarrow> Inl err
      | Inr (n, db) \<Rightarrow> Inr (n, db))"

section \<open>Targets\<close>

definition sqlite_SaveTarget :: "'db driver \<Rightarrow> string \<Rightarrow> string \<Rightarrow> string \<Rightarrow> 'db \<Rightarrow> string + 'db" where
  "sqlite_SaveTarget d m raw canonical db =
     (case dr_Exec d (InsertOnConflict ''targets''
         [(''module'', SText m), (''raw'', SText raw), (''canonical'', SText canonical)] [''module'', ''canonical''] DoNothing) db of
        Inl err \<Rightarrow> Inl err
      | Inr (_, db) \<Rightarrow> Inr db)"

definition sqlite_DeleteTarget :: "'db driver \<Rightarrow> string \<Rightarrow> string \<Rightarrow> 'db \<Rightarrow> string + 'db" where
  "sqlite_DeleteTarget d m canonical db =
     (case dr_Exec d (DeleteWhere ''targets'' [ColEq ''module'' (SText m), ColEq ''canonical'' (SText canonical)]) db of
        Inl err \<Rightarrow> Inl err
      | Inr (_, db) \<Rightarrow> Inr db)"

fun scan_raws :: "sqlval list list \<Rightarrow> string + string list" where
  "scan_raws [] = Inr []"
| "scan_raws ([SText raw] # rows) = (case scan_raws rows of Inl err \<Rightarrow> Inl err | Inr out \<Rightarrow> Inr (raw # out))"
| "scan_raws (_ # rows) = Inl ''scan''"

definition sqlite_ListSavedTargets :: "'db driver \<Rightarrow> 'db \<Rightarrow> string \<Rightarrow> string + string list" where
  "sqlite_ListSavedTargets d db m =
     (case dr_Query d (Select [''raw''] ''targets'' [ColEq ''module'' (SText m)] OrderRowid) db of
        Inl err \<Rightarrow> Inl err
      | Inr rows \<Rightarrow> scan_raws rows)"

end
