(* ===== verification/SqlSpec.thy ===== *)
theory SqlSpec
  imports SqlStore StoreProperties
begin

text \<open>
  The production store implements the same contract as the in-memory one. Its abstraction is the list of the records that
  its rows read back as; each operation is related to an operation on that list, and the locale of findings
  stores is interpreted on it for any faithful driver.
\<close>

section \<open>Rows and records\<close>

definition row_record :: "(string \<Rightarrow> evidence option) \<Rightarrow> row \<Rightarrow> string + Record" where
  "row_record unmarshal row = scanRecord unmarshal (map row findingCols)"

lemma scan_then_Inr [simp]: "scan_then x f = Inr y \<longleftrightarrow> (\<exists>v. x = Inr v \<and> f v = Inr y)"
  by (cases x) simp_all

lemma text_col_Inr [simp]: "text_col v = Inr s \<longleftrightarrow> v = SText s"
  by (cases v) auto

lemma int_col_Inr [simp]: "int_col v = Inr n \<longleftrightarrow> v = SInt n"
  by (cases v) auto

lemma time_col_Inr [simp]: "time_col v = Inr t \<longleftrightarrow> v = STime t"
  by (cases v) auto

definition text_or_null :: "string option \<Rightarrow> sqlval" where
  "text_or_null x = (case x of None \<Rightarrow> SNull | Some s \<Rightarrow> SText s)"

definition time_or_null :: "int option \<Rightarrow> sqlval" where
  "time_or_null x = (case x of None \<Rightarrow> SNull | Some t \<Rightarrow> STime t)"

lemma nullable_text [simp]: "nullable text_col v = Inr x \<longleftrightarrow> v = text_or_null x"
  by (cases v) (auto simp: nullable_def text_or_null_def split: option.splits)

lemma nullable_time [simp]: "nullable time_col v = Inr x \<longleftrightarrow> v = time_or_null x"
  by (cases v) (auto simp: nullable_def time_or_null_def split: option.splits)

lemma map_findingCols:
  "map row findingCols =
    [row ''id'', row ''fingerprint'', row ''module'', row ''target'', row ''check_id'', row ''title'', row ''severity'',
     row ''status'', row ''remediation'', row ''evidence'', row ''group_id'', row ''first_seen'', row ''last_seen'',
     row ''resolved_at'', row ''absent_streak'']"
  by (simp add: findingCols_def)

text \<open>A row reads back as a record exactly when its columns hold the record's fields.\<close>

lemma row_record_Inr:
  "row_record unmarshal row = Inr r \<longleftrightarrow>
    row ''id'' = SText (f_ID r) \<and> row ''fingerprint'' = SText (f_Fingerprint r) \<and> row ''module'' = SText (f_Module r) \<and>
    row ''target'' = SText (f_Target r) \<and> row ''check_id'' = SText (f_Check r) \<and> row ''title'' = SText (f_Title r) \<and>
    (\<exists>sev. row ''severity'' = SText sev \<and> Severity_of sev = f_Severity r) \<and> row ''status'' = SText (f_Status r) \<and>
    row ''remediation'' = SText (f_Remediation r) \<and>
    (\<exists>ev. row ''evidence'' = text_or_null ev \<and> scan_evidence unmarshal ev = f_Evidence r) \<and>
    row ''group_id'' = text_or_null (f_GroupID r) \<and> row ''first_seen'' = STime (f_FirstSeen r) \<and>
    row ''last_seen'' = STime (f_LastSeen r) \<and> row ''resolved_at'' = time_or_null (f_ResolvedAt r) \<and>
    row ''absent_streak'' = SInt (r_AbsentStreak r)"
  unfolding row_record_def scanRecord_def map_findingCols by (cases r) auto

text \<open>Severities and evidence that come back as they were written.\<close>

definition sql_okv :: "(string \<Rightarrow> evidence option) \<Rightarrow> Severity \<Rightarrow> evidence option \<Rightarrow> bool" where
  "sql_okv unmarshal sev ev \<longleftrightarrow> Severity_of (severity_str sev) = sev \<and>
     (\<forall>e. ev = Some e \<longrightarrow> (\<exists>b. marshal_evidence e = Some b \<and> unmarshal b = Some e))"

lemma known_severity: "Valid sev \<Longrightarrow> Severity_of (severity_str sev) = sev"
  by (cases sev) (simp_all add: Severity_of_def Valid_def)

lemma marshal_evidence_ne: "marshal_evidence e = Some b \<Longrightarrow> b \<noteq> ''''"
  by (auto simp: marshal_evidence_def)

lemma scan_marshalled:
  assumes "marshalEvidence ev = Inr v" and "sql_okv unmarshal sev ev"
  shows "\<exists>col. v = text_or_null col \<and> scan_evidence unmarshal col = ev"
proof (cases ev)
  case None
  then show ?thesis using assms(1)
    by (intro exI [of _ None]) (simp add: marshalEvidence_def text_or_null_def scan_evidence_def)
next
  case (Some e)
  then obtain b where b: "marshal_evidence e = Some b" "v = SText b"
    using assms(1) by (auto simp: marshalEvidence_def split: option.splits)
  then have "unmarshal b = Some e" using assms(2) Some by (auto simp: sql_okv_def)
  then show ?thesis using Some b marshal_evidence_ne [OF b(1)]
    by (intro exI [of _ "Some b"]) (simp add: text_or_null_def scan_evidence_def)
qed

text \<open>What an upsert leaves in a row that had the key: the identifying fields of the record that was there.\<close>

definition keep_identity :: "Record \<Rightarrow> Record \<Rightarrow> Record" where
  "keep_identity p r = r\<lparr>f_ID := f_ID p, f_Target := f_Target p, f_Check := f_Check p, f_FirstSeen := f_FirstSeen p\<rparr>"

lemma keep_identity_same: "same_identity r p \<Longrightarrow> keep_identity p r = r"
  by (simp add: keep_identity_def same_identity_def)

lemma keep_identity_fields [simp]:
  "f_Module (keep_identity p r) = f_Module r" "f_Fingerprint (keep_identity p r) = f_Fingerprint r"
  "f_Severity (keep_identity p r) = f_Severity r" "f_Evidence (keep_identity p r) = f_Evidence r"
  by (simp_all add: keep_identity_def)

lemma new_row_cols:
  "map (new_row (record_row r v)) findingCols =
    [SText (f_ID r), SText (f_Fingerprint r), SText (f_Module r), SText (f_Target r), SText (f_Check r), SText (f_Title r),
     SText (severity_str (f_Severity r)), SText (f_Status r), SText (f_Remediation r), v, text_or_null (f_GroupID r),
     STime (f_FirstSeen r), STime (f_LastSeen r), time_or_null (f_ResolvedAt r), SInt (r_AbsentStreak r)]"
  by (simp add: map_findingCols new_row_def record_row_def findingCols_def text_or_null_def time_or_null_def)

lemmas new_row_col = new_row_cols [unfolded map_findingCols list.inject]

lemma row_record_new:
  assumes "marshalEvidence (f_Evidence r) = Inr v" and "sql_okv unmarshal (f_Severity r) (f_Evidence r)"
  shows "row_record unmarshal (new_row (record_row r v)) = Inr r"
  using scan_marshalled [OF assms] assms(2) by (simp add: row_record_Inr new_row_col sql_okv_def)

lemma row_record_updated:
  assumes "marshalEvidence (f_Evidence r) = Inr v" and "sql_okv unmarshal (f_Severity r) (f_Evidence r)"
    and "row_record unmarshal row = Inr p" and "f_Module p = f_Module r" and "f_Fingerprint p = f_Fingerprint r"
  shows "row_record unmarshal (\<lambda>c. if c \<in> set updated_cols then new_row (record_row r v) c else row c) = Inr (keep_identity p r)"
  using scan_marshalled [OF assms(1,2)] assms(2-)
  by (simp add: row_record_Inr new_row_col sql_okv_def updated_cols_def keep_identity_def)

section \<open>The abstraction\<close>

abbreviation record_key :: "Record \<Rightarrow> string \<times> string" where
  "record_key r \<equiv> (f_Module r, f_Fingerprint r)"

definition reads_as :: "(string \<Rightarrow> evidence option) \<Rightarrow> tables \<Rightarrow> Record list \<Rightarrow> bool" where
  "reads_as unmarshal tb rs \<longleftrightarrow> map (row_record unmarshal) (tb ''findings'') = map Inr rs \<and> distinct (map record_key rs) \<and>
     (\<forall>r \<in> set rs. sql_okv unmarshal (f_Severity r) (f_Evidence r))"

definition put_record :: "Record \<Rightarrow> Record list \<Rightarrow> Record list" where
  "put_record r rs =
     (if record_key r \<in> record_key ` set rs then map (\<lambda>p. if record_key p = record_key r then keep_identity p r else p) rs
      else rs @ [r])"

lemma put_record_keys: "map record_key (put_record r rs) = map record_key rs @ (if record_key r \<in> record_key ` set rs then [] else [record_key r])"
  by (auto simp: put_record_def)

lemma same_key_record:
  assumes "row_record unmarshal row = Inr p"
  shows "same_key [''module'', ''fingerprint''] (new_row (record_row r v)) row \<longleftrightarrow> record_key p = record_key r"
  using assms by (auto simp: same_key_def new_row_col row_record_Inr)

lemma reads_as_upsert:
  assumes rs: "reads_as unmarshal tb rs" and v: "marshalEvidence (f_Evidence r) = Inr v"
    and ok: "sql_okv unmarshal (f_Severity r) (f_Evidence r)"
  shows "reads_as unmarshal (sql_exec (InsertOnConflict ''findings'' (record_row r v) [''module'', ''fingerprint'']
    (DoUpdate updated_cols)) tb) (put_record r rs)"
proof -
  let ?rows = "tb ''findings''" and ?new = "new_row (record_row r v)"
  have read: "map (row_record unmarshal) ?rows = map Inr rs" using rs by (simp add: reads_as_def)
  have key: "list_ex (same_key [''module'', ''fingerprint''] ?new) rows \<longleftrightarrow> record_key r \<in> record_key ` set rs"
    if "map (row_record unmarshal) rows = map Inr rs" for rows and rs :: "Record list"
    using that
  proof (induction rows arbitrary: rs)
    case (Cons row rows)
    then obtain p ps where "rs = p # ps" "row_record unmarshal row = Inr p" "map (row_record unmarshal) rows = map Inr ps"
      by (cases rs) auto
    then show ?case using Cons.IH [of ps] same_key_record [of unmarshal row p r v] by auto
  qed simp
  have upd: "map (row_record unmarshal) (map (\<lambda>row. if same_key [''module'', ''fingerprint''] ?new row
        then (\<lambda>c. if c \<in> set updated_cols then ?new c else row c) else row) rows) =
      map Inr (map (\<lambda>p. if record_key p = record_key r then keep_identity p r else p) rs)"
    if "map (row_record unmarshal) rows = map Inr rs" for rows and rs :: "Record list"
    using that
  proof (induction rows arbitrary: rs)
    case (Cons row rows)
    then obtain p ps where p: "rs = p # ps" "row_record unmarshal row = Inr p" "map (row_record unmarshal) rows = map Inr ps"
      by (cases rs) auto
    then show ?case using Cons.IH [of ps] same_key_record [of unmarshal row p r v] row_record_updated [OF v ok p(2)] by auto
  qed simp
  have "map (row_record unmarshal) (insert_row ?new [''module'', ''fingerprint''] (DoUpdate updated_cols) ?rows) =
      map Inr (put_record r rs)"
    using key [OF read] upd [OF read] read row_record_new [OF v ok] by (simp add: insert_row_def put_record_def)
  moreover have "distinct (map record_key (put_record r rs))"
    using rs unfolding put_record_keys by (auto simp: reads_as_def)
  moreover have "\<forall>q \<in> set (put_record r rs). sql_okv unmarshal (f_Severity q) (f_Evidence q)"
    using rs ok by (auto simp: reads_as_def put_record_def)
  ultimately show ?thesis by (simp add: reads_as_def)
qed

section \<open>Queries\<close>

lemma scanRecords_map:
  "list_all (\<lambda>row. \<exists>r. row_record unmarshal row = Inr r) rows \<Longrightarrow>
    \<exists>rs. scanRecords unmarshal (map (\<lambda>r. map r findingCols) rows) = Inr rs \<and> map (row_record unmarshal) rows = map Inr rs"
proof (induction rows)
  case (Cons row rows)
  then obtain r rs where "row_record unmarshal row = Inr r"
    "scanRecords unmarshal (map (\<lambda>r. map r findingCols) rows) = Inr rs" "map (row_record unmarshal) rows = map Inr rs"
    by auto
  moreover from this(1) have "scanRecord unmarshal (map row findingCols) = Inr r" by (simp add: row_record_def)
  ultimately show ?case by (intro exI [of _ "r # rs"]) simp
qed simp

lemma filter_reads:
  assumes "map f rows = map Inr rs" and "\<And>row r. f row = Inr r \<Longrightarrow> P row = Q r"
  shows "map f (filter P rows) = map Inr (filter Q rs)"
  using assms(1)
proof (induction rows arbitrary: rs)
  case (Cons row rows)
  then obtain r rs2 where "rs = r # rs2" "f row = Inr r" "map f rows = map Inr rs2" by (cases rs) auto
  then show ?case using Cons.IH [of rs2] assms(2) [of row r] by simp
qed simp

lemma map_Inr_inj [simp]: "map Inr xs = map Inr ys \<longleftrightarrow> xs = ys"
  by (simp add: inj_map_eq_map)

text \<open>A query whose conditions say \<open>P\<close> of the records gives the records with \<open>P\<close>, unless the driver fails.\<close>

lemma query_records_ok:
  assumes d: "faithful d tables" and rs: "reads_as unmarshal (tables db) rs"
    and P: "\<And>row r. row_record unmarshal row = Inr r \<Longrightarrow> where_holds cs row = P r"
    and run: "query_records d unmarshal cs ord db = Inr out"
  shows "mset out = mset (filter P rs)"
    and "ord = OrderDesc ''last_seen'' \<Longrightarrow> sorted (rev (map f_LastSeen out))"
proof -
  let ?f = "row_record unmarshal"
  have read: "map ?f (tables db ''findings'') = map Inr rs" using rs by (simp add: reads_as_def)
  obtain vals where "dr_Query d (Select findingCols ''findings'' cs ord) db = Inr vals" "scanRecords unmarshal vals = Inr out"
    using run by (auto simp: query_records_def split: sum.splits)
  with faithful_Query [OF d] obtain rows where rows: "vals = map (\<lambda>r. map r findingCols) rows"
    "mset rows = mset (filter (where_holds cs) (tables db ''findings''))"
    "in_order ord (filter (where_holds cs) (tables db ''findings'')) rows" by metis
  have kept: "map ?f (filter (where_holds cs) (tables db ''findings'')) = map Inr (filter P rs)"
    by (rule filter_reads [OF read P])
  have "image_mset ?f (mset rows) = image_mset Inr (mset (filter P rs))"
    by (metis rows(2) kept mset_map)
  then have "\<forall>x \<in> ?f ` set rows. \<exists>r. x = Inr r" by (metis (no_types, lifting) ex_map_conv kept mset_eq_setD mset_map rows(2) set_map image_iff)
  then have "list_all (\<lambda>row. \<exists>r. ?f row = Inr r) rows" by (simp add: list_all_iff)
  from scanRecords_map [OF this] have out: "map ?f rows = map Inr out"
    using \<open>scanRecords unmarshal vals = Inr out\<close> rows(1) by auto
  have "image_mset Inr (mset out) = image_mset (Inr :: Record \<Rightarrow> string + Record) (mset (filter P rs))"
    by (metis out kept mset_map rows(2))
  then show "mset out = mset (filter P rs)"
    by (metis inj_Inl inj_Inr multiset.inj_map injD inj_on_def)
  assume "ord = OrderDesc ''last_seen''"
  then have "sorted (rev (map (\<lambda>r. val_key (r ''last_seen'')) rows))" using rows(3) by simp
  moreover have "map (\<lambda>r. val_key (r ''last_seen'')) rows = map (\<lambda>t. (2, t, '''')) (map f_LastSeen out)"
    using out
  proof (induction rows arbitrary: out)
    case (Cons row rows)
    then obtain r rs2 where "out = r # rs2" "?f row = Inr r" "map ?f rows = map Inr rs2" by (cases out) auto
    then show ?case using Cons.IH [of rs2] by (simp add: row_record_Inr)
  qed simp
  moreover have "sorted (rev (map (\<lambda>t. (2 :: nat, t :: int, '''' :: string)) ts)) \<Longrightarrow> sorted (rev ts)" for ts
    by (simp add: rev_map sorted_map) (erule sorted_wrt_mono_rel [rotated], auto)
  ultimately show "sorted (rev (map f_LastSeen out))" by metis
qed

lemma sqlite_ListByTarget_ok:
  assumes "faithful d tables" and "reads_as unmarshal (tables db) rs"
    and "sqlite_ListByTarget d unmarshal db m t = Inr out"
  shows "mset out = mset (filter (\<lambda>r. f_Module r = m \<and> f_Target r = t) rs)"
  using query_records_ok(1) [OF assms(1,2) _ assms(3) [unfolded sqlite_ListByTarget_def],
      of "\<lambda>r. f_Module r = m \<and> f_Target r = t"]
  by (auto simp: where_holds_def row_record_Inr)

lemma sqlite_ListOpen_ok:
  assumes "faithful d tables" and "reads_as unmarshal (tables db) rs"
    and "sqlite_ListOpen d unmarshal db m = Inr out"
  shows "mset out = mset (filter (\<lambda>r. f_Module r = m \<and> f_Status r = StatusOpen) rs)"
  using query_records_ok(1) [OF assms(1,2) _ assms(3) [unfolded sqlite_ListOpen_def],
      of "\<lambda>r. f_Module r = m \<and> f_Status r = StatusOpen"]
  by (auto simp: where_holds_def row_record_Inr)

lemma sqlite_ListAll_ok:
  assumes "faithful d tables" and "reads_as unmarshal (tables db) rs"
    and "sqlite_ListAll d unmarshal db m = Inr out"
  shows "mset out = mset (filter (\<lambda>r. f_Module r = m) rs) \<and> sorted (rev (map f_LastSeen out))"
  using query_records_ok [OF assms(1,2) _ assms(3) [unfolded sqlite_ListAll_def], of "\<lambda>r. f_Module r = m"]
  by (auto simp: where_holds_def row_record_Inr)

section \<open>Reliable drivers\<close>

lemma query_records_total:
  assumes d: "faithful d tables" "reliable d" and rs: "reads_as unmarshal (tables db) rs"
  shows "\<exists>out. query_records d unmarshal cs ord db = Inr out"
proof -
  obtain vals where q: "dr_Query d (Select findingCols ''findings'' cs ord) db = Inr vals"
    using d(2) by (meson reliable_def)
  from faithful_Query [OF d(1) q] obtain rows where rows: "vals = map (\<lambda>r. map r findingCols) rows"
    "mset rows = mset (filter (where_holds cs) (tables db ''findings''))" by metis
  have "set rows \<subseteq> set (tables db ''findings'')" using mset_eq_setD [OF rows(2)] by auto
  moreover have "map (row_record unmarshal) (tables db ''findings'') = map Inr rs" using rs by (simp add: reads_as_def)
  then have "row_record unmarshal ` set (tables db ''findings'') = Inr ` set rs" by (metis set_map)
  ultimately have "list_all (\<lambda>row. \<exists>r. row_record unmarshal row = Inr r) rows" unfolding list_all_iff by blast
  from scanRecords_map [OF this] show ?thesis using q rows(1) by (auto simp: query_records_def)
qed

lemma sqlite_Upsert_total:
  assumes "reliable d" and "sql_okv unmarshal (f_Severity r) (f_Evidence r)"
  shows "\<exists>db'. sqlite_Upsert d r db = Inr db'"
proof -
  obtain v where "marshalEvidence (f_Evidence r) = Inr v"
    using assms(2) by (cases "f_Evidence r") (auto simp: sql_okv_def marshalEvidence_def)
  moreover obtain n db' where "dr_Exec d (InsertOnConflict ''findings'' (record_row r v) [''module'', ''fingerprint'']
      (DoUpdate updated_cols)) db = Inr (n, db')"
    using assms(1) by (meson reliable_def)
  ultimately show ?thesis by (simp add: sqlite_Upsert_def)
qed

section \<open>Single records\<close>

definition record_of :: "Record list \<Rightarrow> string \<Rightarrow> string \<Rightarrow> Record option" where
  "record_of rs m fp = List.find (\<lambda>r. f_Module r = m \<and> f_Fingerprint r = fp) rs"

lemma record_of_Some:
  assumes "distinct (map record_key rs)"
  shows "record_of rs m fp = Some r \<longleftrightarrow> r \<in> set rs \<and> f_Module r = m \<and> f_Fingerprint r = fp"
proof
  assume "record_of rs m fp = Some r"
  then show "r \<in> set rs \<and> f_Module r = m \<and> f_Fingerprint r = fp"
    unfolding record_of_def by (auto dest: find_Some_in)
next
  assume r: "r \<in> set rs \<and> f_Module r = m \<and> f_Fingerprint r = fp"
  then obtain q where q: "record_of rs m fp = Some q"
    by (cases "record_of rs m fp") (auto simp: record_of_def find_None_iff)
  from find_Some_in [OF q [unfolded record_of_def]] have "q \<in> set rs" "record_key q = record_key r" using r by auto
  moreover have "inj_on record_key (set rs)" using assms by (simp add: distinct_map)
  ultimately have "q = r" using r by (auto dest: inj_onD)
  with q show "record_of rs m fp = Some r" by simp
qed

lemma at_most_one: "distinct (map f xs) \<Longrightarrow> \<forall>x \<in> set xs. f x = k \<Longrightarrow> length xs \<le> 1"
  by (cases xs rule: remdups_adj.cases) auto

text \<open>A query for at most one row of a table whose rows read as \<open>rs\<close>.\<close>

lemma query_unique:
  assumes d: "faithful d tables" and read: "map f (tables db t) = map Inr rs"
    and iff: "\<And>row r. f row = Inr r \<Longrightarrow> where_holds cs row = P r" and one: "length (filter P rs) \<le> 1"
    and q: "dr_Query d (Select cols t cs ord) db = Inr vals"
  shows "vals = [] \<and> filter P rs = [] \<or> (\<exists>row r. vals = [map row cols] \<and> f row = Inr r \<and> filter P rs = [r])"
proof -
  obtain rows where rows: "vals = map (\<lambda>r. map r cols) rows" "mset rows = mset (filter (where_holds cs) (tables db t))"
    using faithful_Query [OF d q] by metis
  have kept: "map f (filter (where_holds cs) (tables db t)) = map Inr (filter P rs)" by (rule filter_reads [OF read iff])
  then have len: "length (filter (where_holds cs) (tables db t)) = length (filter P rs)" by (metis length_map)
  show ?thesis
  proof (cases "filter P rs")
    case Nil
    then have "filter (where_holds cs) (tables db t) = []" using len by simp
    then have "mset rows = mset []" using rows(2) by argo
    with Nil rows(1) show ?thesis by simp
  next
    case (Cons r rs')
    then have r: "filter P rs = [r]" using one by simp
    then obtain row where row: "filter (where_holds cs) (tables db t) = [row]" using len by (auto simp: length_Suc_conv)
    then have "mset rows = mset [row]" using rows(2) by argo
    then have "rows = [row]" by simp
    moreover have "f row = Inr r" using kept row r by simp
    ultimately show ?thesis using rows(1) r by auto
  qed
qed

lemma sqlite_Get_ok:
  assumes "faithful d tables" and rs: "reads_as unmarshal (tables db) rs"
    and run: "sqlite_Get d unmarshal db m fp = Inr res"
  shows "res = record_of rs m fp"
proof -
  define P :: "Record \<Rightarrow> bool" where "P = (\<lambda>r. f_Module r = m \<and> f_Fingerprint r = fp)"
  define cs where "cs = [ColEq ''module'' (SText m), ColEq ''fingerprint'' (SText fp)]"
  obtain vals where q: "dr_Query d (Select findingCols ''findings'' cs AnyOrder) db = Inr vals"
    using run by (auto simp: sqlite_Get_def cs_def split: sum.splits)
  have read: "map (row_record unmarshal) (tables db ''findings'') = map Inr rs" using rs by (simp add: reads_as_def)
  have iff: "where_holds cs row = P r" if "row_record unmarshal row = Inr r" for row r
    using that by (auto simp: where_holds_def row_record_Inr cs_def P_def)
  have dist: "distinct (map record_key rs)" using rs by (simp add: reads_as_def)
  then have "length (filter P rs) \<le> 1"
    by (intro at_most_one [where f = record_key and k = "(m, fp)"]) (simp_all add: distinct_map_filter P_def)
  from query_unique [OF assms(1) read iff this q] consider "vals = []" "filter P rs = []"
    | row r where "vals = [map row findingCols]" "row_record unmarshal row = Inr r" "filter P rs = [r]" by blast
  then show ?thesis
  proof cases
    case 1
    then have "res = None" using run q by (simp add: sqlite_Get_def cs_def)
    moreover have "record_of rs m fp = None"
      unfolding record_of_def find_None_iff using 1(2) by (auto simp: P_def filter_empty_conv)
    ultimately show ?thesis by simp
  next
    case 2
    then have "res = Some r" using run q by (simp add: sqlite_Get_def cs_def row_record_def)
    moreover have "r \<in> set (filter P rs)" using 2(3) by simp
    then have "r \<in> set rs" "P r" by simp_all
    ultimately show ?thesis using record_of_Some [OF dist, of m fp r] by (simp add: P_def)
  qed
qed

section \<open>The contract\<close>

lemma sqlite_Upsert_ok:
  assumes "faithful d tables" and "reads_as unmarshal (tables db) rs" and "sql_okv unmarshal (f_Severity r) (f_Evidence r)"
    and "sqlite_Upsert d r db = Inr db'"
  shows "reads_as unmarshal (tables db') (put_record r rs)"
proof -
  obtain v n where "marshalEvidence (f_Evidence r) = Inr v" "dr_Exec d (InsertOnConflict ''findings'' (record_row r v)
      [''module'', ''fingerprint''] (DoUpdate updated_cols)) db = Inr (n, db')"
    using assms(4) by (auto simp: sqlite_Upsert_def split: sum.splits)
  then show ?thesis using reads_as_upsert [OF assms(2) _ assms(3)] faithful_Exec [OF assms(1)] by metis
qed

text \<open>The records that the rows of a database read back as.\<close>

definition db_records :: "(string \<Rightarrow> evidence option) \<Rightarrow> tables \<Rightarrow> Record list" where
  "db_records unmarshal tb = map projr (map (row_record unmarshal) (tb ''findings''))"

lemma reads_as_unique: "reads_as unmarshal tb rs \<Longrightarrow> rs = db_records unmarshal tb"
  by (simp add: reads_as_def db_records_def comp_def)

definition sql_wf :: "(string \<Rightarrow> evidence option) \<Rightarrow> ('db \<Rightarrow> tables) \<Rightarrow> 'db \<Rightarrow> bool" where
  "sql_wf unmarshal tables db \<longleftrightarrow> reads_as unmarshal (tables db) (db_records unmarshal (tables db))"

definition sql_lookup :: "(string \<Rightarrow> evidence option) \<Rightarrow> ('db \<Rightarrow> tables) \<Rightarrow> 'db \<Rightarrow> string \<Rightarrow> string \<Rightarrow> Record option" where
  "sql_lookup unmarshal tables db m fp = record_of (db_records unmarshal (tables db)) m fp"

lemma sql_lookup_Some:
  assumes "sql_wf unmarshal tables db"
  shows "sql_lookup unmarshal tables db m fp = Some r \<longleftrightarrow>
    r \<in> set (db_records unmarshal (tables db)) \<and> f_Module r = m \<and> f_Fingerprint r = fp"
  unfolding sql_lookup_def using assms by (intro record_of_Some) (simp add: sql_wf_def reads_as_def)

lemma put_record_of:
  assumes "distinct (map record_key rs)" and "\<And>p. record_of rs (f_Module r) (f_Fingerprint r) = Some p \<Longrightarrow> same_identity r p"
  shows "record_of (put_record r rs) m fp = (if m = f_Module r \<and> fp = f_Fingerprint r then Some r else record_of rs m fp)"
proof -
  have dist: "distinct (map record_key (put_record r rs))" unfolding put_record_keys using assms(1) by auto
  have keep: "keep_identity p r = r" if "p \<in> set rs" "record_key p = record_key r" for p
    using assms(2) [of p] record_of_Some [OF assms(1)] that by (intro keep_identity_same) simp
  have "record_of (put_record r rs) m fp = Some q \<longleftrightarrow>
      (if m = f_Module r \<and> fp = f_Fingerprint r then q = r else record_of rs m fp = Some q)" for q
    unfolding record_of_Some [OF dist] record_of_Some [OF assms(1)]
    using keep by (auto simp: put_record_def image_iff split: if_splits)
  then have "record_of (put_record r rs) m fp = Some q \<longleftrightarrow>
      (if m = f_Module r \<and> fp = f_Fingerprint r then Some r else record_of rs m fp) = Some q" for q
    by auto
  then show ?thesis by (metis option.exhaust)
qed

lemma sqlite_finding_store:
  assumes d: "faithful d tables"
  shows "finding_store (sqlite_ListByTarget d unmarshal) (sqlite_Upsert d) (sql_lookup unmarshal tables) (sql_wf unmarshal tables)
    (\<lambda>_. True) (sql_okv unmarshal)"
proof (unfold_locales, goal_cases)
  case (1 s m fp r)
  then show ?case by (simp add: sql_lookup_Some)
next
  case (2 s m t rs)
  then have "mset rs = mset (filter (\<lambda>r. f_Module r = m \<and> f_Target r = t) (db_records unmarshal (tables s)))"
    using sqlite_ListByTarget_ok [OF d] by (simp add: sql_wf_def)
  then have "set rs = set (filter (\<lambda>r. f_Module r = m \<and> f_Target r = t) (db_records unmarshal (tables s)))"
    by (rule mset_eq_setD)
  then show ?case using 2(1) by (auto simp: sql_lookup_Some)
next
  case (3 s m t rs)
  let ?rs = "filter (\<lambda>r. f_Module r = m \<and> f_Target r = t) (db_records unmarshal (tables s))"
  have "mset rs = mset ?rs" using sqlite_ListByTarget_ok [OF d] 3 by (simp add: sql_wf_def)
  then have "mset (map f_Fingerprint rs) = mset (map f_Fingerprint ?rs)" unfolding mset_map by simp
  moreover have "distinct (map record_key ?rs)" using 3(1) by (simp add: sql_wf_def reads_as_def distinct_map_filter)
  then have "distinct (map f_Fingerprint ?rs)" by (auto simp: distinct_map inj_on_def)
  ultimately show ?case using mset_eq_imp_distinct_iff by blast
next
  case (4 s m fp r)
  then show ?case by (auto simp: sql_lookup_Some sql_wf_def reads_as_def)
next
  case (5 s r s')
  then have "reads_as unmarshal (tables s') (put_record r (db_records unmarshal (tables s)))"
    using sqlite_Upsert_ok [OF d] by (simp add: sql_wf_def)
  then show ?case unfolding sql_wf_def using reads_as_unique by metis
next
  case (6 s r m s' fp)
  then have "reads_as unmarshal (tables s') (put_record r (db_records unmarshal (tables s)))"
    using sqlite_Upsert_ok [OF d] by (simp add: sql_wf_def)
  then have "db_records unmarshal (tables s') = put_record r (db_records unmarshal (tables s))" using reads_as_unique by metis
  moreover have "distinct (map record_key (db_records unmarshal (tables s)))" using 6(1) by (simp add: sql_wf_def reads_as_def)
  ultimately show ?case using put_record_of 6(6) unfolding sql_lookup_def by presburger
qed

lemma sqlite_total_store:
  assumes "faithful d tables" and "reliable d"
  shows "total_store (sqlite_ListByTarget d unmarshal) (sqlite_Upsert d) (sql_lookup unmarshal tables) (sql_wf unmarshal tables)
    (\<lambda>_. True) (sql_okv unmarshal)"
proof (intro total_store.intro sqlite_finding_store [OF assms(1)] total_store_axioms.intro, goal_cases)
  case (1 s m t)
  then show ?case using query_records_total [OF assms] by (simp add: sqlite_ListByTarget_def sql_wf_def)
next
  case (2 s r)
  then show ?case using sqlite_Upsert_total [OF assms(2)] by blast
qed

section \<open>Retention\<close>

definition expired :: "int \<Rightarrow> Record \<Rightarrow> bool" where
  "expired cutoff r \<longleftrightarrow> f_Status r = StatusResolved \<and> (case f_ResolvedAt r of None \<Rightarrow> False | Some t \<Rightarrow> t < cutoff)"

lemma sqlite_Prune_ok:
  assumes d: "faithful d tables" and rs: "reads_as unmarshal (tables db) rs"
    and run: "sqlite_PruneResolvedBefore d cutoff db = Inr (n, db')"
  shows "reads_as unmarshal (tables db') (filter (\<lambda>r. \<not> expired cutoff r) rs)"
    and "n = Inr k \<Longrightarrow> k = int (length (filter (expired cutoff) rs))"
proof -
  define cs where "cs = [ColEq ''status'' (SText StatusResolved), ColNotNull ''resolved_at'', ColBefore ''resolved_at'' cutoff]"
  have exec: "dr_Exec d (DeleteWhere ''findings'' cs) db = Inr (n, db')"
    using run by (auto simp: sqlite_PruneResolvedBefore_def cs_def split: sum.splits)
  have iff: "where_holds cs row = expired cutoff r" if "row_record unmarshal row = Inr r" for row r
    using that by (auto simp: row_record_Inr where_holds_def cs_def expired_def time_or_null_def split: option.splits)
  have read: "map (row_record unmarshal) (tables db ''findings'') = map Inr rs" using rs by (simp add: reads_as_def)
  have "map (row_record unmarshal) (filter (\<lambda>row. \<not> where_holds cs row) (tables db ''findings'')) =
      map Inr (filter (\<lambda>r. \<not> expired cutoff r) rs)"
    using iff by (intro filter_reads [OF read]) simp
  then show "reads_as unmarshal (tables db') (filter (\<lambda>r. \<not> expired cutoff r) rs)"
    using rs faithful_Exec [OF d exec] by (auto simp: reads_as_def distinct_map_filter)
  have "length (filter (where_holds cs) (tables db ''findings'')) = length (filter (expired cutoff) rs)"
    using arg_cong [OF filter_reads [OF read iff], where f = length] by simp
  then show "n = Inr k \<Longrightarrow> k = int (length (filter (expired cutoff) rs))"
    using faithful_deleted [OF d] exec by metis
qed

section \<open>The production store\<close>

text \<open>C7: The SQLite store implements the list of the records its rows hold: the listings are exactly the records asked for,
  with the last seen first in the full one; a read by key finds the record of that key; a write replaces the record of its key but for the
  fields that identify it, or adds it; the retention deletes exactly the findings resolved before the cutoff and counts them.\<close>

theorem sqlite_implements_records:
  assumes "faithful d tables" and "reads_as unmarshal (tables db) rs"
  shows "(\<forall>m t out. sqlite_ListByTarget d unmarshal db m t = Inr out \<longrightarrow>
      mset out = mset (filter (\<lambda>r. f_Module r = m \<and> f_Target r = t) rs)) \<and>
    (\<forall>m out. sqlite_ListOpen d unmarshal db m = Inr out \<longrightarrow>
      mset out = mset (filter (\<lambda>r. f_Module r = m \<and> f_Status r = StatusOpen) rs)) \<and>
    (\<forall>m out. sqlite_ListAll d unmarshal db m = Inr out \<longrightarrow>
      mset out = mset (filter (\<lambda>r. f_Module r = m) rs) \<and> sorted (rev (map f_LastSeen out))) \<and>
    (\<forall>m fp res. sqlite_Get d unmarshal db m fp = Inr res \<longrightarrow> res = record_of rs m fp) \<and>
    (\<forall>r db'. sql_okv unmarshal (f_Severity r) (f_Evidence r) \<longrightarrow> sqlite_Upsert d r db = Inr db' \<longrightarrow>
      reads_as unmarshal (tables db') (put_record r rs)) \<and>
    (\<forall>cutoff n db'. sqlite_PruneResolvedBefore d cutoff db = Inr (n, db') \<longrightarrow>
      reads_as unmarshal (tables db') (filter (\<lambda>r. \<not> expired cutoff r) rs) \<and>
      (\<forall>k. n = Inr k \<longrightarrow> k = int (length (filter (expired cutoff) rs))))"
proof (intro conjI)
  show "\<forall>m t out. sqlite_ListByTarget d unmarshal db m t = Inr out \<longrightarrow>
      mset out = mset (filter (\<lambda>r. f_Module r = m \<and> f_Target r = t) rs)"
    using sqlite_ListByTarget_ok [OF assms] by blast
  show "\<forall>m out. sqlite_ListOpen d unmarshal db m = Inr out \<longrightarrow>
      mset out = mset (filter (\<lambda>r. f_Module r = m \<and> f_Status r = StatusOpen) rs)"
    using sqlite_ListOpen_ok [OF assms] by blast
  show "\<forall>m out. sqlite_ListAll d unmarshal db m = Inr out \<longrightarrow>
      mset out = mset (filter (\<lambda>r. f_Module r = m) rs) \<and> sorted (rev (map f_LastSeen out))"
    using sqlite_ListAll_ok [OF assms] by blast
  show "\<forall>m fp res. sqlite_Get d unmarshal db m fp = Inr res \<longrightarrow> res = record_of rs m fp"
    using sqlite_Get_ok [OF assms] by blast
  show "\<forall>r db'. sql_okv unmarshal (f_Severity r) (f_Evidence r) \<longrightarrow> sqlite_Upsert d r db = Inr db' \<longrightarrow>
      reads_as unmarshal (tables db') (put_record r rs)"
    using sqlite_Upsert_ok [OF assms] by blast
  show "\<forall>cutoff n db'. sqlite_PruneResolvedBefore d cutoff db = Inr (n, db') \<longrightarrow>
      reads_as unmarshal (tables db') (filter (\<lambda>r. \<not> expired cutoff r) rs) \<and>
      (\<forall>k. n = Inr k \<longrightarrow> k = int (length (filter (expired cutoff) rs)))"
    using sqlite_Prune_ok [OF assms] by blast
qed

text \<open>The engine over the production store.\<close>

definition sqlite_Reconcile where
  "sqlite_Reconcile d unmarshal = Reconcile (sqlite_ListByTarget d unmarshal) (sqlite_Upsert d)"

text \<open>C6: A reconcile run over the SQLite store that returns no error moves every finding of the module by one transition of
  its life cycle and leaves the other modules alone; it returns none when the driver and the identifiers do not fail.\<close>

theorem sqlite_reconcile_life_cycle:
  assumes "faithful d tables" and "sql_wf unmarshal tables db" and "fresh_ok target fresh"
    and "\<forall>f \<in> set fresh. ValidateForIngest f = None \<longrightarrow> sql_okv unmarshal (f_Severity f) (f_Evidence (capEvidence f)) \<and>
      (\<forall>r. sql_lookup unmarshal tables db (mi_ID mi) (f_Fingerprint f) = Some r \<longrightarrow> f_Target r = target)"
    and "sqlite_Reconcile d unmarshal newID now mi target fresh db g = (st, err)"
  shows "(reliable d \<and> total_ids newID \<longrightarrow> err = None) \<and>
    (err = None \<longrightarrow> sql_wf unmarshal tables (rc_store st) \<and>
      (\<forall>fp. transition now mi target (ingested fresh fp) (sql_lookup unmarshal tables db (mi_ID mi) fp)
        (sql_lookup unmarshal tables (rc_store st) (mi_ID mi) fp)) \<and>
      (\<forall>m fp. m \<noteq> mi_ID mi \<longrightarrow> sql_lookup unmarshal tables (rc_store st) m fp = sql_lookup unmarshal tables db m fp))"
proof -
  note store = sqlite_finding_store [OF assms(1), of unmarshal]
  have okf: "\<forall>f \<in> set fresh. ValidateForIngest f = None \<longrightarrow> finding_store.ok_finding (sql_okv unmarshal) f"
    using assms(4) by (simp add: finding_store.ok_finding_def [OF store])
  have foreign: "f_Target r = target" if "f \<in> set fresh" "ValidateForIngest f = None"
    "sql_lookup unmarshal tables db (mi_ID mi) (f_Fingerprint f) = Some r" for f r
    using assms(4) that by blast
  have "err = None" if "reliable d" "total_ids newID"
    using total_store.reconcile_total [OF sqlite_total_store [OF assms(1) that(1)] that(2) assms(2) TrueI okf, where mi = mi and now = now and target = target and g = g]
      assms(5) by (auto simp: sqlite_Reconcile_def)
  moreover have "sql_wf unmarshal tables (rc_store st) \<and>
      transition now mi target (ingested fresh fp) (sql_lookup unmarshal tables db (mi_ID mi) fp)
        (sql_lookup unmarshal tables (rc_store st) (mi_ID mi) fp) \<and>
      (m \<noteq> mi_ID mi \<longrightarrow> sql_lookup unmarshal tables (rc_store st) m fp = sql_lookup unmarshal tables db m fp)"
    if "err = None" for m fp
  proof -
    have run: "Reconcile (sqlite_ListByTarget d unmarshal) (sqlite_Upsert d) newID now mi target fresh db g = (st, None)"
      using assms(5) that by (simp add: sqlite_Reconcile_def)
    note T = finding_store.reconcile_transitions [OF store assms(2) TrueI TrueI assms(3) foreign okf run]
    show ?thesis using T(1) T(2) [where fp = fp] T(3) [where m = m and fp = fp] by simp
  qed
  ultimately show ?thesis by blast
qed

section \<open>Targets\<close>

text \<open>The rows of the targets table as triples of module, raw and canonical form.\<close>

definition target_row :: "row \<Rightarrow> string \<times> string \<times> string \<Rightarrow> bool" where
  "target_row row t \<longleftrightarrow> row ''module'' = SText (fst t) \<and> row ''raw'' = SText (fst (snd t)) \<and> row ''canonical'' = SText (snd (snd t))"

definition targets_as :: "tables \<Rightarrow> (string \<times> string \<times> string) list \<Rightarrow> bool" where
  "targets_as tb ts \<longleftrightarrow> list_all2 target_row (tb ''targets'') ts"

definition targets_of :: "(string \<times> string \<times> string) list \<Rightarrow> string \<Rightarrow> memTarget list" where
  "targets_of ts m = map (\<lambda>(_, r, c). \<lparr>mt_raw = r, mt_canonical = c\<rparr>) (filter (\<lambda>t. fst t = m) ts)"

text \<open>A database and an in-memory store with the same targets.\<close>

definition same_targets :: "tables \<Rightarrow> MemStore \<Rightarrow> bool" where
  "same_targets tb s \<longleftrightarrow> (\<exists>ts. targets_as tb ts \<and> (\<forall>m. saved_targets s m = targets_of ts m))"

lemma targets_after_update: "saved_targets (s\<lparr>ms_targets := AList.update m ts (ms_targets s)\<rparr>) m' = (if m' = m then ts else saved_targets s m')"
  by (simp add: saved_targets_def update_conv')

lemma same_targets_Save:
  assumes d: "faithful d tables" and same: "same_targets (tables db) s"
    and run: "sqlite_SaveTarget d m raw canonical db = Inr db'"
  shows "same_targets (tables db') (mem_SaveTarget m raw canonical s)"
proof -
  obtain ts where ts: "targets_as (tables db) ts" "\<And>m. saved_targets s m = targets_of ts m"
    using same by (auto simp: same_targets_def)
  let ?vals = "[(''module'', SText m), (''raw'', SText raw), (''canonical'', SText canonical)]"
  obtain n where exec: "dr_Exec d (InsertOnConflict ''targets'' ?vals [''module'', ''canonical''] DoNothing) db = Inr (n, db')"
    using run by (auto simp: sqlite_SaveTarget_def split: sum.splits)
  define new where "new = new_row ?vals"
  have new: "new ''module'' = SText m" "new ''raw'' = SText raw" "new ''canonical'' = SText canonical"
    by (simp_all add: new_def new_row_def)
  have found: "list_ex (same_key [''module'', ''canonical''] new) rows \<longleftrightarrow> list_ex (\<lambda>t. mt_canonical t = canonical) (targets_of ts m)"
    if "list_all2 target_row rows ts" for rows ts
    using that
    by (induction rows ts rule: list_all2_induct) (auto simp: target_row_def targets_of_def same_key_def new)
  have tb': "tables db' ''targets'' =
      (if list_ex (\<lambda>t. mt_canonical t = canonical) (targets_of ts m) then tables db ''targets'' else tables db ''targets'' @ [new])"
    using faithful_Exec [OF d exec] found [OF ts(1) [unfolded targets_as_def]] by (simp add: insert_row_def new_def)
  show ?thesis
  proof (cases "list_ex (\<lambda>t. mt_canonical t = canonical) (targets_of ts m)")
    case True
    then show ?thesis using ts tb' unfolding same_targets_def targets_as_def by (auto simp: mem_SaveTarget_def)
  next
    case False
    then have "targets_as (tables db') (ts @ [(m, raw, canonical)])"
      using ts(1) tb' new False by (simp add: targets_as_def list_all2_appendI target_row_def)
    moreover have "saved_targets (mem_SaveTarget m raw canonical s) m' = targets_of (ts @ [(m, raw, canonical)]) m'" for m'
      using False ts(2) by (simp add: mem_SaveTarget_def targets_after_update targets_of_def)
    ultimately show ?thesis unfolding same_targets_def by blast
  qed
qed

lemma same_targets_Delete:
  assumes d: "faithful d tables" and same: "same_targets (tables db) s"
    and run: "sqlite_DeleteTarget d m canonical db = Inr db'"
  shows "same_targets (tables db') (mem_DeleteTarget m canonical s)"
proof -
  obtain ts where ts: "targets_as (tables db) ts" "\<And>m. saved_targets s m = targets_of ts m"
    using same by (auto simp: same_targets_def)
  let ?cs = "[ColEq ''module'' (SText m), ColEq ''canonical'' (SText canonical)]"
  obtain n where exec: "dr_Exec d (DeleteWhere ''targets'' ?cs) db = Inr (n, db')"
    using run by (auto simp: sqlite_DeleteTarget_def split: sum.splits)
  define ts' where "ts' = filter (\<lambda>t. \<not> (fst t = m \<and> snd (snd t) = canonical)) ts"
  have "list_all2 target_row (filter (\<lambda>row. \<not> where_holds ?cs row) rows)
      (filter (\<lambda>t. \<not> (fst t = m \<and> snd (snd t) = canonical)) ts)"
    if "list_all2 target_row rows ts" for rows ts
    using that
    by (induction rows ts rule: list_all2_induct) (auto simp: target_row_def where_holds_def)
  then have "targets_as (tables db') ts'"
    using faithful_Exec [OF d exec] ts(1) by (simp add: targets_as_def ts'_def)
  moreover have "targets_of ts' m' = (if m' = m then filter (\<lambda>t. mt_canonical t \<noteq> canonical) (targets_of ts m') else targets_of ts m')" for m'
    unfolding ts'_def targets_of_def by (induction ts) auto
  then have "saved_targets (mem_DeleteTarget m canonical s) m' = targets_of ts' m'" for m'
    by (simp add: mem_DeleteTarget_def targets_after_update ts(2))
  ultimately show ?thesis unfolding same_targets_def by blast
qed

lemma same_targets_List:
  assumes d: "faithful d tables" and same: "same_targets (tables db) s"
    and run: "sqlite_ListSavedTargets d db m = Inr out"
  shows "out = mem_ListSavedTargets s m"
proof -
  obtain ts where ts: "targets_as (tables db) ts" "\<And>m. saved_targets s m = targets_of ts m"
    using same by (auto simp: same_targets_def)
  let ?cs = "[ColEq ''module'' (SText m)]"
  obtain vals where q: "dr_Query d (Select [''raw''] ''targets'' ?cs OrderRowid) db = Inr vals" "scan_raws vals = Inr out"
    using run by (auto simp: sqlite_ListSavedTargets_def split: sum.splits)
  from faithful_Query [OF d q(1)] have vals: "vals = map (\<lambda>r. map r [''raw'']) (filter (where_holds ?cs) (tables db ''targets''))"
    by (metis in_order.simps(4))
  have "scan_raws (map (\<lambda>r. map r [''raw'']) (filter (where_holds ?cs) rows)) = Inr (map mt_raw (targets_of ts m))"
    if "list_all2 target_row rows ts" for rows ts
    using that
    by (induction rows ts rule: list_all2_induct) (auto simp: target_row_def where_holds_def targets_of_def)
  then show ?thesis using q(2) vals ts by (simp add: targets_as_def mem_ListSavedTargets_def)
qed

text \<open>C12: The targets of the SQLite store are those of the in-memory store after the same operations: whichever of
  them is applied to both, they agree again, and the listing that a restart reads is the same, in the order of the first saves.\<close>

theorem sqlite_targets_refine_memory:
  assumes "faithful d tables" and "same_targets (tables db) s"
  shows "(\<forall>m raw canonical db'. sqlite_SaveTarget d m raw canonical db = Inr db' \<longrightarrow>
      same_targets (tables db') (mem_SaveTarget m raw canonical s)) \<and>
    (\<forall>m canonical db'. sqlite_DeleteTarget d m canonical db = Inr db' \<longrightarrow>
      same_targets (tables db') (mem_DeleteTarget m canonical s)) \<and>
    (\<forall>m out. sqlite_ListSavedTargets d db m = Inr out \<longrightarrow> out = mem_ListSavedTargets s m)"
  using same_targets_Save [OF assms] same_targets_Delete [OF assms] same_targets_List [OF assms] by blast

section \<open>An example\<close>

text \<open>The reference driver on empty tables, and a decoder that knows the evidence of the example.\<close>

definition ex_tables :: tables where
  "ex_tables = (\<lambda>t. [])"

definition ex_unmarshal :: "string \<Rightarrow> evidence option" where
  "ex_unmarshal b = (if f_Evidence ex_finding \<noteq> None \<and> marshal_evidence (the (f_Evidence ex_finding)) = Some b
     then f_Evidence ex_finding else None)"

lemma ex_reads: "reads_as ex_unmarshal ex_tables []" and ex_records: "db_records ex_unmarshal ex_tables = []"
  by (simp_all add: reads_as_def ex_tables_def db_records_def)

lemma ex_evidence: "\<exists>b. marshal_evidence [(''line'', JInt 3)] = Some b \<and> length b \<le> MaxEvidenceBytes"
proof -
  have "marshal_evidence [(''line'', JInt 3)] = Some ''{\"line\":3}''" by code_simp
  then show ?thesis by (simp add: MaxEvidenceBytes_def)
qed

lemma ex_okv: "sql_okv ex_unmarshal (f_Severity ex_finding) (f_Evidence ex_finding)"
proof -
  have "Severity_of (severity_str (f_Severity ex_finding)) = f_Severity ex_finding"
    by (rule known_severity) (simp add: ex_finding_def Valid_def)
  then show ?thesis using ex_evidence by (auto simp: sql_okv_def ex_unmarshal_def ex_finding_def)
qed

lemma ex_capped: "capEvidence ex_finding = ex_finding"
  using ex_evidence by (auto simp: capEvidence_def ex_finding_def)

lemma ex_record_okv: "sql_okv ex_unmarshal (f_Severity ex_record) (f_Evidence ex_record)"
  using ex_okv by (simp add: ex_record_def)

theorem sqlite_implements_records_witness:
  "\<exists>db'. sqlite_Upsert ref_driver ex_record ex_tables = Inr db' \<and> reads_as ex_unmarshal db' [ex_record]"
proof -
  obtain db' where run: "sqlite_Upsert ref_driver ex_record ex_tables = Inr db'"
    using sqlite_Upsert_total [OF ref_driver_reliable ex_record_okv] by blast
  have "put_record ex_record [] = [ex_record]" by (simp add: put_record_def)
  moreover have "\<forall>r db'. sql_okv ex_unmarshal (f_Severity r) (f_Evidence r) \<longrightarrow> sqlite_Upsert ref_driver r ex_tables = Inr db' \<longrightarrow>
      reads_as ex_unmarshal db' (put_record r [])"
    using sqlite_implements_records [OF ref_driver_faithful, of ex_unmarshal ex_tables "[]"] ex_reads by blast
  ultimately show ?thesis using ex_record_okv run by auto
qed

theorem sqlite_reconcile_life_cycle_witness:
  "\<exists>st fid. sqlite_Reconcile ref_driver ex_unmarshal ex_ids 5 ex_info ''edge'' [ex_finding] ex_tables 1 = (st, None) \<and>
    sql_lookup ex_unmarshal (\<lambda>db. db) (rc_store st) ''rulehawk'' ''f1'' = Some (new_record fid ''rulehawk'' 5 ex_finding)"
proof -
  obtain st err where run: "sqlite_Reconcile ref_driver ex_unmarshal ex_ids 5 ex_info ''edge'' [ex_finding] ex_tables 1 = (st, err)"
    by (cases "sqlite_Reconcile ref_driver ex_unmarshal ex_ids 5 ex_info ''edge'' [ex_finding] ex_tables 1") blast
  have wf: "sql_wf ex_unmarshal (\<lambda>db. db) ex_tables" using ex_reads by (simp add: sql_wf_def ex_records)
  have none: "sql_lookup ex_unmarshal (\<lambda>db. db) ex_tables m fp = None" for m fp
    by (simp add: sql_lookup_def ex_records record_of_def)
  have fresh: "fresh_ok ''edge'' [ex_finding]" by (simp add: fresh_ok_def ex_finding_def)
  have ok: "\<forall>f \<in> set [ex_finding]. ValidateForIngest f = None \<longrightarrow>
      sql_okv ex_unmarshal (f_Severity f) (f_Evidence (capEvidence f)) \<and>
      (\<forall>r. sql_lookup ex_unmarshal (\<lambda>db. db) ex_tables (mi_ID ex_info) (f_Fingerprint f) = Some r \<longrightarrow> f_Target r = ''edge'')"
    using ex_okv by (simp add: ex_capped none)
  have id: "mi_ID ex_info = ''rulehawk''" "f_Fingerprint ex_finding = ''f1''" by (simp_all add: ex_info_def ex_finding_def)
  from sqlite_reconcile_life_cycle [OF ref_driver_faithful wf fresh ok run] have "err = None"
    "transition 5 ex_info ''edge'' (ingested [ex_finding] ''f1'') None (sql_lookup ex_unmarshal (\<lambda>db. db) (rc_store st) ''rulehawk'' ''f1'')"
    using ref_driver_reliable ex_total by (auto simp: none id)
  then show ?thesis using run by (auto simp: transition_def ingested_def ex_valid id ex_capped)
qed

theorem sqlite_targets_refine_memory_witness:
  "\<exists>db'. sqlite_SaveTarget ref_driver ''rulehawk'' ''edge'' ''edge'' ex_tables = Inr db' \<and>
    same_targets db' (mem_SaveTarget ''rulehawk'' ''edge'' ''edge'' NewMemStore)"
proof -
  have "same_targets ex_tables NewMemStore"
    unfolding same_targets_def
    by (intro exI [of _ "[]"]) (simp add: targets_as_def ex_tables_def saved_targets_def NewMemStore_def targets_of_def)
  moreover obtain db' where "sqlite_SaveTarget ref_driver ''rulehawk'' ''edge'' ''edge'' ex_tables = Inr db'"
    by (auto simp: sqlite_SaveTarget_def ref_driver_def)
  ultimately show ?thesis using sqlite_targets_refine_memory [OF ref_driver_faithful, of ex_tables NewMemStore] by simp
qed

end
