(* ===== verification/SqlTable.thy ===== *)
theory SqlTable
  imports SqlSpec
begin

text \<open>
  Tables whose rows read as values with a key: what an insert that updates on conflict, a delete and a query do to the map
  from keys to values. The config store and the store of challenges are two such tables.
\<close>

section \<open>The map of a table\<close>

definition table_rows :: "(row \<Rightarrow> string + 'a) \<Rightarrow> string \<Rightarrow> tables \<Rightarrow> 'a list" where
  "table_rows read t tb = map projr (map read (tb t))"

definition table_as :: "(row \<Rightarrow> string + 'a) \<Rightarrow> ('a \<Rightarrow> 'k) \<Rightarrow> string \<Rightarrow> tables \<Rightarrow> 'a list \<Rightarrow> bool" where
  "table_as read key t tb xs \<longleftrightarrow> map read (tb t) = map Inr xs \<and> distinct (map key xs)"

definition table_wf :: "(row \<Rightarrow> string + 'a) \<Rightarrow> ('a \<Rightarrow> 'k) \<Rightarrow> string \<Rightarrow> tables \<Rightarrow> bool" where
  "table_wf read key t tb \<longleftrightarrow> table_as read key t tb (table_rows read t tb)"

definition keyed_list :: "('a \<Rightarrow> 'k) \<Rightarrow> 'a list \<Rightarrow> ('k \<times> 'a) list" where
  "keyed_list key xs = map (\<lambda>x. (key x, x)) xs"

definition table_view :: "(row \<Rightarrow> string + 'a) \<Rightarrow> ('a \<Rightarrow> 'k) \<Rightarrow> string \<Rightarrow> tables \<Rightarrow> 'k \<Rightarrow> 'a option" where
  "table_view read key t tb = map_of (keyed_list key (table_rows read t tb))"

definition put_keyed :: "('a \<Rightarrow> 'k) \<Rightarrow> 'a \<Rightarrow> 'a list \<Rightarrow> 'a list" where
  "put_keyed key x xs = (if key x \<in> key ` set xs then map (\<lambda>y. if key y = key x then x else y) xs else xs @ [x])"

lemma table_as_rows: "table_as read key t tb xs \<Longrightarrow> table_rows read t tb = xs \<and> table_wf read key t tb"
  by (simp add: table_as_def table_rows_def table_wf_def comp_def)

lemma keyed_list_fst [simp]: "map fst (keyed_list key xs) = map key xs"
  by (simp add: keyed_list_def)

lemma map_of_keyed:
  assumes "distinct (map key xs)"
  shows "map_of (keyed_list key xs) k = Some x \<longleftrightarrow> x \<in> set xs \<and> key x = k"
proof -
  have "map_of (keyed_list key xs) k = Some x \<longleftrightarrow> (k, x) \<in> set (keyed_list key xs)"
    using assms by (intro map_of_eq_Some_iff) simp
  then show ?thesis by (auto simp: keyed_list_def)
qed

lemma table_view_Some:
  assumes "table_wf read key t tb"
  shows "table_view read key t tb k = Some x \<longleftrightarrow> x \<in> set (table_rows read t tb) \<and> key x = k"
  using assms unfolding table_view_def table_wf_def table_as_def by (intro map_of_keyed) blast

lemma table_view_dom:
  assumes "table_wf read key t tb"
  shows "finite (dom (table_view read key t tb))" "card (dom (table_view read key t tb)) = length (table_rows read t tb)"
  using assms
  by (simp_all add: table_view_def dom_map_of_conv_image_fst table_wf_def table_as_def distinct_card flip: set_map)

lemma map_of_keyed_filter: "map_of (keyed_list key (filter (\<lambda>x. key x \<noteq> k) xs)) = (map_of (keyed_list key xs))(k := None)"
  by (induction xs) (auto simp: keyed_list_def)

lemma put_keyed_keys: "map key (put_keyed key x xs) = map key xs @ (if key x \<in> key ` set xs then [] else [key x])"
  by (auto simp: put_keyed_def)

lemma map_of_put_keyed:
  assumes "distinct (map key xs)"
  shows "map_of (keyed_list key (put_keyed key x xs)) = (map_of (keyed_list key xs))(key x \<mapsto> x)"
proof
  fix k
  have dist: "distinct (map key (put_keyed key x xs))" unfolding put_keyed_keys using assms by auto
  have "map_of (keyed_list key (put_keyed key x xs)) k = Some q \<longleftrightarrow> ((map_of (keyed_list key xs))(key x \<mapsto> x)) k = Some q" for q
    unfolding map_of_keyed [OF dist] fun_upd_def using map_of_keyed [OF assms]
    by (auto simp: put_keyed_def image_iff split: if_splits)
  then show "map_of (keyed_list key (put_keyed key x xs)) k = ((map_of (keyed_list key xs))(key x \<mapsto> x)) k"
    by (metis option.exhaust)
qed

section \<open>Queries\<close>

text \<open>A listing reads as a permutation of the values that its condition selects.\<close>

lemma table_list:
  assumes d: "faithful d tables" and wf: "table_wf read key t (tables db)"
    and iff: "\<And>row x. read row = Inr x \<Longrightarrow> where_holds cs row = P x"
    and q: "dr_Query d (Select cols t cs ord) db = Inr vals"
  shows "\<exists>rows ys. vals = map (\<lambda>r. map r cols) rows \<and> map read rows = map Inr ys \<and>
    mset ys = mset (filter P (table_rows read t (tables db)))"
proof -
  obtain rows where rows: "vals = map (\<lambda>r. map r cols) rows" "mset rows = mset (filter (where_holds cs) (tables db t))"
    using faithful_Query [OF d q] by metis
  have "map read (tables db t) = map Inr (table_rows read t (tables db))"
    using wf by (simp add: table_wf_def table_as_def)
  from filter_reads [OF this iff] have kept: "map read (filter (where_holds cs) (tables db t)) =
      map Inr (filter P (table_rows read t (tables db)))" .
  have img: "read ` set rows = Inr ` set (filter P (table_rows read t (tables db)))"
    unfolding mset_eq_setD [OF rows(2)] using arg_cong [OF kept, of set] by (simp only: set_map)
  have "read row = Inr (projr (read row))" if "row \<in> set rows" for row
  proof -
    have "read row \<in> Inr ` set (filter P (table_rows read t (tables db)))" unfolding img [symmetric] using that by simp
    then show ?thesis by auto
  qed
  then have "map read rows = map (\<lambda>row. Inr (projr (read row))) rows" by (intro map_cong refl) blast
  then have "map read rows = map Inr (map projr (map read rows))" unfolding map_map comp_def .
  moreover have "mset (map projr (map read rows)) = mset (map projr (map read (filter (where_holds cs) (tables db t))))"
    using rows(2) by simp
  then have "mset (map projr (map read rows)) = mset (filter P (table_rows read t (tables db)))"
    unfolding kept by (simp add: comp_def)
  ultimately show ?thesis using rows(1) by blast
qed

text \<open>A query by key gives the row of the value under it.\<close>

lemma table_get:
  assumes d: "faithful d tables" and wf: "table_wf read key t (tables db)"
    and iff: "\<And>row x. read row = Inr x \<Longrightarrow> where_holds cs row = (key x = k)"
    and q: "dr_Query d (Select cols t cs ord) db = Inr vals"
  shows "vals = [] \<and> table_view read key t (tables db) k = None \<or>
    (\<exists>row x. vals = [map row cols] \<and> read row = Inr x \<and> table_view read key t (tables db) k = Some x)"
proof -
  let ?xs = "table_rows read t (tables db)" and ?P = "\<lambda>x. key x = k"
  have read: "map read (tables db t) = map Inr ?xs" and dist: "distinct (map key ?xs)"
    using wf by (simp_all add: table_wf_def table_as_def)
  have "length (filter ?P ?xs) \<le> 1"
    using dist by (intro at_most_one [where f = key and k = k]) (simp_all add: distinct_map_filter)
  from query_unique [OF d read iff this q] consider "vals = []" "filter ?P ?xs = []"
    | row x where "vals = [map row cols]" "read row = Inr x" "filter ?P ?xs = [x]" by blast
  then show ?thesis
  proof cases
    case 1
    then have "\<nexists>x. table_view read key t (tables db) k = Some x"
      unfolding table_view_Some [OF wf] by (auto simp: filter_empty_conv)
    with 1 show ?thesis by simp
  next
    case 2
    then have "x \<in> set (filter ?P ?xs)" by simp
    then have "table_view read key t (tables db) k = Some x" by (simp add: table_view_Some [OF wf])
    with 2(1,2) show ?thesis by blast
  qed
qed

lemma table_delete:
  assumes d: "faithful d tables" and wf: "table_wf read key t (tables db)"
    and iff: "\<And>row x. read row = Inr x \<Longrightarrow> where_holds cs row = (key x = k)"
    and exec: "dr_Exec d (DeleteWhere t cs) db = Inr (n, db')"
  shows "table_wf read key t (tables db') \<and> table_view read key t (tables db') = (table_view read key t (tables db))(k := None)"
proof -
  let ?xs = "table_rows read t (tables db)"
  have read: "map read (tables db t) = map Inr ?xs" and dist: "distinct (map key ?xs)"
    using wf by (simp_all add: table_wf_def table_as_def)
  have "map read (filter (\<lambda>row. \<not> where_holds cs row) (tables db t)) = map Inr (filter (\<lambda>x. key x \<noteq> k) ?xs)"
    by (rule filter_reads [OF read]) (simp add: iff)
  then have "table_as read key t (tables db') (filter (\<lambda>x. key x \<noteq> k) ?xs)"
    using dist faithful_Exec [OF d exec] by (simp add: table_as_def distinct_map_filter)
  from table_as_rows [OF this] show ?thesis by (simp add: table_view_def map_of_keyed_filter)
qed

section \<open>Inserts\<close>

text \<open>The columns of a value and those that an insert updates, with the laws of reading them back.\<close>

locale keyed_table =
  fixes t :: string and keycols :: "string list" and upd :: "string list"
    and read :: "row \<Rightarrow> string + 'a" and values_of :: "'a \<Rightarrow> (string \<times> sqlval) list"
    and key :: "'a \<Rightarrow> 'k" and ok :: "'a \<Rightarrow> bool"
  assumes read_new: "ok x \<Longrightarrow> read (new_row (values_of x)) = Inr x"
    and key_cols: "ok x \<Longrightarrow> read row = Inr y \<Longrightarrow> same_key keycols (new_row (values_of x)) row \<longleftrightarrow> key y = key x"
    and updated: "ok x \<Longrightarrow> read row = Inr y \<Longrightarrow> key y = key x \<Longrightarrow>
      read (\<lambda>c. if c \<in> set upd then new_row (values_of x) c else row c) = Inr x"
begin

lemma upsert:
  assumes d: "faithful d tables" and wf: "table_wf read key t (tables db)" and x: "ok x"
    and exec: "dr_Exec d (InsertOnConflict t (values_of x) keycols (DoUpdate upd)) db = Inr (n, db')"
  shows "table_wf read key t (tables db') \<and> table_view read key t (tables db') = (table_view read key t (tables db))(key x \<mapsto> x)"
proof -
  let ?xs = "table_rows read t (tables db)" and ?new = "new_row (values_of x)"
  have read: "map read (tables db t) = map Inr ?xs" and dist: "distinct (map key ?xs)"
    using wf by (simp_all add: table_wf_def table_as_def)
  let ?upd = "\<lambda>row. if same_key keycols ?new row then (\<lambda>c. if c \<in> set upd then ?new c else row c) else row"
  have "(list_ex (same_key keycols ?new) rows \<longleftrightarrow> key x \<in> key ` set ys) \<and>
      map read (map ?upd rows) = map Inr (map (\<lambda>y. if key y = key x then x else y) ys)"
    if "map read rows = map Inr ys" for rows ys
    using that
  proof (induction rows arbitrary: ys)
    case (Cons row rows)
    then obtain y zs where y: "ys = y # zs" "read row = Inr y" "map read rows = map Inr zs" by (cases ys) auto
    have "read (?upd row) = Inr (if key y = key x then x else y)"
      using key_cols [OF x y(2)] updated [OF x y(2)] y(2) by simp
    then show ?case using Cons.IH [OF y(3)] key_cols [OF x y(2)] y(1) by auto
  qed simp
  from this [OF read] have "map read (insert_row ?new keycols (DoUpdate upd) (tables db t)) = map Inr (put_keyed key x ?xs)"
    using read read_new [OF x] by (auto simp: insert_row_def put_keyed_def)
  moreover have "distinct (map key (put_keyed key x ?xs))"
    unfolding put_keyed_keys using dist by auto
  ultimately have "table_as read key t (tables db') (put_keyed key x ?xs)"
    using faithful_Exec [OF d exec] by (simp add: table_as_def)
  from table_as_rows [OF this] show ?thesis using map_of_put_keyed [OF dist] by (simp add: table_view_def)
qed

end

end
