(* ===== verification/SqlConfig.thy ===== *)
theory SqlConfig
  imports SqlTable RulehawkSpec
begin

text \<open>
  Package \<open>rulehawk\<close>, file \<open>sqlite.go\<close>: the production store of configs, and its interpretation of the contract that
  the console and the collector rely on.
\<close>

section \<open>The store\<close>

definition configCols :: "string list" where
  "configCols = [''name'', ''vendor'', ''current'', ''baseline'', ''updated_at'']"

definition sqlcfg_New :: "'db driver \<Rightarrow> 'db \<Rightarrow> string + 'db" where
  "sqlcfg_New d db =
     (case dr_Exec d (CreateTable ''rulehawk_configs'' configCols) db of Inl err \<Rightarrow> Inl err | Inr (_, db) \<Rightarrow> Inr db)"

definition config_row :: "Config \<Rightarrow> (string \<times> sqlval) list" where
  "config_row c = zip configCols
     [SText (c_Name c), SText (c_Vendor c), SText (c_Current c), SText (c_Baseline c), STime (c_UpdatedAt c)]"

text \<open>\<open>now\<close> is the time of the call.\<close>

definition sqlcfg_PutConfig :: "'db driver \<Rightarrow> int \<Rightarrow> Config \<Rightarrow> 'db \<Rightarrow> string + 'db" where
  "sqlcfg_PutConfig d now c db =
     (let c = (if c_UpdatedAt c = 0 then c\<lparr>c_UpdatedAt := now\<rparr> else c) in
      case dr_Exec d (InsertOnConflict ''rulehawk_configs'' (config_row c) [''name'']
          (DoUpdate [''vendor'', ''current'', ''baseline'', ''updated_at''])) db of
        Inl err \<Rightarrow> Inl err
      | Inr (_, db) \<Rightarrow> Inr db)"

definition scanConfig :: "sqlval list \<Rightarrow> string + Config" where
  "scanConfig row =
     (if length row \<noteq> 5 then Inl ''expected 5 destination arguments in Scan''
      else
        scan_then (text_col (row ! 0)) (\<lambda>name. scan_then (text_col (row ! 1)) (\<lambda>vendor. scan_then (text_col (row ! 2)) (\<lambda>current.
        scan_then (text_col (row ! 3)) (\<lambda>baseline. scan_then (time_col (row ! 4)) (\<lambda>updated.
          Inr \<lparr>c_Name = name, c_Vendor = vendor, c_Current = current, c_Baseline = baseline,
            c_HasBase = (TrimSpace baseline \<noteq> ''''), c_UpdatedAt = updated\<rparr>))))))"

fun scanConfigs :: "sqlval list list \<Rightarrow> string + Config list" where
  "scanConfigs [] = Inr []"
| "scanConfigs (row # rows) =
     (case scanConfig row of
        Inl err \<Rightarrow> Inl err
      | Inr c \<Rightarrow> (case scanConfigs rows of Inl err \<Rightarrow> Inl err | Inr out \<Rightarrow> Inr (c # out)))"

definition sqlcfg_GetConfig :: "'db driver \<Rightarrow> string \<Rightarrow> 'db \<Rightarrow> string + Config option" where
  "sqlcfg_GetConfig d name db =
     (case dr_Query d (Select configCols ''rulehawk_configs'' [ColEq ''name'' (SText name)] AnyOrder) db of
        Inl err \<Rightarrow> Inl err
      | Inr [] \<Rightarrow> Inr None
      | Inr (row # _) \<Rightarrow> (case scanConfig row of Inl err \<Rightarrow> Inl err | Inr c \<Rightarrow> Inr (Some c)))"

definition sqlcfg_ListConfigs :: "'db driver \<Rightarrow> 'db \<Rightarrow> string + Config list" where
  "sqlcfg_ListConfigs d db =
     (case dr_Query d (Select configCols ''rulehawk_configs'' [] (OrderAsc ''name'')) db of
        Inl err \<Rightarrow> Inl err
      | Inr rows \<Rightarrow> scanConfigs rows)"

definition sqlcfg_DeleteConfig :: "'db driver \<Rightarrow> string \<Rightarrow> 'db \<Rightarrow> string + 'db" where
  "sqlcfg_DeleteConfig d name db =
     (case dr_Exec d (DeleteWhere ''rulehawk_configs'' [ColEq ''name'' (SText name)]) db of
        Inl err \<Rightarrow> Inl err
      | Inr (_, db) \<Rightarrow> Inr db)"

definition sqlcfg_Store :: "'db driver \<Rightarrow> int \<Rightarrow> 'db ConfigStore" where
  "sqlcfg_Store d now = \<lparr>s_PutConfig = sqlcfg_PutConfig d now, s_GetConfig = sqlcfg_GetConfig d,
     s_ListConfigs = sqlcfg_ListConfigs d, s_DeleteConfig = sqlcfg_DeleteConfig d\<rparr>"

section \<open>The abstraction\<close>

definition row_config :: "row \<Rightarrow> string + Config" where
  "row_config row = scanConfig (map row configCols)"

lemma row_config_Inr:
  "row_config row = Inr c \<longleftrightarrow> row ''name'' = SText (c_Name c) \<and> row ''vendor'' = SText (c_Vendor c) \<and>
    row ''current'' = SText (c_Current c) \<and> row ''baseline'' = SText (c_Baseline c) \<and>
    c_HasBase c = (TrimSpace (c_Baseline c) \<noteq> '''') \<and> row ''updated_at'' = STime (c_UpdatedAt c)"
  unfolding row_config_def scanConfig_def configCols_def by (cases c) auto

definition sqlcfg_wf :: "('db \<Rightarrow> tables) \<Rightarrow> 'db \<Rightarrow> bool" where
  "sqlcfg_wf tables db \<longleftrightarrow> table_wf row_config c_Name ''rulehawk_configs'' (tables db)"

definition sqlcfg_view :: "('db \<Rightarrow> tables) \<Rightarrow> 'db \<Rightarrow> string \<Rightarrow> Config option" where
  "sqlcfg_view tables db = table_view row_config c_Name ''rulehawk_configs'' (tables db)"

definition base_known :: "Config \<Rightarrow> bool" where
  "base_known c \<longleftrightarrow> c_HasBase c = (TrimSpace (c_Baseline c) \<noteq> '''')"

lemma config_row_cols:
  "new_row (config_row c) ''name'' = SText (c_Name c)" "new_row (config_row c) ''vendor'' = SText (c_Vendor c)"
  "new_row (config_row c) ''current'' = SText (c_Current c)" "new_row (config_row c) ''baseline'' = SText (c_Baseline c)"
  "new_row (config_row c) ''updated_at'' = STime (c_UpdatedAt c)"
  by (simp_all add: new_row_def config_row_def configCols_def)

interpretation cfg: keyed_table "''rulehawk_configs''" "[''name'']" "[''vendor'', ''current'', ''baseline'', ''updated_at'']"
  row_config config_row c_Name base_known
  by unfold_locales (auto simp: row_config_Inr config_row_cols base_known_def same_key_def)

lemma config_key: "row_config row = Inr c \<Longrightarrow> where_holds [ColEq ''name'' (SText name)] row = (c_Name c = name)"
  by (auto simp: where_holds_def row_config_Inr)

lemma scanConfigs_map:
  "map row_config rows = map Inr cs \<Longrightarrow> scanConfigs (map (\<lambda>r. map r configCols) rows) = Inr cs"
proof (induction rows arbitrary: cs)
  case (Cons row rows)
  then obtain c cs2 where c: "cs = c # cs2" "row_config row = Inr c" "map row_config rows = map Inr cs2" by (cases cs) auto
  moreover have "scanConfig (map row configCols) = Inr c" using c(2) by (simp add: row_config_def)
  ultimately show ?case using Cons.IH [OF c(3)] by simp
qed simp

section \<open>The contract\<close>

lemma sqlcfg_Get_ok:
  assumes d: "faithful d tables" "reliable d" and wf: "sqlcfg_wf tables db"
  shows "sqlcfg_GetConfig d name db = Inr (sqlcfg_view tables db name)"
proof -
  obtain vals where q: "dr_Query d (Select configCols ''rulehawk_configs'' [ColEq ''name'' (SText name)] AnyOrder) db = Inr vals"
    using d(2) by (meson reliable_def)
  from table_get [OF d(1) wf [unfolded sqlcfg_wf_def] config_key q] show ?thesis
    using q by (auto simp: sqlcfg_GetConfig_def sqlcfg_view_def simp flip: row_config_def)
qed

lemma sqlcfg_List_ok:
  assumes d: "faithful d tables" "reliable d" and wf: "sqlcfg_wf tables db"
  shows "\<exists>out. sqlcfg_ListConfigs d db = Inr out \<and> length out = card (dom (sqlcfg_view tables db))"
proof -
  obtain vals where q: "dr_Query d (Select configCols ''rulehawk_configs'' [] (OrderAsc ''name'')) db = Inr vals"
    using d(2) by (meson reliable_def)
  have "where_holds [] row = True" for row by (simp add: where_holds_def)
  from table_list [OF d(1) wf [unfolded sqlcfg_wf_def] this q] obtain rows cs where
    cs: "vals = map (\<lambda>r. map r configCols) rows" "map row_config rows = map Inr cs"
      "mset cs = mset (filter (\<lambda>_. True) (table_rows row_config ''rulehawk_configs'' (tables db)))" by blast
  have "length cs = length (table_rows row_config ''rulehawk_configs'' (tables db))"
    using mset_eq_length [OF cs(3)] by simp
  then show ?thesis
    using q scanConfigs_map [OF cs(2)] cs(1) table_view_dom(2) [OF wf [unfolded sqlcfg_wf_def]]
    by (simp add: sqlcfg_ListConfigs_def sqlcfg_view_def)
qed

lemma sqlcfg_Put_ok:
  assumes d: "faithful d tables" "reliable d" and wf: "sqlcfg_wf tables db"
  shows "\<exists>db' c'. sqlcfg_PutConfig d now c db = Inr db' \<and> sqlcfg_wf tables db' \<and> same_config c' c \<and>
    sqlcfg_view tables db' = (sqlcfg_view tables db)(c_Name c \<mapsto> c')"
proof -
  let ?c = "if c_UpdatedAt c = 0 then c\<lparr>c_UpdatedAt := now\<rparr> else c"
  define c' where "c' = ?c\<lparr>c_HasBase := TrimSpace (c_Baseline c) \<noteq> ''''\<rparr>"
  have row: "config_row c' = config_row ?c" by (simp add: c'_def config_row_def)
  have c': "base_known c'" "same_config c' c" "c_Name c' = c_Name c" by (simp_all add: c'_def base_known_def same_config_def)
  obtain n db' where exec: "dr_Exec d (InsertOnConflict ''rulehawk_configs'' (config_row c') [''name'']
      (DoUpdate [''vendor'', ''current'', ''baseline'', ''updated_at''])) db = Inr (n, db')"
    using d(2) by (meson reliable_def)
  have "sqlcfg_PutConfig d now c db = Inr db'"
    using exec unfolding row by (simp add: sqlcfg_PutConfig_def Let_def)
  then show ?thesis
    using cfg.upsert [OF d(1) wf [unfolded sqlcfg_wf_def] c'(1) exec] c'(2,3) by (auto simp: sqlcfg_wf_def sqlcfg_view_def)
qed

lemma sqlcfg_Delete_ok:
  assumes d: "faithful d tables" "reliable d" and wf: "sqlcfg_wf tables db"
  shows "\<exists>db'. sqlcfg_DeleteConfig d name db = Inr db' \<and> sqlcfg_wf tables db' \<and>
    sqlcfg_view tables db' = (sqlcfg_view tables db)(name := None)"
proof -
  obtain n db' where exec: "dr_Exec d (DeleteWhere ''rulehawk_configs'' [ColEq ''name'' (SText name)]) db = Inr (n, db')"
    using d(2) by (meson reliable_def)
  then show ?thesis
    using table_delete [OF d(1) wf [unfolded sqlcfg_wf_def] config_key exec]
    by (simp add: sqlcfg_DeleteConfig_def sqlcfg_wf_def sqlcfg_view_def)
qed

text \<open>The contract that the console and the collector are proved against.\<close>

lemma sqlcfg_config_store:
  assumes "faithful d tables" and "reliable d"
  shows "config_store (sqlcfg_Store d now) (sqlcfg_view tables) (sqlcfg_wf tables)"
proof (unfold_locales, goal_cases)
  case (1 s name)
  then show ?case using sqlcfg_Get_ok [OF assms] by (simp add: sqlcfg_Store_def)
next
  case (2 s c)
  then show ?case using sqlcfg_Put_ok [OF assms] by (simp add: sqlcfg_Store_def)
next
  case (3 s name)
  then show ?case using sqlcfg_Delete_ok [OF assms] by (simp add: sqlcfg_Store_def)
next
  case (4 s)
  then show ?case using sqlcfg_List_ok [OF assms] by (simp add: sqlcfg_Store_def)
next
  case (5 s)
  then show ?case using table_view_dom(1) by (simp add: sqlcfg_view_def sqlcfg_wf_def)
next
  case (6 s name c)
  then show ?case using table_view_Some [of row_config c_Name] by (simp add: sqlcfg_view_def sqlcfg_wf_def)
qed

text \<open>C13: Over a SQLite database that does not fail, a save of the console either is refused and changes no config, or stores the
  upload under its trimmed name with the baseline it had, after it parsed and within the limit, and changes no other.\<close>

theorem sqlite_console_saves:
  assumes "faithful d tables" and "reliable d" and "sqlcfg_wf tables db" and "cn_Store c = sqlcfg_Store d now"
    and "handleSave c unmarshal (Some req) (db, w) = (r, db', w')"
  shows "sqlcfg_wf tables db' \<and> (sqlcfg_view tables db' = sqlcfg_view tables db \<and> rs_code r \<noteq> 200 \<or>
    (\<exists>cfg. sqlcfg_view tables db' = (sqlcfg_view tables db)(TrimSpace (sq_Name req) \<mapsto> cfg) \<and>
      uploaded req (sqlcfg_view tables db (TrimSpace (sq_Name req))) cfg \<and>
      (\<exists>parsed. Parse unmarshal (sq_Vendor req) (sq_Config req) = Inr parsed) \<and>
      (sqlcfg_view tables db (TrimSpace (sq_Name req)) \<noteq> None \<or> \<not> over_limit c db w)))"
  by (rule config_store.save_result [OF sqlcfg_config_store [OF assms(1,2)] assms(3-5)])

definition ex_sql_console :: "(tables, unit) Console" where
  "ex_sql_console = \<lparr>cn_Store = sqlcfg_Store ref_driver 7, cn_Caps = None, cn_OnSaved = None, cn_OnDelete = None\<rparr>"

theorem sqlite_console_saves_witness:
  "\<exists>r db'. handleSave ex_sql_console (\<lambda>_. Inl '''') (Some ex_request) (ex_tables, ()) = (r, db', ()) \<and> sqlcfg_wf (\<lambda>db. db) db' \<and>
    (rs_code r \<noteq> 200 \<or> sqlcfg_view (\<lambda>db. db) db' ''edge'' \<noteq> None)"
proof -
  have wf: "sqlcfg_wf (\<lambda>db. db) ex_tables"
    by (simp add: sqlcfg_wf_def table_wf_def table_as_def table_rows_def ex_tables_def)
  obtain r db' w' where run: "handleSave ex_sql_console (\<lambda>_. Inl '''') (Some ex_request) (ex_tables, ()) = (r, db', w')"
    by (cases "handleSave ex_sql_console (\<lambda>_. Inl '''') (Some ex_request) (ex_tables, ())") blast
  have "cn_Store ex_sql_console = sqlcfg_Store ref_driver 7" by (simp add: ex_sql_console_def)
  from sqlite_console_saves [OF ref_driver_faithful ref_driver_reliable wf this run] run show ?thesis
    by (auto simp: ex_request_def ex_trim)
qed

end
