(* ===== verification/ConsoleTargets.thy ===== *)
theory ConsoleTargets
  imports WebSpec SqlConfig
begin

text \<open>
  The config console as \<open>main.go\<close> wires it, over the SQLite store of configs and the scheduler's targets: no config is
  stored without being audited.
\<close>

section \<open>One request\<close>

lemma sqlite_console_scanned:
  assumes "faithful d tables" and "reliable d" and "target_calls_succeed (sv_Store sv)" and "sqlcfg_wf tables db"
    and "all_scanned (sqlcfg_view tables db) w"
    and "Console_Register (main_console sv (sqlcfg_Store d now)) unmarshal r (db, w) = (resp, db', w')"
  shows "sqlcfg_wf tables db' \<and> all_scanned (sqlcfg_view tables db') w'"
  by (rule config_store.console_scanned [OF sqlcfg_config_store [OF assms(1,2)] assms(3-6)])

lemma sqlite_requests_scanned:
  assumes "faithful d tables" and "reliable d" and "target_calls_succeed (sv_Store sv)" and "sqlcfg_wf tables db"
    and "all_scanned (sqlcfg_view tables db) w"
    and "(db', w') = fold (\<lambda>(now, r) sw. snd (Console_Register (main_console sv (sqlcfg_Store d now)) unmarshal r sw)) reqs (db, w)"
  shows "all_scanned (sqlcfg_view tables db') w'"
  using assms(4-6)
proof (induction reqs arbitrary: db w)
  case (Cons q reqs)
  obtain now r where q: "q = (now, r)" by (cases q)
  obtain resp db2 w2 where run: "Console_Register (main_console sv (sqlcfg_Store d now)) unmarshal r (db, w) = (resp, db2, w2)"
    by (rule prod_cases3)
  have rest: "(db', w') = fold (\<lambda>(now, r) sw. snd (Console_Register (main_console sv (sqlcfg_Store d now)) unmarshal r sw)) reqs (db2, w2)"
    using Cons.prems(3) by (simp add: q run)
  show ?case
    using Cons.IH [OF _ _ rest] sqlite_console_scanned [OF assms(1-3) Cons.prems(1,2) run] by blast
qed simp

section \<open>Any sequence of requests\<close>

text \<open>C38: Over the SQLite store of configs, with a database that does not fail and no failing call on the target store: when
  every stored config is a scheduled and saved target, this is so after any sequence of console requests, and again
  after a restart.\<close>

theorem configs_are_scanned:
  fixes w w' :: "'g World"
  assumes "faithful d tables" and "reliable d" and "target_calls_succeed (sv_Store sv)" and "sqlcfg_wf tables db"
    and "all_scanned (sqlcfg_view tables db) w"
    and "(db', w') = fold (\<lambda>(now, r) sw. snd (Console_Register (main_console sv (sqlcfg_Store d now)) unmarshal r sw)) reqs (db, w)"
  shows "dom (sqlcfg_view tables db') \<subseteq> set (map t_Canonical (ListTargets ModuleID (w_sched w'))) \<and>
    (\<exists>w2. boot sv later (sd_store (w_sched w')) g2 file2 = Inr w2 \<and>
      dom (sqlcfg_view tables db') \<subseteq> set (map t_Canonical (ListTargets ModuleID (w_sched w2))))"
proof -
  have ok: "all_scanned (sqlcfg_view tables db') w'" by (rule sqlite_requests_scanned [OF assms])
  moreover obtain w2 where w2: "boot sv later (sd_store (w_sched w')) g2 file2 = Inr w2" "all_scanned (sqlcfg_view tables db') w2"
    using boot_scanned [OF assms(3) ok, of later g2 file2] by blast
  ultimately show ?thesis unfolding all_scanned_def target_names_def by blast
qed

theorem configs_are_scanned_witness:
  "let (db, w) = snd (Console_Register (main_console ex_server (sqlcfg_Store ref_driver 7)) (\<lambda>_. Inl '''') (PostConfig (Some ex_request))
     (ex_tables, ex_boot))
   in dom (sqlcfg_view (\<lambda>db. db) db) \<subseteq> set (map t_Canonical (ListTargets ModuleID (w_sched w)))"
proof -
  have wf: "sqlcfg_wf (\<lambda>db. db) ex_tables"
    by (simp add: sqlcfg_wf_def table_wf_def table_as_def table_rows_def ex_tables_def)
  have "dom (sqlcfg_view (\<lambda>db. db) ex_tables) = {}"
    by (auto simp: sqlcfg_view_def table_view_def table_rows_def keyed_list_def ex_tables_def)
  then have init: "all_scanned (sqlcfg_view (\<lambda>db. db) ex_tables) ex_boot"
    using boot_synced [OF ex_boots(2) ex_target_calls, of 0 "0 :: nat" None] ex_boots(1) by (simp add: all_scanned_def)
  obtain db w where run: "snd (Console_Register (main_console ex_server (sqlcfg_Store ref_driver 7)) (\<lambda>_. Inl '''')
      (PostConfig (Some ex_request)) (ex_tables, ex_boot)) = (db, w)" by (rule prod.exhaust)
  then have "(db, w) = fold (\<lambda>(now, r) sw. snd (Console_Register (main_console ex_server (sqlcfg_Store ref_driver now)) (\<lambda>_. Inl '''') r sw))
      [(7, PostConfig (Some ex_request))] (ex_tables, ex_boot)" by simp
  from configs_are_scanned [OF ref_driver_faithful ref_driver_reliable ex_target_calls wf init this, THEN conjunct1] run
  show ?thesis by simp
qed

end
