(* ===== verification/Ownership.thy ===== *)
theory Ownership
  imports Sha256 NetIP
begin

text \<open>
  Package \<open>verify\<close>: the challenge that proves that a user owns a domain, its texts, and the check that a proof is in
  place. The lookups are parameters of the check, as in the code: a name gives its TXT records and an address its body,
  or an error. The facts say what a domain is read from and which proofs are accepted.
\<close>

section \<open>Challenges\<close>

definition StatePending :: string where "StatePending = ''pending''"
definition StateVerified :: string where "StateVerified = ''verified''"
definition MethodDNS :: string where "MethodDNS = ''dns''"
definition MethodHTTP :: string where "MethodHTTP = ''http''"
definition tokenPrefix :: string where "tokenPrefix = ''hexward-verify=''"
definition dnsLabel :: string where "dnsLabel = ''_hexward-verify''"
definition httpPath :: string where "httpPath = ''/.well-known/hexward-verify.txt''"
definition legacyTokenPrefix :: string where "legacyTokenPrefix = ''sentinel-verify=''"
definition legacyDNSLabel :: string where "legacyDNSLabel = ''_sentinel-verify''"
definition legacyHTTPPath :: string where "legacyHTTPPath = ''/.well-known/sentinel-verify.txt''"

text \<open>A time is its number of nanoseconds.\<close>

record Challenge =
  ch_Domain :: string
  ch_Token :: string
  ch_State :: string
  ch_CreatedAt :: int
  ch_VerifiedAt :: "int option"

definition DNSRecordName :: "Challenge \<Rightarrow> string" where
  "DNSRecordName c = dnsLabel @ ''.'' @ ch_Domain c"

definition DNSRecordValue :: "Challenge \<Rightarrow> string" where
  "DNSRecordValue c = tokenPrefix @ ch_Token c"

definition HTTPURL :: "Challenge \<Rightarrow> string" where
  "HTTPURL c = ''http://'' @ ch_Domain c @ httpPath"

definition HTTPFileContents :: "Challenge \<Rightarrow> string" where
  "HTTPFileContents c = tokenPrefix @ ch_Token c"

definition LegacyDNSRecordName :: "Challenge \<Rightarrow> string" where
  "LegacyDNSRecordName c = legacyDNSLabel @ ''.'' @ ch_Domain c"

definition LegacyDNSRecordValue :: "Challenge \<Rightarrow> string" where
  "LegacyDNSRecordValue c = legacyTokenPrefix @ ch_Token c"

definition LegacyHTTPURL :: "Challenge \<Rightarrow> string" where
  "LegacyHTTPURL c = ''http://'' @ ch_Domain c @ legacyHTTPPath"

definition LegacyHTTPFileContents :: "Challenge \<Rightarrow> string" where
  "LegacyHTTPFileContents c = legacyTokenPrefix @ ch_Token c"

text \<open>\<open>quoted\<close> is the verb \<open>%q\<close>.\<close>

definition Instructions :: "(string \<Rightarrow> string) \<Rightarrow> Challenge \<Rightarrow> string" where
  "Instructions quoted c =
     (let newline = [CHR 0x0A]; dash = [CHR 0xE2, CHR 0x80, CHR 0x94] in
      ''Verify ownership of '' @ ch_Domain c @ '' by EITHER:'' @ newline @
      ''  DNS  '' @ dash @ '' add a TXT record at '' @ quoted (DNSRecordName c) @ '' with value '' @ quoted (DNSRecordValue c) @ newline @
      ''  HTTP '' @ dash @ '' serve '' @ quoted (HTTPURL c) @ '' containing '' @ quoted (HTTPFileContents c) @ newline @
      ''Then it verifies automatically on the next scan.'')"

section \<open>Domains\<close>

definition normalizeDomain :: "string \<Rightarrow> string" where
  "normalizeDomain inp =
     (let s = TrimSpace (ToLower inp);
          s = (case IndexStr s ''://'' of Some i \<Rightarrow> drop (i + 3) s | None \<Rightarrow> s);
          s = (case IndexAny s ''/?#'' of Some i \<Rightarrow> take i s | None \<Rightarrow> s);
          s = (case LastIndexByte s (CHR '':'') of Some i \<Rightarrow> if \<not> Contains s '']'' then take i s else s | None \<Rightarrow> s)
      in TrimSuffix s ''.'')"

text \<open>\<open>rand_Read\<close> gives sixteen random bytes or an error.\<close>

definition NewChallenge :: "('g \<Rightarrow> (string + nat list) \<times> 'g) \<Rightarrow> string \<Rightarrow> int \<Rightarrow> 'g \<Rightarrow> (string + Challenge) \<times> 'g" where
  "NewChallenge rand_Read domain now g =
     (let d = normalizeDomain domain in
      if d = '''' then (Inl ''empty domain'', g)
      else (case rand_Read g of
          (Inl err, g) \<Rightarrow> (Inl err, g)
        | (Inr b, g) \<Rightarrow> (Inr \<lparr>ch_Domain = d, ch_Token = hex_encode b, ch_State = StatePending, ch_CreatedAt = now,
            ch_VerifiedAt = None\<rparr>, g)))"

section \<open>Verification\<close>

record Verifier =
  vf_LookupTXT :: "(string \<Rightarrow> string + string list) option"
  vf_FetchHTTP :: "(string \<Rightarrow> string + string) option"

fun txt_loop :: "(string \<Rightarrow> string + string list) \<Rightarrow> string list \<Rightarrow> string list \<Rightarrow> bool" where
  "txt_loop lookup wantDNS [] = False"
| "txt_loop lookup wantDNS (name # names) =
     (case lookup name of
        Inl err \<Rightarrow> txt_loop lookup wantDNS names
      | Inr records \<Rightarrow> if list_ex (\<lambda>r. TrimSpace r \<in> set wantDNS) records then True else txt_loop lookup wantDNS names)"

fun http_loop :: "(string \<Rightarrow> string + string) \<Rightarrow> string list \<Rightarrow> string list \<Rightarrow> bool" where
  "http_loop fetch wantHTTP [] = False"
| "http_loop fetch wantHTTP (url # urls) =
     (case fetch url of
        Inl err \<Rightarrow> http_loop fetch wantHTTP urls
      | Inr body \<Rightarrow> if TrimSpace body \<in> set wantHTTP then True else http_loop fetch wantHTTP urls)"

text \<open>The verdict, the method and the error, \<open>None\<close> when it is nil.\<close>

definition Satisfied :: "Verifier \<Rightarrow> Challenge \<Rightarrow> bool \<times> string \<times> string option" where
  "Satisfied v c =
     (let wantDNS = [DNSRecordValue c, LegacyDNSRecordValue c];
          wantHTTP = [HTTPFileContents c, LegacyHTTPFileContents c]
      in if (case vf_LookupTXT v of
               Some lookup \<Rightarrow> txt_loop lookup wantDNS [DNSRecordName c, LegacyDNSRecordName c]
             | None \<Rightarrow> False)
         then (True, MethodDNS, None)
         else if (case vf_FetchHTTP v of
               Some fetch \<Rightarrow> http_loop fetch wantHTTP [HTTPURL c, LegacyHTTPURL c]
             | None \<Rightarrow> False)
         then (True, MethodHTTP, None)
         else (False, '''', None))"

section \<open>Which proofs are accepted\<close>

text \<open>The token is published for a domain: one of the two values at one of the two places, current or legacy.\<close>

definition published_txt :: "Verifier \<Rightarrow> string \<Rightarrow> string \<Rightarrow> bool" where
  "published_txt v domain token \<longleftrightarrow>
     (\<exists>lookup. vf_LookupTXT v = Some lookup \<and>
       (\<exists>name \<in> {''_hexward-verify.'' @ domain, ''_sentinel-verify.'' @ domain}. \<exists>records. lookup name = Inr records \<and>
         (\<exists>r \<in> set records. TrimSpace r \<in> {''hexward-verify='' @ token, ''sentinel-verify='' @ token})))"

definition published_file :: "Verifier \<Rightarrow> string \<Rightarrow> string \<Rightarrow> bool" where
  "published_file v domain token \<longleftrightarrow>
     (\<exists>fetch. vf_FetchHTTP v = Some fetch \<and>
       (\<exists>path \<in> {''/.well-known/hexward-verify.txt'', ''/.well-known/sentinel-verify.txt''}. \<exists>body.
         fetch (''http://'' @ domain @ path) = Inr body \<and>
         TrimSpace body \<in> {''hexward-verify='' @ token, ''sentinel-verify='' @ token}))"

lemma txt_loop_iff:
  "txt_loop lookup want names \<longleftrightarrow>
    (\<exists>name \<in> set names. \<exists>records. lookup name = Inr records \<and> (\<exists>r \<in> set records. TrimSpace r \<in> set want))"
  by (induction names) (auto simp: list_ex_iff split: sum.split)

lemma http_loop_iff:
  "http_loop fetch want urls \<longleftrightarrow> (\<exists>url \<in> set urls. \<exists>body. fetch url = Inr body \<and> TrimSpace body \<in> set want)"
  by (induction urls) (auto split: sum.split)

lemmas challenge_names = DNSRecordName_def DNSRecordValue_def HTTPURL_def HTTPFileContents_def LegacyDNSRecordName_def
  LegacyDNSRecordValue_def LegacyHTTPURL_def LegacyHTTPFileContents_def dnsLabel_def tokenPrefix_def httpPath_def
  legacyDNSLabel_def legacyTokenPrefix_def legacyHTTPPath_def

lemma Satisfied_verdict:
  "Satisfied v c =
     (if published_txt v (ch_Domain c) (ch_Token c) then (True, MethodDNS, None)
      else if published_file v (ch_Domain c) (ch_Token c) then (True, MethodHTTP, None)
      else (False, '''', None))"
proof -
  have "(case vf_LookupTXT v of
        Some lookup \<Rightarrow> txt_loop lookup [DNSRecordValue c, LegacyDNSRecordValue c] [DNSRecordName c, LegacyDNSRecordName c]
      | None \<Rightarrow> False) \<longleftrightarrow> published_txt v (ch_Domain c) (ch_Token c)"
    by (simp add: published_txt_def txt_loop_iff challenge_names split: option.split)
  moreover have "(case vf_FetchHTTP v of
        Some fetch \<Rightarrow> http_loop fetch [HTTPFileContents c, LegacyHTTPFileContents c] [HTTPURL c, LegacyHTTPURL c]
      | None \<Rightarrow> False) \<longleftrightarrow> published_file v (ch_Domain c) (ch_Token c)"
    by (simp add: published_file_def http_loop_iff challenge_names split: option.split)
  ultimately show ?thesis by (simp add: Satisfied_def)
qed

text \<open>A check accepts a challenge exactly when its token is published for its domain, by DNS if it is published there, else
  by HTTP; it never returns an error.\<close>

theorem challenge_verdict:
  "Satisfied v c =
     (published_txt v (ch_Domain c) (ch_Token c) \<or> published_file v (ch_Domain c) (ch_Token c),
      if published_txt v (ch_Domain c) (ch_Token c) then MethodDNS
      else if published_file v (ch_Domain c) (ch_Token c) then MethodHTTP else '''', None)"
  by (simp add: Satisfied_verdict)

section \<open>Which domain an address names\<close>

definition host_name :: "string \<Rightarrow> bool" where
  "host_name h \<longleftrightarrow> h \<noteq> '''' \<and> last h \<noteq> CHR ''.'' \<and> list_all (\<lambda>c. c \<notin> set '':/?#]'') h"

text \<open>An address: an optional scheme, a host with an optional final dot, an optional port, and the rest from its first delimiter.\<close>

definition url_parts :: "string \<Rightarrow> string \<Rightarrow> string \<Rightarrow> string \<Rightarrow> string \<Rightarrow> bool" where
  "url_parts scheme host dot port path \<longleftrightarrow>
     host_name host \<and> (dot = '''' \<or> dot = ''.'') \<and>
     (port = '''' \<or> hd port = CHR '':'' \<and> list_all (\<lambda>c. c \<notin> set '':/?#]'') (tl port)) \<and>
     (path = '''' \<or> hd path \<in> set ''/?#'') \<and>
     (if scheme = '''' then \<not> Contains (host @ dot @ port @ path) ''://''
      else HasSuffix scheme ''://'' \<and> CHR '':'' \<notin> set (take (length scheme - 3) scheme)) \<and>
     list_all (\<lambda>c. \<not> is_space c) (scheme @ host @ dot @ port @ path)"

lemma Index_from_skip: "CHR '':'' \<notin> set n \<Longrightarrow> Index_from i (n @ s) ''://'' = Index_from (i + length n) s ''://''"
  by (induction n arbitrary: i) (auto simp: HasPrefix_def)

lemma IndexStr_scheme: "CHR '':'' \<notin> set n \<Longrightarrow> IndexStr (n @ ''://'' @ s) ''://'' = Some (length n)"
  using Index_from_skip [of n 0 "''://'' @ s"] by (simp add: IndexStr_def HasPrefix_def)

lemma HasSuffix_iff: "HasSuffix s p \<longleftrightarrow> (\<exists>t. s = t @ p)"
proof -
  have "(\<exists>t. rev s = rev p @ t) \<longleftrightarrow> (\<exists>t. s = t @ p)" by (metis rev_append rev_rev_ident)
  then show ?thesis by (simp add: HasSuffix_def HasPrefix_iff)
qed

lemma IndexAny_split: "list_all (\<lambda>c. c \<notin> set cs) s \<Longrightarrow> t = '''' \<or> hd t \<in> set cs \<Longrightarrow>
    (case IndexAny (s @ t) cs of Some i \<Rightarrow> take i (s @ t) | None \<Rightarrow> s @ t) = s"
proof (induction s)
  case Nil
  then show ?case by (cases t) (auto simp: IndexAny_def)
next
  case (Cons c s)
  then show ?case by (auto simp: IndexAny_def split: option.splits)
qed

lemma LastIndexByte_split:
  assumes "c \<notin> set s" and "c \<notin> set t"
  shows "LastIndexByte s c = None" and "LastIndexByte (s @ c # t) c = Some (length s)"
proof -
  have none: "find_index (\<lambda>d. d = c) u = None" if "c \<notin> set u" for u using that by (auto simp: find_index_None)
  show "LastIndexByte s c = None" using none [of "rev s"] assms(1) by (simp add: LastIndexByte_def)
  have "find_index (\<lambda>d. d = c) (u @ c # w) = Some (length u)" if "c \<notin> set u" for u w
    using that by (induction u) auto
  from this [of "rev t" "rev s"] assms(2) show "LastIndexByte (s @ c # t) c = Some (length s)"
    by (simp add: LastIndexByte_def)
qed

lemma Contains_byte: "Contains s [c] \<longleftrightarrow> c \<in> set s"
proof -
  have "Index_from i s [c] \<noteq> None \<longleftrightarrow> c \<in> set s" for i
    by (induction s arbitrary: i) (auto simp: HasPrefix_def)
  then show ?thesis by (simp add: Contains_def IndexStr_def)
qed

text \<open>The steps after the one that lowers and trims.\<close>

definition host_part :: "string \<Rightarrow> string" where
  "host_part s =
     (let s = (case IndexStr s ''://'' of Some i \<Rightarrow> drop (i + 3) s | None \<Rightarrow> s);
          s = (case IndexAny s ''/?#'' of Some i \<Rightarrow> take i s | None \<Rightarrow> s);
          s = (case LastIndexByte s (CHR '':'') of Some i \<Rightarrow> if \<not> Contains s '']'' then take i s else s | None \<Rightarrow> s)
      in TrimSuffix s ''.'')"

lemma normalizeDomain_host_part: "normalizeDomain inp = host_part (TrimSpace (ToLower inp))"
  by (simp add: normalizeDomain_def host_part_def Let_def)

lemma host_part_url:
  assumes "url_parts scheme host dot port path"
  shows "host_part (scheme @ host @ dot @ port @ path) = host"
proof -
  let ?hp = "host @ dot @ port"
  note u = assms [unfolded url_parts_def host_name_def]
  have scheme: "(case IndexStr (scheme @ ?hp @ path) ''://'' of Some i \<Rightarrow> drop (i + 3) (scheme @ ?hp @ path) | None \<Rightarrow> scheme @ ?hp @ path)
      = ?hp @ path"
  proof (cases "scheme = ''''")
    case True
    then show ?thesis using u by (simp add: Contains_def)
  next
    case False
    with u obtain n where n: "scheme = n @ ''://''" by (auto simp: HasSuffix_iff)
    then have "CHR '':'' \<notin> set n" using u False by simp
    with IndexStr_scheme [of n "?hp @ path"] n show ?thesis by simp
  qed
  have hd_port: "port = '''' \<or> port = CHR '':'' # tl port" using u by (cases port) auto
  have host: "\<forall>c \<in> set host. c \<notin> set '':/?#]''" using u unfolding list_all_iff by blast
  have dot: "set dot \<subseteq> {CHR ''.''}" using u by auto
  have port: "set port \<subseteq> insert (CHR '':'') (set (tl port))" "\<forall>c \<in> set (tl port). c \<notin> set '':/?#]''"
    using u hd_port by (cases port; simp only: list_all_iff; simp)+
  have chars: "c = CHR '':'' \<or> c = CHR ''.'' \<or> c \<notin> set '':/?#]''" if "c \<in> set ?hp" for c
    using that host dot port unfolding set_append by blast
  then have "list_all (\<lambda>c. c \<notin> set ''/?#'') ?hp"
    unfolding list_all_iff using chars by fastforce
  from IndexAny_split [OF this, of path] u have path:
    "(case IndexAny (?hp @ path) ''/?#'' of Some i \<Rightarrow> take i (?hp @ path) | None \<Rightarrow> ?hp @ path) = ?hp" by simp
  have delims: "CHR '':'' \<in> set '':/?#]''" "CHR '']'' \<in> set '':/?#]''" by simp_all
  have colon: "CHR '':'' \<notin> set host" "CHR '':'' \<notin> set (tl port)" using host port(2) delims(1) by blast+
  have colon_dot: "CHR '':'' \<notin> set (host @ dot)" using colon(1) dot by auto
  have bracket: "CHR '']'' \<notin> set ?hp" using chars delims(2) by fastforce
  have strip: "(case LastIndexByte ?hp (CHR '':'') of Some i \<Rightarrow> if \<not> Contains ?hp '']'' then take i ?hp else ?hp | None \<Rightarrow> ?hp) = host @ dot"
    using hd_port LastIndexByte_split [OF colon_dot colon(2)] bracket unfolding Contains_byte by (cases "port = ''''") auto
  have "TrimSuffix (host @ dot) ''.'' = host"
  proof (cases "dot = ''''")
    case True
    have "\<not> HasSuffix host ''.''" using u by (auto simp: HasSuffix_iff)
    with True show ?thesis by (simp add: TrimSuffix_def)
  next
    case False
    then have "dot = ''.''" using u by simp
    then show ?thesis by (simp add: TrimSuffix_def HasSuffix_iff)
  qed
  then show ?thesis
    unfolding host_part_def Let_def scheme [unfolded append_assoc] path [unfolded append_assoc] strip [unfolded append_assoc] .
qed

text \<open>Lowering the parts leaves them parts.\<close>

lemma lower_char_delim [simp]: "lower_char c = CHR ''?'' \<longleftrightarrow> c = CHR ''?''" "lower_char c = CHR ''#'' \<longleftrightarrow> c = CHR ''#''"
  "lower_char c = CHR '']'' \<longleftrightarrow> c = CHR '']''"
  unfolding char_eq_nat [of "lower_char c"] char_eq_nat [of c] of_char_lower_char by auto

lemma Contains_scheme_lower: "Contains (ToLower s) ''://'' = Contains s ''://''"
proof -
  have prefix: "HasPrefix (map lower_char s) ''://'' = HasPrefix s ''://''" for s
    unfolding HasPrefix_def by (cases s; cases "tl s"; cases "tl (tl s)"; simp)
  have "Index_from i (map lower_char s) ''://'' = Index_from i s ''://''" for i
  proof (induction s arbitrary: i)
    case (Cons c s)
    then show ?case using prefix [of "c # s"] by (simp only: list.map Index_from.simps)
  qed simp
  then show ?thesis by (simp add: Contains_def IndexStr_def ToLower_def)
qed

lemma url_parts_lower:
  assumes "url_parts scheme host dot port path"
  shows "url_parts (ToLower scheme) (ToLower host) (ToLower dot) (ToLower port) (ToLower path)"
proof -
  note u = assms [unfolded url_parts_def host_name_def]
  have "HasSuffix (ToLower scheme) ''://''" if "HasSuffix scheme ''://''"
  proof -
    from that obtain n where "scheme = n @ ''://''" by (auto simp: HasSuffix_iff)
    then have "ToLower scheme = ToLower n @ ''://''" by (simp add: ToLower_def lower_char_def)
    then show ?thesis by (auto simp: HasSuffix_iff)
  qed
  moreover have "CHR '':'' \<notin> set (take k (ToLower scheme))" if "CHR '':'' \<notin> set (take k scheme)" for k
    using that unfolding ToLower_def take_map set_map by (metis image_iff lower_char_punct(2))
  moreover have "ToLower (host @ dot @ port @ path) = ToLower host @ ToLower dot @ ToLower port @ ToLower path"
    by (simp add: ToLower_def)
  moreover have "port = '''' \<or> hd (ToLower port) = CHR '':'' \<and> list_all (\<lambda>c. c \<notin> set '':/?#]'') (tl (ToLower port))"
    using u by (cases port) (auto simp: ToLower_def list_all_iff)
  moreover have "path = '''' \<or> hd (ToLower path) \<in> set ''/?#''" using u by (cases path) (auto simp: ToLower_def)
  moreover have "host_name (ToLower host)" using u by (auto simp: host_name_def ToLower_def list_all_iff last_map)
  moreover have "ToLower dot = dot" using u by (auto simp: ToLower_def lower_char_def)
  moreover have "list_all (\<lambda>c. \<not> is_space c) (ToLower s)" if "list_all (\<lambda>c. \<not> is_space c) s" for s
    using that by (auto simp: ToLower_def list_all_iff)
  ultimately show ?thesis
    using u Contains_scheme_lower [of "host @ dot @ port @ path"] by (simp add: url_parts_def) (simp add: ToLower_def)
qed

text \<open>C19: Of an address with a port, a path or a final dot, in any case, exactly the host in lower case is read, when the
  address has a scheme, or has none and no \<open>://\<close> further on.\<close>

theorem domain_of_url:
  assumes "url_parts scheme host dot port path"
  shows "normalizeDomain (scheme @ host @ dot @ port @ path) = ToLower host"
proof -
  let ?url = "scheme @ host @ dot @ port @ path"
  have "ToLower ?url = ToLower scheme @ ToLower host @ ToLower dot @ ToLower port @ ToLower path" by (simp add: ToLower_def)
  moreover have "TrimSpace (ToLower ?url) = ToLower ?url"
    using assms unfolding TrimSpace_ToLower by (subst TrimSpace_no_space) (auto simp: url_parts_def list_all_iff)
  ultimately show ?thesis
    using host_part_url [OF url_parts_lower [OF assms]] by (simp add: normalizeDomain_host_part)
qed

theorem domain_of_url_witness: "normalizeDomain ''HTTPS://Example.com:443/x'' = ''example.com''"
proof -
  have "url_parts ''HTTPS://'' ''Example.com'' '''' '':443'' ''/x''" by code_simp
  moreover have "ToLower ''Example.com'' = ''example.com''" by code_simp
  ultimately show ?thesis using domain_of_url [of "''HTTPS://''" "''Example.com''" "''''" "'':443''" "''/x''"] by simp
qed

text \<open>A scheme is looked for in the whole address, so one in the query names another domain.\<close>

lemma domain_of_query: "normalizeDomain ''example.com/?u=http://evil.org'' = ''evil.org''"
  by code_simp

end
