(* ===== verification/OwnershipStore.thy ===== *)
theory OwnershipStore
  imports Ownership SqlSpec
begin

text \<open>
  The stores of challenges, \<open>verify/memstore.go\<close> and \<open>store/verify_sqlite.go\<close>, and the dashboard's list of them,
  \<open>handleVerification\<close> of \<open>web/server.go\<close>. One contract covers both stores; what the dashboard shows is proved under it.
\<close>

section \<open>In memory\<close>

text \<open>The map by key; the order in which the listing ranges over it stands for the unspecified one of a Go map.\<close>

type_synonym challenge_map = "(string \<times> Challenge) list"

definition challenge_key :: "string \<Rightarrow> string \<Rightarrow> string" where
  "challenge_key m domain = m @ [CHR 0x00] @ domain"

definition verify_NewMemStore :: challenge_map where
  "verify_NewMemStore = []"

definition verify_Put :: "string \<Rightarrow> Challenge \<Rightarrow> challenge_map \<Rightarrow> challenge_map" where
  "verify_Put m c s = AList.update (challenge_key m (ch_Domain c)) c s"

definition verify_Get :: "string \<Rightarrow> string \<Rightarrow> challenge_map \<Rightarrow> Challenge option" where
  "verify_Get m domain s = map_of s (challenge_key m domain)"

definition verify_List :: "string \<Rightarrow> challenge_map \<Rightarrow> Challenge list" where
  "verify_List m s =
     map snd (filter (\<lambda>(k, c). length k > length m \<and> take (length m) k = m \<and> k ! length m = CHR 0x00) s)"

definition verify_Delete :: "string \<Rightarrow> string \<Rightarrow> challenge_map \<Rightarrow> challenge_map" where
  "verify_Delete m domain s = AList.delete (challenge_key m domain) s"

section \<open>SQLite\<close>

definition challengeCols :: "string list" where
  "challengeCols = [''domain'', ''token'', ''state'', ''created_at'', ''verified_at'']"

definition NewSQLiteVerifyStore :: "'db driver \<Rightarrow> 'db \<Rightarrow> string + 'db" where
  "NewSQLiteVerifyStore d db =
     (case dr_Exec d (CreateTable ''verify_challenges'' (''module'' # challengeCols)) db of
        Inl err \<Rightarrow> Inl err
      | Inr (_, db) \<Rightarrow> Inr db)"

definition challenge_row :: "string \<Rightarrow> Challenge \<Rightarrow> (string \<times> sqlval) list" where
  "challenge_row m c = zip (''module'' # challengeCols)
     [SText m, SText (ch_Domain c), SText (ch_Token c), SText (ch_State c), STime (ch_CreatedAt c),
      (case ch_VerifiedAt c of None \<Rightarrow> SNull | Some t \<Rightarrow> STime t)]"

definition sqlver_Put :: "'db driver \<Rightarrow> string \<Rightarrow> Challenge \<Rightarrow> 'db \<Rightarrow> string + 'db" where
  "sqlver_Put d m c db =
     (case dr_Exec d (InsertOnConflict ''verify_challenges'' (challenge_row m c) [''module'', ''domain'']
         (DoUpdate [''token'', ''state'', ''created_at'', ''verified_at''])) db of
        Inl err \<Rightarrow> Inl err
      | Inr (_, db) \<Rightarrow> Inr db)"

definition scanChallenge :: "sqlval list \<Rightarrow> string + Challenge" where
  "scanChallenge row =
     (if length row \<noteq> 5 then Inl ''expected 5 destination arguments in Scan''
      else
        scan_then (text_col (row ! 0)) (\<lambda>domain. scan_then (text_col (row ! 1)) (\<lambda>token. scan_then (text_col (row ! 2)) (\<lambda>state.
        scan_then (time_col (row ! 3)) (\<lambda>created. scan_then (nullable time_col (row ! 4)) (\<lambda>verifiedAt.
          Inr \<lparr>ch_Domain = domain, ch_Token = token, ch_State = state, ch_CreatedAt = created, ch_VerifiedAt = verifiedAt\<rparr>))))))"

definition sqlver_Get :: "'db driver \<Rightarrow> string \<Rightarrow> string \<Rightarrow> 'db \<Rightarrow> string + Challenge option" where
  "sqlver_Get d m domain db =
     (case dr_Query d (Select challengeCols ''verify_challenges'' [ColEq ''module'' (SText m), ColEq ''domain'' (SText domain)]
         AnyOrder) db of
        Inl err \<Rightarrow> Inl err
      | Inr [] \<Rightarrow> Inr None
      | Inr (row # _) \<Rightarrow> (case scanChallenge row of Inl err \<Rightarrow> Inl err | Inr c \<Rightarrow> Inr (Some c)))"

fun scanChallenges :: "sqlval list list \<Rightarrow> string + Challenge list" where
  "scanChallenges [] = Inr []"
| "scanChallenges (row # rows) =
     (case scanChallenge row of
        Inl err \<Rightarrow> Inl err
      | Inr c \<Rightarrow> (case scanChallenges rows of Inl err \<Rightarrow> Inl err | Inr out \<Rightarrow> Inr (c # out)))"

definition sqlver_List :: "'db driver \<Rightarrow> string \<Rightarrow> 'db \<Rightarrow> string + Challenge list" where
  "sqlver_List d m db =
     (case dr_Query d (Select challengeCols ''verify_challenges'' [ColEq ''module'' (SText m)] (OrderAsc ''domain'')) db of
        Inl err \<Rightarrow> Inl err
      | Inr rows \<Rightarrow> scanChallenges rows)"

definition sqlver_Delete :: "'db driver \<Rightarrow> string \<Rightarrow> string \<Rightarrow> 'db \<Rightarrow> string + 'db" where
  "sqlver_Delete d m domain db =
     (case dr_Exec d (DeleteWhere ''verify_challenges'' [ColEq ''module'' (SText m), ColEq ''domain'' (SText domain)]) db of
        Inl err \<Rightarrow> Inl err
      | Inr (_, db) \<Rightarrow> Inr db)"

section \<open>The interface\<close>

text \<open>The interface \<open>verify.Store\<close> with its two implementations.\<close>

record 's VerifyStore =
  vs_Put :: "string \<Rightarrow> Challenge \<Rightarrow> 's \<Rightarrow> string + 's"
  vs_Get :: "string \<Rightarrow> string \<Rightarrow> 's \<Rightarrow> string + Challenge option"
  vs_List :: "string \<Rightarrow> 's \<Rightarrow> string + Challenge list"
  vs_Delete :: "string \<Rightarrow> string \<Rightarrow> 's \<Rightarrow> string + 's"

definition mem_VerifyStore :: "challenge_map VerifyStore" where
  "mem_VerifyStore = \<lparr>vs_Put = (\<lambda>m c s. Inr (verify_Put m c s)), vs_Get = (\<lambda>m domain s. Inr (verify_Get m domain s)),
     vs_List = (\<lambda>m s. Inr (verify_List m s)), vs_Delete = (\<lambda>m domain s. Inr (verify_Delete m domain s))\<rparr>"

definition SQLiteVerifyStore :: "'db driver \<Rightarrow> 'db VerifyStore" where
  "SQLiteVerifyStore d = \<lparr>vs_Put = sqlver_Put d, vs_Get = sqlver_Get d, vs_List = sqlver_List d, vs_Delete = sqlver_Delete d\<rparr>"

section \<open>The dashboard\<close>

record challengeJSON =
  cj_domain :: string
  cj_state :: string
  cj_dns_record :: string
  cj_dns_value :: string
  cj_http_url :: string
  cj_http_contents :: string
  cj_instructions :: string

datatype verification_body = VerificationError string | VerificationBody bool "challengeJSON list"

definition challenge_json :: "(string \<Rightarrow> string) \<Rightarrow> Challenge \<Rightarrow> challengeJSON" where
  "challenge_json quoted c =
     \<lparr>cj_domain = ch_Domain c, cj_state = ch_State c, cj_dns_record = DNSRecordName c, cj_dns_value = DNSRecordValue c,
      cj_http_url = HTTPURL c, cj_http_contents = HTTPFileContents c, cj_instructions = Instructions quoted c\<rparr>"

text \<open>\<open>verify\<close> is the server's field: a store and its state, or nil.\<close>

definition handleVerification ::
  "(string \<Rightarrow> string) \<Rightarrow> ('s VerifyStore \<times> 's) option \<Rightarrow> ModuleInfo \<Rightarrow> nat \<times> verification_body" where
  "handleVerification quoted verify mi =
     (case verify of
        None \<Rightarrow> (200, VerificationBody False [])
      | Some (vs, s) \<Rightarrow>
          (case vs_List vs (mi_ID mi) s of
             Inl err \<Rightarrow> (500, VerificationError ''verification store error'')
           | Inr challenges \<Rightarrow> (200, VerificationBody True (map (challenge_json quoted) challenges))))"

end
