(* ===== verification/OwnershipSpec.thy ===== *)
theory OwnershipSpec
  imports OwnershipStore SqlTable
begin

text \<open>
  The contract of a store of challenges, met by both stores, and what it gives the dashboard: the list it shows is that of
  the challenges of its module, and a proof placed as the list says is one that the check accepts.
\<close>

section \<open>What the verifier accepts\<close>

text \<open>A proof placed as an item of the list asks is published.\<close>

lemma item_accepted:
  assumes "vf_LookupTXT v = Some lookup" and "lookup (cj_dns_record (challenge_json quoted c)) = Inr records"
    and "r \<in> set records" and "TrimSpace r = cj_dns_value (challenge_json quoted c)"
  shows "published_txt v (ch_Domain c) (ch_Token c)"
  using assms by (auto simp: published_txt_def challenge_json_def challenge_names)

lemma file_accepted:
  assumes "vf_FetchHTTP v = Some fetch" and "fetch (cj_http_url (challenge_json quoted c)) = Inr body"
    and "TrimSpace body = cj_http_contents (challenge_json quoted c)"
  shows "published_file v (ch_Domain c) (ch_Token c)"
  using assms by (auto simp: published_file_def challenge_json_def challenge_names)

section \<open>The contract\<close>

text \<open>\<open>okm\<close> are the module names that the store keeps apart.\<close>

locale challenge_store =
  fixes iface :: "'s VerifyStore"
    and view :: "'s \<Rightarrow> string \<Rightarrow> string \<Rightarrow> Challenge option"
    and wf :: "'s \<Rightarrow> bool"
    and okm :: "string \<Rightarrow> bool"
  assumes put: "wf s \<Longrightarrow> okm m \<Longrightarrow> \<exists>s'. vs_Put iface m c s = Inr s' \<and> wf s' \<and>
      (\<forall>m' d. okm m' \<longrightarrow> view s' m' d = (if m' = m \<and> d = ch_Domain c then Some c else view s m' d))"
    and get: "wf s \<Longrightarrow> okm m \<Longrightarrow> vs_Get iface m d s = Inr (view s m d)"
    and del: "wf s \<Longrightarrow> okm m \<Longrightarrow> \<exists>s'. vs_Delete iface m d s = Inr s' \<and> wf s' \<and>
      (\<forall>m' d'. okm m' \<longrightarrow> view s' m' d' = (if m' = m \<and> d' = d then None else view s m' d'))"
    and listed: "wf s \<Longrightarrow> okm m \<Longrightarrow> \<exists>cs. vs_List iface m s = Inr cs \<and> distinct (map ch_Domain cs) \<and>
      (\<forall>c. c \<in> set cs \<longleftrightarrow> view s m (ch_Domain c) = Some c)"
begin

lemma verification_list:
  assumes "wf s" and "okm (mi_ID mi)"
  obtains items where "handleVerification quoted (Some (iface, s)) mi = (200, VerificationBody True items)"
    and "distinct (map cj_domain items)"
    and "set items = challenge_json quoted ` {c. view s (mi_ID mi) (ch_Domain c) = Some c}"
proof -
  obtain cs where cs: "vs_List iface (mi_ID mi) s = Inr cs" "distinct (map ch_Domain cs)"
    "\<forall>c. c \<in> set cs \<longleftrightarrow> view s (mi_ID mi) (ch_Domain c) = Some c"
    using listed [OF assms] by blast
  have "set cs = {c. view s (mi_ID mi) (ch_Domain c) = Some c}" using cs(3) by blast
  moreover have "map cj_domain (map (challenge_json quoted) cs) = map ch_Domain cs" by (simp add: challenge_json_def)
  ultimately show thesis
    by (intro that [of "map (challenge_json quoted) cs"]) (simp_all only: cs(2) set_map, simp add: handleVerification_def cs(1))
qed

lemma issued_then_listed:
  assumes wf: "wf s" and m: "okm (mi_ID mi)" and issued: "vs_Put iface (mi_ID mi) c s = Inr s'"
  shows "\<exists>items item. handleVerification quoted (Some (iface, s')) mi = (200, VerificationBody True items) \<and>
    {i \<in> set items. cj_domain i = ch_Domain c} = {item} \<and> item = challenge_json quoted c \<and>
    (\<forall>v lookup records r. vf_LookupTXT v = Some lookup \<and> lookup (cj_dns_record item) = Inr records \<and> r \<in> set records \<and>
      TrimSpace r = cj_dns_value item \<longrightarrow> Satisfied v c = (True, MethodDNS, None)) \<and>
    (\<forall>v fetch body. vf_FetchHTTP v = Some fetch \<and> fetch (cj_http_url item) = Inr body \<and>
      TrimSpace body = cj_http_contents item \<longrightarrow> fst (Satisfied v c))"
proof -
  obtain s2 where s2: "vs_Put iface (mi_ID mi) c s = Inr s2" "wf s2"
    "\<forall>m' d. okm m' \<longrightarrow> view s2 m' d = (if m' = mi_ID mi \<and> d = ch_Domain c then Some c else view s m' d)"
    using put [OF wf m] by blast
  with issued have s': "wf s'" "view s' (mi_ID mi) (ch_Domain c) = Some c" using m by simp_all
  obtain items where items: "handleVerification quoted (Some (iface, s')) mi = (200, VerificationBody True items)"
    "set items = challenge_json quoted ` {c. view s' (mi_ID mi) (ch_Domain c) = Some c}"
    by (rule verification_list [OF s'(1) m, of quoted])
  have one: "{i \<in> set items. cj_domain i = ch_Domain c} = {challenge_json quoted c}"
  proof (intro set_eqI iffI)
    fix i
    assume "i \<in> {i \<in> set items. cj_domain i = ch_Domain c}"
    then obtain c2 where c2: "i = challenge_json quoted c2" "view s' (mi_ID mi) (ch_Domain c2) = Some c2"
      "ch_Domain c2 = ch_Domain c"
      unfolding items(2) by (auto simp: challenge_json_def)
    have "Some c2 = Some c" using c2(2) s'(2) unfolding c2(3) by (rule trans [OF sym])
    then show "i \<in> {challenge_json quoted c}" using c2(1) by simp
  next
    fix i
    assume "i \<in> {challenge_json quoted c}"
    then show "i \<in> {i \<in> set items. cj_domain i = ch_Domain c}"
      unfolding items(2) using s'(2) by (simp add: challenge_json_def)
  qed
  have dns: "\<forall>v lookup records r. vf_LookupTXT v = Some lookup \<and> lookup (cj_dns_record (challenge_json quoted c)) = Inr records \<and>
      r \<in> set records \<and> TrimSpace r = cj_dns_value (challenge_json quoted c) \<longrightarrow> Satisfied v c = (True, MethodDNS, None)"
  proof (intro allI impI)
    fix v :: Verifier and lookup records r
    assume "vf_LookupTXT v = Some lookup \<and> lookup (cj_dns_record (challenge_json quoted c)) = Inr records \<and> r \<in> set records \<and>
      TrimSpace r = cj_dns_value (challenge_json quoted c)"
    then have "published_txt v (ch_Domain c) (ch_Token c)" by (elim conjE) (rule item_accepted)
    then show "Satisfied v c = (True, MethodDNS, None)" by (simp add: Satisfied_verdict)
  qed
  have http: "\<forall>v fetch body. vf_FetchHTTP v = Some fetch \<and> fetch (cj_http_url (challenge_json quoted c)) = Inr body \<and>
      TrimSpace body = cj_http_contents (challenge_json quoted c) \<longrightarrow> fst (Satisfied v c)"
  proof (intro allI impI)
    fix v :: Verifier and fetch body
    assume "vf_FetchHTTP v = Some fetch \<and> fetch (cj_http_url (challenge_json quoted c)) = Inr body \<and>
      TrimSpace body = cj_http_contents (challenge_json quoted c)"
    then have "published_file v (ch_Domain c) (ch_Token c)" by (elim conjE) (rule file_accepted)
    then show "fst (Satisfied v c)" by (simp add: Satisfied_verdict)
  qed
  show ?thesis by (intro exI conjI) (rule items(1) one refl dns http)+
qed

end

section \<open>The store in memory\<close>

definition verify_wf :: "challenge_map \<Rightarrow> bool" where
  "verify_wf s \<longleftrightarrow> distinct (map fst s) \<and> (\<forall>k c. map_of s k = Some c \<longrightarrow> (\<exists>m. no_nul m \<and> k = challenge_key m (ch_Domain c)))"

definition verify_view :: "challenge_map \<Rightarrow> string \<Rightarrow> string \<Rightarrow> Challenge option" where
  "verify_view s m d = verify_Get m d s"

lemma challenge_key_inj:
  "no_nul m \<Longrightarrow> no_nul m' \<Longrightarrow> challenge_key m d = challenge_key m' d' \<longleftrightarrow> m = m' \<and> d = d'"
  using store_key_inj [of m m' d d'] by (simp add: challenge_key_def store_key_def)

text \<open>The prefix test of the listing recognises the keys of its module.\<close>

lemma challenge_key_prefix:
  assumes "no_nul m" and "no_nul m'"
  shows "length (challenge_key m' d) > length m \<and> take (length m) (challenge_key m' d) = m \<and>
    challenge_key m' d ! length m = CHR 0x00 \<longleftrightarrow> m' = m"
proof
  assume h: "length (challenge_key m' d) > length m \<and> take (length m) (challenge_key m' d) = m \<and>
    challenge_key m' d ! length m = CHR 0x00"
  then have "challenge_key m' d = m @ CHR 0x00 # drop (Suc (length m)) (challenge_key m' d)"
    by (metis id_take_nth_drop)
  then have "challenge_key m' d = challenge_key m (drop (Suc (length m)) (challenge_key m' d))"
    by (simp add: challenge_key_def)
  then show "m' = m" using challenge_key_inj [OF assms(2,1)] by blast
qed (simp add: challenge_key_def)

lemma verify_listed:
  assumes wf: "verify_wf s" and m: "no_nul m"
  shows "distinct (map ch_Domain (verify_List m s)) \<and> (\<forall>c. c \<in> set (verify_List m s) \<longleftrightarrow> verify_view s m (ch_Domain c) = Some c)"
proof -
  let ?mine = "\<lambda>(k, c). length k > length m \<and> take (length m) k = m \<and> k ! length m = CHR 0x00"
  have mine: "?mine (k, c) \<longleftrightarrow> k = challenge_key m (ch_Domain c)" if kc: "(k, c) \<in> set s" for k c
  proof -
    have "map_of s k = Some c" using kc wf by (simp add: verify_wf_def)
    then obtain m' where "no_nul m'" "k = challenge_key m' (ch_Domain c)" using wf unfolding verify_wf_def by blast
    then show ?thesis
      using challenge_key_prefix [OF m, of m' "ch_Domain c"] challenge_key_inj [of m' m "ch_Domain c" "ch_Domain c"] m by simp
  qed
  have "c \<in> set (verify_List m s) \<longleftrightarrow> (challenge_key m (ch_Domain c), c) \<in> set s" for c
    unfolding verify_List_def using mine by (force simp: image_iff)
  moreover have "verify_view s m (ch_Domain c) = Some c \<longleftrightarrow> (challenge_key m (ch_Domain c), c) \<in> set s" for c
    using wf unfolding verify_view_def verify_Get_def verify_wf_def by (intro map_of_eq_Some_iff) simp
  moreover have "distinct (map (challenge_key m) (map ch_Domain (verify_List m s)))"
  proof -
    have "map (\<lambda>(k, c). challenge_key m (ch_Domain c)) (filter ?mine s) = map fst (filter ?mine s)"
      using mine by (intro map_cong refl) (auto split: prod.splits)
    then have "map (challenge_key m) (map ch_Domain (verify_List m s)) = map fst (filter ?mine s)"
      by (simp add: verify_List_def comp_def case_prod_beta)
    then show ?thesis using wf by (simp add: verify_wf_def distinct_map_filter)
  qed
  then have "distinct (map ch_Domain (verify_List m s))" by (auto simp: distinct_map intro: inj_on_imageI2)
  ultimately show ?thesis by simp
qed

interpretation memory: challenge_store mem_VerifyStore verify_view verify_wf no_nul
proof (unfold_locales, goal_cases)
  case (1 s m c)
  have "verify_wf (verify_Put m c s)"
    using 1 by (auto simp: verify_wf_def verify_Put_def distinct_update update_conv')
  moreover have "verify_view (verify_Put m c s) m' d = (if m' = m \<and> d = ch_Domain c then Some c else verify_view s m' d)"
    if "no_nul m'" for m' d
    using challenge_key_inj [OF that 1(2), of d "ch_Domain c"]
    by (auto simp: verify_view_def verify_Get_def verify_Put_def update_conv')
  ultimately show ?case by (simp add: mem_VerifyStore_def)
next
  case (2 s m d)
  then show ?case by (simp add: mem_VerifyStore_def verify_view_def)
next
  case (3 s m d)
  have "verify_wf (verify_Delete m d s)"
    using 3 by (auto simp: verify_wf_def verify_Delete_def distinct_delete delete_conv' split: if_splits)
  moreover have "verify_view (verify_Delete m d s) m' d' = (if m' = m \<and> d' = d then None else verify_view s m' d')"
    if "no_nul m'" for m' d'
    using challenge_key_inj [OF that 3(2), of d' d] by (auto simp: verify_view_def verify_Get_def verify_Delete_def delete_conv')
  ultimately show ?case by (simp add: mem_VerifyStore_def)
next
  case (4 s m)
  then show ?case using verify_listed by (simp add: mem_VerifyStore_def)
qed

section \<open>The store in SQLite\<close>

text \<open>A row as the module and the challenge it holds; the pair's key is the module with the domain.\<close>

definition row_challenge :: "row \<Rightarrow> string + string \<times> Challenge" where
  "row_challenge row =
     scan_then (text_col (row ''module'')) (\<lambda>m. scan_then (scanChallenge (map row challengeCols)) (\<lambda>c. Inr (m, c)))"

definition module_domain :: "string \<times> Challenge \<Rightarrow> string \<times> string" where
  "module_domain mc = (fst mc, ch_Domain (snd mc))"

definition sqlver_wf :: "('db \<Rightarrow> tables) \<Rightarrow> 'db \<Rightarrow> bool" where
  "sqlver_wf tables db \<longleftrightarrow> table_wf row_challenge module_domain ''verify_challenges'' (tables db)"

definition sqlver_view :: "('db \<Rightarrow> tables) \<Rightarrow> 'db \<Rightarrow> string \<Rightarrow> string \<Rightarrow> Challenge option" where
  "sqlver_view tables db m domain =
     map_option snd (table_view row_challenge module_domain ''verify_challenges'' (tables db) (m, domain))"

lemma scanChallenge_Inr:
  "scanChallenge (map row challengeCols) = Inr c \<longleftrightarrow> row ''domain'' = SText (ch_Domain c) \<and> row ''token'' = SText (ch_Token c) \<and>
    row ''state'' = SText (ch_State c) \<and> row ''created_at'' = STime (ch_CreatedAt c) \<and>
    row ''verified_at'' = time_or_null (ch_VerifiedAt c)"
  unfolding scanChallenge_def challengeCols_def by (cases c) (auto simp: nullable_time split: option.splits)

lemma row_challenge_Inr:
  "row_challenge row = Inr mc \<longleftrightarrow> row ''module'' = SText (fst mc) \<and> scanChallenge (map row challengeCols) = Inr (snd mc)"
  unfolding row_challenge_def by (cases mc) auto

lemma challenge_row_cols:
  "new_row (challenge_row m c) ''module'' = SText m" "new_row (challenge_row m c) ''domain'' = SText (ch_Domain c)"
  "new_row (challenge_row m c) ''token'' = SText (ch_Token c)" "new_row (challenge_row m c) ''state'' = SText (ch_State c)"
  "new_row (challenge_row m c) ''created_at'' = STime (ch_CreatedAt c)"
  "new_row (challenge_row m c) ''verified_at'' = time_or_null (ch_VerifiedAt c)"
  by (simp_all add: new_row_def challenge_row_def challengeCols_def time_or_null_def)

interpretation ver: keyed_table "''verify_challenges''" "[''module'', ''domain'']"
  "[''token'', ''state'', ''created_at'', ''verified_at'']" row_challenge "\<lambda>(m, c). challenge_row m c" module_domain "\<lambda>_. True"
  by unfold_locales
    (auto simp: row_challenge_Inr scanChallenge_Inr challenge_row_cols module_domain_def same_key_def split: prod.splits)

lemma challenge_where:
  "row_challenge row = Inr mc \<Longrightarrow>
    where_holds [ColEq ''module'' (SText m), ColEq ''domain'' (SText d)] row = (module_domain mc = (m, d))"
  "row_challenge row = Inr mc \<Longrightarrow> where_holds [ColEq ''module'' (SText m)] row = (fst mc = m)"
  by (auto simp: where_holds_def row_challenge_Inr scanChallenge_Inr module_domain_def)

lemma scanChallenges_map:
  "map row_challenge rows = map Inr mcs \<Longrightarrow> scanChallenges (map (\<lambda>r. map r challengeCols) rows) = Inr (map snd mcs)"
proof (induction rows arbitrary: mcs)
  case (Cons row rows)
  then obtain mc ms where m: "mcs = mc # ms" "row_challenge row = Inr mc" "map row_challenge rows = map Inr ms" by (cases mcs) auto
  then show ?case using Cons.IH [OF m(3)] by (simp add: row_challenge_Inr)
qed simp

lemma sqlver_put_ok:
  assumes d: "faithful d tables" "reliable d" and wf: "sqlver_wf tables db"
  shows "\<exists>db'. sqlver_Put d m c db = Inr db' \<and> sqlver_wf tables db' \<and>
    (\<forall>m' dn. sqlver_view tables db' m' dn = (if m' = m \<and> dn = ch_Domain c then Some c else sqlver_view tables db m' dn))"
proof -
  obtain n db' where exec: "dr_Exec d (InsertOnConflict ''verify_challenges'' (challenge_row m c) [''module'', ''domain'']
      (DoUpdate [''token'', ''state'', ''created_at'', ''verified_at''])) db = Inr (n, db')"
    using d(2) by (meson reliable_def)
  from ver.upsert [OF d(1) wf [unfolded sqlver_wf_def], of "(m, c)" n db'] show ?thesis
    using exec by (simp add: sqlver_Put_def sqlver_wf_def sqlver_view_def module_domain_def)
qed

lemma sqlver_delete_ok:
  assumes d: "faithful d tables" "reliable d" and wf: "sqlver_wf tables db"
  shows "\<exists>db'. sqlver_Delete d m dn db = Inr db' \<and> sqlver_wf tables db' \<and>
    (\<forall>m' dn'. sqlver_view tables db' m' dn' = (if m' = m \<and> dn' = dn then None else sqlver_view tables db m' dn'))"
proof -
  obtain n db' where exec: "dr_Exec d (DeleteWhere ''verify_challenges''
      [ColEq ''module'' (SText m), ColEq ''domain'' (SText dn)]) db = Inr (n, db')"
    using d(2) by (meson reliable_def)
  from table_delete [OF d(1) wf [unfolded sqlver_wf_def] challenge_where(1) exec] show ?thesis
    using exec by (simp add: sqlver_Delete_def sqlver_wf_def sqlver_view_def)
qed

lemma sqlver_get_ok:
  assumes d: "faithful d tables" "reliable d" and wf: "sqlver_wf tables db"
  shows "sqlver_Get d m dn db = Inr (sqlver_view tables db m dn)"
proof -
  obtain vals where q: "dr_Query d (Select challengeCols ''verify_challenges''
      [ColEq ''module'' (SText m), ColEq ''domain'' (SText dn)] AnyOrder) db = Inr vals"
    using d(2) by (meson reliable_def)
  from table_get [OF d(1) wf [unfolded sqlver_wf_def] challenge_where(1) q] show ?thesis
    using q by (auto simp: sqlver_Get_def sqlver_view_def row_challenge_Inr)
qed

lemma sqlver_list_ok:
  assumes d: "faithful d tables" "reliable d" and wf: "sqlver_wf tables db"
  shows "\<exists>cs. sqlver_List d m db = Inr cs \<and> distinct (map ch_Domain cs) \<and>
    (\<forall>c. c \<in> set cs \<longleftrightarrow> sqlver_view tables db m (ch_Domain c) = Some c)"
proof -
  let ?all = "table_rows row_challenge ''verify_challenges'' (tables db)"
  note wft = wf [unfolded sqlver_wf_def]
  obtain vals where q: "dr_Query d (Select challengeCols ''verify_challenges'' [ColEq ''module'' (SText m)] (OrderAsc ''domain'')) db
      = Inr vals"
    using d(2) by (meson reliable_def)
  from table_list [where P = "\<lambda>mc. fst mc = m", OF d(1) wft challenge_where(2) q] obtain rows mcs where
    mcs: "vals = map (\<lambda>r. map r challengeCols) rows" "map row_challenge rows = map Inr mcs"
      "mset mcs = mset (filter (\<lambda>mc. fst mc = m) ?all)" by blast
  have list: "sqlver_List d m db = Inr (map snd mcs)"
    using q scanChallenges_map [OF mcs(2)] mcs(1) by (simp add: sqlver_List_def)
  have "distinct (map module_domain (filter (\<lambda>mc. fst mc = m) ?all))"
    using wft by (simp add: table_wf_def table_as_def distinct_map_filter)
  moreover have perm: "mset (map module_domain mcs) = mset (map module_domain (filter (\<lambda>mc. fst mc = m) ?all))"
    unfolding mset_map mcs(3) ..
  ultimately have "distinct (map module_domain mcs)" using mset_eq_imp_distinct_iff [OF perm] by blast
  moreover have in_mcs: "mc \<in> set mcs \<longleftrightarrow> mc \<in> set ?all \<and> fst mc = m" for mc
    using mset_eq_setD [OF mcs(3)] by auto
  then have "map module_domain mcs = map (Pair m) (map ch_Domain (map snd mcs))"
    by (auto simp: module_domain_def)
  ultimately have "distinct (map (Pair m) (map ch_Domain (map snd mcs)))" by simp
  then have "distinct (map ch_Domain (map snd mcs))" by (rule distinct_map [THEN iffD1, THEN conjunct1])
  moreover have "c \<in> set (map snd mcs) \<longleftrightarrow> sqlver_view tables db m (ch_Domain c) = Some c" for c
  proof -
    have "c \<in> set (map snd mcs) \<longleftrightarrow> (m, c) \<in> set ?all" 
      using in_mcs [of "(m, c)"] by (auto simp: image_iff in_mcs intro: bexI [of _ "(m, c)"])
    also have "\<dots> \<longleftrightarrow> table_view row_challenge module_domain ''verify_challenges'' (tables db) (m, ch_Domain c) = Some (m, c)"
      unfolding table_view_Some [OF wft] by (simp add: module_domain_def)
    also have "\<dots> \<longleftrightarrow> sqlver_view tables db m (ch_Domain c) = Some c"
    proof (cases "table_view row_challenge module_domain ''verify_challenges'' (tables db) (m, ch_Domain c)")
      case (Some mc)
      then have "fst mc = m" by (simp add: table_view_Some [OF wft] module_domain_def)
      then show ?thesis unfolding sqlver_view_def Some by (cases mc) simp
    qed (simp add: sqlver_view_def)
    finally show ?thesis .
  qed
  ultimately show ?thesis using list by blast
qed

lemma sqlite_challenge_store:
  assumes "faithful d tables" and "reliable d"
  shows "challenge_store (SQLiteVerifyStore d) (sqlver_view tables) (sqlver_wf tables) (\<lambda>_. True)"
  using sqlver_put_ok [OF assms] sqlver_get_ok [OF assms] sqlver_delete_ok [OF assms] sqlver_list_ok [OF assms]
  by unfold_locales (simp_all add: SQLiteVerifyStore_def)

section \<open>What the dashboard shows\<close>

text \<open>C17: Once a challenge is put into the production store, the dashboard lists exactly one item for its domain, and whoever
  places the record or the file that the item asks for is accepted by the check.\<close>

theorem listed_proof_is_accepted:
  assumes "faithful d tables" and "reliable d" and "sqlver_wf tables db" and "sqlver_Put d (mi_ID mi) c db = Inr db'"
  shows "\<exists>items item. handleVerification quoted (Some (SQLiteVerifyStore d, db')) mi = (200, VerificationBody True items) \<and>
    {i \<in> set items. cj_domain i = ch_Domain c} = {item} \<and> item = challenge_json quoted c \<and>
    (\<forall>v lookup records r. vf_LookupTXT v = Some lookup \<and> lookup (cj_dns_record item) = Inr records \<and> r \<in> set records \<and>
      TrimSpace r = cj_dns_value item \<longrightarrow> Satisfied v c = (True, MethodDNS, None)) \<and>
    (\<forall>v fetch body. vf_FetchHTTP v = Some fetch \<and> fetch (cj_http_url item) = Inr body \<and>
      TrimSpace body = cj_http_contents item \<longrightarrow> fst (Satisfied v c))"
  by (rule challenge_store.issued_then_listed [OF sqlite_challenge_store [OF assms(1,2)] assms(3)])
    (use assms(4) in \<open>simp_all add: SQLiteVerifyStore_def\<close>)

definition ex_challenge :: Challenge where
  "ex_challenge = \<lparr>ch_Domain = ''example.com'', ch_Token = ''abc'', ch_State = StatePending, ch_CreatedAt = 1, ch_VerifiedAt = None\<rparr>"

theorem listed_proof_is_accepted_witness:
  "\<exists>db' items. sqlver_Put ref_driver (mi_ID ex_info) ex_challenge ex_tables = Inr db' \<and>
    handleVerification (\<lambda>s. s) (Some (SQLiteVerifyStore ref_driver, db')) ex_info = (200, VerificationBody True items) \<and>
    challenge_json (\<lambda>s. s) ex_challenge \<in> set items"
proof -
  have wf: "sqlver_wf (\<lambda>db. db) ex_tables"
    by (simp add: sqlver_wf_def table_wf_def table_as_def table_rows_def ex_tables_def)
  obtain db' where put: "sqlver_Put ref_driver (mi_ID ex_info) ex_challenge ex_tables = Inr db'"
    using sqlver_put_ok [OF ref_driver_faithful ref_driver_reliable wf] by blast
  from listed_proof_is_accepted [OF ref_driver_faithful ref_driver_reliable wf put] obtain items where
    "handleVerification (\<lambda>s. s) (Some (SQLiteVerifyStore ref_driver, db')) ex_info = (200, VerificationBody True items)"
    "{i \<in> set items. cj_domain i = ch_Domain ex_challenge} = {challenge_json (\<lambda>s. s) ex_challenge}" by blast
  then show ?thesis using put by blast
qed

end
