(* ===== verification/Channels.thy ===== *)
theory Channels
  imports Notify NetIP AiEvidence AiClient
begin

text \<open>
  Package \<open>notify\<close>, files \<open>channels.go\<close>, \<open>format.go\<close> and \<open>hfs.go\<close>, with \<open>hfsbridge\<close>: the text of a digest, its webhook
  payload, its syslog lines and its schema events, and the \<open>Send\<close> of each channel. The network, the JSON encoder, the
  clock's format and the package \<open>hexward-core\<close> are parameters.
\<close>

section \<open>The text of a digest\<close>

definition utf8 :: "nat list \<Rightarrow> string" where
  "utf8 bs = map char_of bs"

definition newline :: string where
  "newline = [CHR 0x0A]"

definition severityBadge :: "Severity \<Rightarrow> string" where
  "severityBadge s =
     (if s = SeverityCritical then utf8 [0xF0, 0x9F, 0x9F, 0xA5] @ '' CRITICAL''
      else if s = SeverityHigh then utf8 [0xF0, 0x9F, 0x9F, 0xA7] @ '' HIGH''
      else if s = SeverityMedium then utf8 [0xF0, 0x9F, 0x9F, 0xA8] @ '' MEDIUM''
      else if s = SeverityLow then utf8 [0xF0, 0x9F, 0x9F, 0xA6] @ '' LOW''
      else utf8 [0xE2, 0xAC, 0x9C] @ '' INFO'')"

definition productName :: "string \<Rightarrow> string" where
  "productName m =
     (if m = ''certwatch'' then ''CertWatch''
      else if m = ''asm'' then ''Attack Surface Monitor''
      else if m = ''decoy'' then ''Decoy''
      else if m = ''patchlight'' then ''Patchlight''
      else if m = ''rulehawk'' then ''RuleHawk''
      else m)"

definition opened_text :: "'a Finding_scheme \<Rightarrow> string" where
  "opened_text f = newline @ severityBadge (f_Severity f) @ '' '' @ f_Target f @ newline @ ''  '' @ f_Title f @ newline @
     ''  '' @ utf8 [0xE2, 0x86, 0x92] @ '' '' @ f_Remediation f @ newline"

definition resolved_text :: "'a Finding_scheme \<Rightarrow> string" where
  "resolved_text f = ''  '' @ utf8 [0xE2, 0x80, 0xA2] @ '' '' @ f_Target f @ '' '' @ utf8 [0xE2, 0x80, 0x94] @ '' '' @ f_Title f @ newline"

definition FormatText :: "Digest \<Rightarrow> string" where
  "FormatText d =
     (let b = (if dg_Opened d \<noteq> [] then
                 productName (dg_Module d) @ '' '' @ utf8 [0xE2, 0x80, 0x94] @ '' '' @ Itoa (int (length (dg_Opened d))) @
                 '' new finding(s)'' @ newline @ concat (map opened_text (dg_Opened d))
               else '''');
          b = (if dg_Resolved d \<noteq> [] then
                 b @ (if b \<noteq> '''' then newline else '''') @ utf8 [0xE2, 0x9C, 0x85] @ '' '' @
                 Itoa (int (length (dg_Resolved d))) @ '' finding(s) resolved'' @ newline @
                 concat (map resolved_text (dg_Resolved d))
               else b)
      in TrimRight b newline)"

section \<open>Webhook, Slack and Telegram\<close>

record webhookFinding =
  wf_Target :: string
  wf_Check :: string
  wf_Severity :: string
  wf_Title :: string
  wf_Remediation :: string
  wf_Evidence :: "evidence option"

record webhookPayload =
  wp_Version :: int
  wp_Module :: string
  wp_At :: int
  wp_Opened :: "webhookFinding list"
  wp_Resolved :: "webhookFinding list"

definition toWire :: "'a Finding_scheme \<Rightarrow> webhookFinding" where
  "toWire f = \<lparr>wf_Target = f_Target f, wf_Check = f_Check f, wf_Severity = severity_str (f_Severity f), wf_Title = f_Title f,
     wf_Remediation = f_Remediation f, wf_Evidence = f_Evidence f\<rparr>"

definition webhook_payload :: "Digest \<Rightarrow> webhookPayload" where
  "webhook_payload d = \<lparr>wp_Version = 1, wp_Module = dg_Module d, wp_At = dg_At d, wp_Opened = map toWire (dg_Opened d),
     wp_Resolved = map toWire (dg_Resolved d)\<rparr>"

text \<open>
  What the channels use of the outside: \<open>Marshal\<close>, the check of an address by \<open>NewRequest\<close>, \<open>Do\<close>, which gives the status
  code and text or an error, and the dialling of and the writing to a connection, which give their error. Requests are POSTs.
\<close>

record 'w Outlet =
  ou_MarshalPayload :: "webhookPayload \<Rightarrow> string + string"
  ou_MarshalMap :: "(string \<times> string) list \<Rightarrow> string + string"
  ou_BadURL :: "string \<Rightarrow> string option"
  ou_Do :: "HttpRequest \<Rightarrow> 'w \<Rightarrow> (string + int \<times> string) \<times> 'w"
  ou_Dial :: "string \<Rightarrow> string \<Rightarrow> 'w \<Rightarrow> string option \<times> 'w"
  ou_Write :: "string \<Rightarrow> 'w \<Rightarrow> string option \<times> 'w"

text \<open>The part that the three HTTP channels share: build the request, send it, and judge the status.\<close>

definition http_post :: "'w Outlet \<Rightarrow> string \<Rightarrow> string \<Rightarrow> (string \<times> string) list \<Rightarrow> string + string \<Rightarrow> 'w \<Rightarrow> string option \<times> 'w" where
  "http_post ou name url headers marshalled w =
     (case marshalled of
        Inl err \<Rightarrow> (Some err, w)
      | Inr body \<Rightarrow>
          (case ou_BadURL ou url of
             Some err \<Rightarrow> (Some err, w)
           | None \<Rightarrow>
               (case ou_Do ou \<lparr>rq_URL = url, rq_Headers = (''Content-Type'', ''application/json'') # headers, rq_Body = body\<rparr> w of
                  (Inl err, w) \<Rightarrow> (Some err, w)
                | (Inr (code, status), w) \<Rightarrow>
                    if code < 200 \<or> code > 299 then (Some (name @ '' returned '' @ status), w) else (None, w))))"

record WebhookChannel =
  wh_URL :: string
  wh_Secret :: string

definition webhook_Send :: "'w Outlet \<Rightarrow> WebhookChannel \<Rightarrow> Digest \<Rightarrow> 'w \<Rightarrow> string option \<times> 'w" where
  "webhook_Send ou c d w =
     http_post ou ''webhook'' (wh_URL c)
       (if wh_Secret c \<noteq> '''' then [(''X-Hexward-Token'', wh_Secret c), (''X-Sentinel-Token'', wh_Secret c)] else [])
       (ou_MarshalPayload ou (webhook_payload d)) w"

definition slack_Send :: "'w Outlet \<Rightarrow> string \<Rightarrow> Digest \<Rightarrow> 'w \<Rightarrow> string option \<times> 'w" where
  "slack_Send ou url d w = http_post ou ''slack'' url [] (ou_MarshalMap ou [(''text'', FormatText d)]) w"

record TelegramChannel =
  tg_BotToken :: string
  tg_ChatID :: string
  tg_BaseURL :: string

definition telegram_Send :: "'w Outlet \<Rightarrow> TelegramChannel \<Rightarrow> Digest \<Rightarrow> 'w \<Rightarrow> string option \<times> 'w" where
  "telegram_Send ou c d w =
     (let base = (if tg_BaseURL c = '''' then ''https://api.telegram.org'' else tg_BaseURL c) in
      http_post ou ''telegram'' (base @ ''/bot'' @ tg_BotToken c @ ''/sendMessage'') []
        (ou_MarshalMap ou [(''chat_id'', tg_ChatID c), (''text'', FormatText d)]) w)"

section \<open>Syslog\<close>

record SyslogChannel =
  sy_Addr :: string
  sy_Network :: string
  sy_Hostname :: string
  sy_Tag :: string
  sy_Facility :: int

text \<open>The process: its host name or an error, its number, the time, and how a time is printed in the format \<open>Stamp\<close>.\<close>

record Process =
  pr_Hostname :: "string + string"
  pr_Getpid :: int
  pr_Now :: int
  pr_Stamp :: "int \<Rightarrow> string"

definition statusWord :: "bool \<Rightarrow> string" where
  "statusWord resolved = (if resolved then ''resolved'' else ''open'')"

definition ip_keys :: "string list" where
  "ip_keys = [''source_ip'', ''src_ip'', ''src'', ''actor'', ''client_ip'', ''ip'']"

fun ip_loop :: "evidence \<Rightarrow> string list \<Rightarrow> string" where
  "ip_loop ev [] = ''''"
| "ip_loop ev (key # keys) =
     (case map_of ev key of
        Some (JString s) \<Rightarrow> if ParseIP (TrimSpace s) \<noteq> None then TrimSpace s else ip_loop ev keys
      | _ \<Rightarrow> ip_loop ev keys)"

definition evidenceIP :: "evidence option \<Rightarrow> string" where
  "evidenceIP ev = ip_loop (case ev of None \<Rightarrow> [] | Some kvs \<Rightarrow> kvs) ip_keys"

definition syslogSeverity :: "string \<Rightarrow> int" where
  "syslogSeverity sev =
     (let s = ToLower sev in
      if s = ''critical'' then 2 else if s = ''high'' then 3 else if s = ''medium'' then 4 else if s = ''low'' then 5 else 6)"

text \<open>\<open>strings.Map\<close> reads runes: a byte that starts none becomes the replacement character.\<close>

definition line_rune :: "string \<Rightarrow> string" where
  "line_rune r = (if r = [CHR 0x0A] \<or> r = [CHR 0x0D] \<or> r = [CHR 0x00] then '' '' else r)"

definition maxSyslog :: nat where
  "maxSyslog = 1600"

definition sanitizeSyslog :: "string \<Rightarrow> string" where
  "sanitizeSyslog s =
     (let s = concat (map line_rune (runes s)) in if length s > maxSyslog then take maxSyslog s @ ellipsis else s)"

definition syslogMessage :: "string \<Rightarrow> 'a Finding_scheme \<Rightarrow> bool \<Rightarrow> string" where
  "syslogMessage m f resolved =
     (let b = (if resolved then ''RESOLVED: '' else '''') @ f_Title f @
            '' | product='' @ m @ '' severity='' @ severity_str (f_Severity f) @ '' check='' @ f_Check f @
            '' target='' @ f_Target f @ '' status='' @ statusWord resolved;
          ip = evidenceIP (f_Evidence f)
      in sanitizeSyslog (b @ (if ip \<noteq> '''' then '' src='' @ ip else '''')))"

definition syslog_host :: "SyslogChannel \<Rightarrow> Process \<Rightarrow> string" where
  "syslog_host s p =
     (if sy_Hostname s = '''' then (case pr_Hostname p of Inr h \<Rightarrow> if h \<noteq> '''' then h else ''-'' | Inl err \<Rightarrow> ''-'') else sy_Hostname s)"

definition syslog_tag :: "SyslogChannel \<Rightarrow> Digest \<Rightarrow> string" where
  "syslog_tag s d = (if sy_Tag s = '''' then dg_Module d else sy_Tag s)"

definition syslog_facility :: "SyslogChannel \<Rightarrow> int" where
  "syslog_facility s = (if sy_Facility s = 0 then 16 else sy_Facility s)"

definition syslog_stamp :: "Process \<Rightarrow> Digest \<Rightarrow> string" where
  "syslog_stamp p d = pr_Stamp p (if dg_At d = 0 then pr_Now p else dg_At d)"

definition syslog_line :: "SyslogChannel \<Rightarrow> Process \<Rightarrow> Digest \<Rightarrow> int \<Rightarrow> string \<Rightarrow> string" where
  "syslog_line s p d pri msg =
     ''<'' @ Itoa pri @ ''>'' @ syslog_stamp p d @ '' '' @ syslog_host s p @ '' '' @ syslog_tag s d @
     ''['' @ Itoa (pr_Getpid p) @ '']: '' @ msg @ newline"

definition syslog_lines :: "SyslogChannel \<Rightarrow> Process \<Rightarrow> Digest \<Rightarrow> string list" where
  "syslog_lines s p d =
     map (\<lambda>f. syslog_line s p d (syslog_facility s * 8 + syslogSeverity (severity_str (f_Severity f)))
       (syslogMessage (dg_Module d) f False)) (dg_Opened d) @
     map (\<lambda>f. syslog_line s p d (syslog_facility s * 8 + 5) (syslogMessage (dg_Module d) f True)) (dg_Resolved d)"

fun write_lines :: "'w Outlet \<Rightarrow> string list \<Rightarrow> 'w \<Rightarrow> string option \<times> 'w" where
  "write_lines ou [] w = (None, w)"
| "write_lines ou (line # ls) w =
     (case ou_Write ou line w of
        (Some err, w) \<Rightarrow> (Some err, w)
      | (None, w) \<Rightarrow> write_lines ou ls w)"

definition syslog_Send :: "'w Outlet \<Rightarrow> Process \<Rightarrow> SyslogChannel \<Rightarrow> Digest \<Rightarrow> 'w \<Rightarrow> string option \<times> 'w" where
  "syslog_Send ou p s d w =
     (if Empty d then (None, w)
      else
        (let network = (if sy_Network s = '''' then ''udp'' else sy_Network s) in
         case ou_Dial ou network (sy_Addr s) w of
           (Some err, w) \<Rightarrow> (Some err, w)
         | (None, w) \<Rightarrow> write_lines ou (syslog_lines s p d) w))"

section \<open>Schema events\<close>

record hfs_Source =
  hs_ID :: string
  hs_Fingerprint :: string
  hs_Check :: string
  hs_Title :: string
  hs_Target :: string
  hs_Severity :: string
  hs_Status :: string
  hs_Remediation :: string
  hs_FirstSeen :: int
  hs_LastSeen :: int
  hs_ResolvedAt :: "int option"
  hs_GroupID :: "string option"
  hs_Evidence :: "evidence option"

definition Source :: "'a Finding_scheme \<Rightarrow> hfs_Source" where
  "Source f = \<lparr>hs_ID = f_ID f, hs_Fingerprint = f_Fingerprint f, hs_Check = f_Check f, hs_Title = f_Title f, hs_Target = f_Target f,
     hs_Severity = severity_str (f_Severity f), hs_Status = f_Status f, hs_Remediation = f_Remediation f,
     hs_FirstSeen = f_FirstSeen f, hs_LastSeen = f_LastSeen f, hs_ResolvedAt = f_ResolvedAt f, hs_GroupID = f_GroupID f,
     hs_Evidence = f_Evidence f\<rparr>"

record Meta =
  me_Product :: string
  me_Version :: string
  me_Host :: string

text \<open>\<open>hfs_New\<close> is the constructor of an event, with the kind, the source and the time it takes; \<open>'o\<close> are its options.\<close>

definition Events :: "(EventKind \<Rightarrow> Meta \<Rightarrow> hfs_Source \<Rightarrow> int \<Rightarrow> 'o \<Rightarrow> 'e) \<Rightarrow> int \<Rightarrow> Meta \<Rightarrow> Digest \<Rightarrow> 'o \<Rightarrow> 'e list" where
  "Events hfs_New now meta d opt =
     (let meta = (if me_Product meta = '''' then meta\<lparr>me_Product := dg_Module d\<rparr> else meta);
          at = (if dg_At d = 0 then now else dg_At d)
      in map (\<lambda>f. hfs_New KindOpened meta (Source f) at opt) (dg_Opened d) @
         map (\<lambda>f. hfs_New KindResolved meta (Source f) at opt) (dg_Resolved d))"

definition hfs_Send ::
  "('e list \<Rightarrow> 'w \<Rightarrow> string option \<times> 'w) \<Rightarrow> (EventKind \<Rightarrow> Meta \<Rightarrow> hfs_Source \<Rightarrow> int \<Rightarrow> 'o \<Rightarrow> 'e) \<Rightarrow> int \<Rightarrow> Meta \<Rightarrow> 'o \<Rightarrow> Digest \<Rightarrow> 'w \<Rightarrow>
    string option \<times> 'w" where
  "hfs_Send sink_Send hfs_New now meta opt d w =
     (if Empty d then (None, w) else sink_Send (Events hfs_New now meta d opt) w)"

text \<open>
  The line of a record in the snapshot export of \<open>handleFindingsExport\<close>; \<open>None\<close> when it does not marshal. \<open>hfs_Snapshot\<close> is the
  constructor at the kind of a snapshot.
\<close>

definition snapshot_meta :: "Meta \<Rightarrow> ModuleInfo \<Rightarrow> Meta" where
  "snapshot_meta meta mi =
     (if me_Product meta = '''' then meta\<lparr>me_Product := mi_ID mi, me_Version := mi_Version mi\<rparr> else meta)"

definition snapshot_line ::
  "('e \<Rightarrow> string option) \<Rightarrow> (Meta \<Rightarrow> hfs_Source \<Rightarrow> int \<Rightarrow> 'o \<Rightarrow> 'e) \<Rightarrow> Meta \<Rightarrow> ModuleInfo \<Rightarrow> int \<Rightarrow> 'o \<Rightarrow> 'a Finding_scheme \<Rightarrow> string option"
where
  "snapshot_line hfs_Marshal hfs_Snapshot meta mi now mode rec =
     (case hfs_Marshal (hfs_Snapshot (snapshot_meta meta mi) (Source rec) now mode) of
        None \<Rightarrow> None
      | Some line \<Rightarrow> Some (line @ newline))"

end
