(* ===== verification/ChannelsSpec.thy ===== *)
theory ChannelsSpec
  imports Channels AiEvidenceSpec NotifySpec
begin

text \<open>
  What a collector reads off the connection of the syslog channel: one frame for every finding of the digest, whatever the
  findings hold, and nothing else.
\<close>

section \<open>Runes of one line\<close>

definition no_break :: "string \<Rightarrow> bool" where
  "no_break s \<longleftrightarrow> list_all (\<lambda>c. c \<noteq> CHR 0x0A \<and> c \<noteq> CHR 0x0D \<and> c \<noteq> CHR 0x00) s"

lemma no_break_append [simp]: "no_break (s @ t) \<longleftrightarrow> no_break s \<and> no_break t" and no_break_Nil [simp]: "no_break []"
  by (simp_all add: no_break_def)

lemma valid_rune_low:
  assumes "valid_rune r" and "c \<in> set r" and "of_char c < (128 :: nat)"
  shows "r = [c]"
  using assms by (cases r rule: valid_rune.cases) (auto simp: cont_def)

lemma runes_low: "r \<in> set (runes s) \<Longrightarrow> c \<in> set r \<Longrightarrow> of_char c < (128 :: nat) \<Longrightarrow> r = [c]"
proof (induction s rule: runes.induct)
  case (1 s)
  show ?case
  proof (cases "s = []")
    case True
    with 1(3) show ?thesis by (simp add: runes.simps)
  next
    case False
    show ?thesis
    proof (cases "rune_len s")
      case None
      with 1(3) False have "r = replacement \<or> r \<in> set (runes (drop 1 s))" by (subst (asm) runes.simps) auto
      then show ?thesis using 1(1) [OF False None] 1(4,5) by (auto simp: replacement_def)
    next
      case (Some k)
      then have "valid_rune (take k s)" by (auto simp: rune_len_def dest: find_Some_in)
      moreover from 1(3) False Some have "r = take k s \<or> r \<in> set (runes (drop k s))" by (subst (asm) runes.simps) auto
      ultimately show ?thesis using 1(2) [OF False Some] 1(4,5) valid_rune_low by blast
    qed
  qed
qed

lemma line_rune_no_break:
  assumes "r \<in> set (runes s)"
  shows "no_break (line_rune r)"
proof -
  have "c \<noteq> d" if "c \<in> set (line_rune r)" "d = CHR 0x0A \<or> d = CHR 0x0D \<or> d = CHR 0x00" for c d
  proof
    assume "c = d"
    then have low: "of_char c < (128 :: nat)" using that(2) by auto
    show False
    proof (cases "r = [CHR 0x0A] \<or> r = [CHR 0x0D] \<or> r = [CHR 0x00]")
      case True
      then have "line_rune r = '' ''" by (simp add: line_rune_def)
      with that \<open>c = d\<close> show False by auto
    next
      case False
      then have "c \<in> set r" using that(1) by (simp add: line_rune_def)
      from runes_low [OF assms this low] False that(2) \<open>c = d\<close> show False by auto
    qed
  qed
  then show ?thesis by (auto simp: no_break_def list_all_iff)
qed

lemma sanitizeSyslog_ok: "no_break (sanitizeSyslog s) \<and> length (sanitizeSyslog s) \<le> 1603"
proof -
  define t where "t = concat (map line_rune (runes s))"
  have "no_break t"
    using line_rune_no_break unfolding t_def no_break_def list_all_iff by auto
  then have "no_break t" "no_break (take maxSyslog t)"
    by (auto simp: no_break_def list_all_iff dest: in_set_takeD)
  then show ?thesis
    unfolding sanitizeSyslog_def t_def [symmetric] Let_def by (simp add: maxSyslog_def ellipsis_def no_break_def)
qed

lemma syslogMessage_ok: "no_break (syslogMessage m f resolved) \<and> length (syslogMessage m f resolved) \<le> 1603"
  unfolding syslogMessage_def Let_def by (rule sanitizeSyslog_ok)

section \<open>Frames\<close>

text \<open>What a line is before its newline.\<close>

definition syslog_frame :: "SyslogChannel \<Rightarrow> Process \<Rightarrow> Digest \<Rightarrow> int \<Rightarrow> string \<Rightarrow> string" where
  "syslog_frame s p d pri msg =
     ''<'' @ Itoa pri @ ''>'' @ syslog_stamp p d @ '' '' @ syslog_host s p @ '' '' @ syslog_tag s d @
     ''['' @ Itoa (pr_Getpid p) @ '']: '' @ msg"

text \<open>The frames of a digest: the severity of an opened finding gives its priority, a resolution is a notice.\<close>

definition digest_frames :: "SyslogChannel \<Rightarrow> Process \<Rightarrow> Digest \<Rightarrow> string list" where
  "digest_frames s p d =
     map (\<lambda>f. syslog_frame s p d (syslog_facility s * 8 + syslogSeverity (severity_str (f_Severity f)))
       (syslogMessage (dg_Module d) f False)) (dg_Opened d) @
     map (\<lambda>f. syslog_frame s p d (syslog_facility s * 8 + 5) (syslogMessage (dg_Module d) f True)) (dg_Resolved d)"

lemma syslog_lines_frames: "syslog_lines s p d = map (\<lambda>f. f @ newline) (digest_frames s p d)"
  by (simp add: syslog_lines_def digest_frames_def syslog_line_def syslog_frame_def)

lemma digit_no_break: "digit_val c \<noteq> None \<Longrightarrow> c \<noteq> CHR 0x0A \<and> c \<noteq> CHR 0x0D \<and> c \<noteq> CHR 0x00"
  by (auto simp: digit_val_def less_eq_char_def)

lemma Itoa_no_break: "no_break (Itoa i)"
proof -
  have "no_break (nat_str n)" for n
    using digits_val_digits [OF digits_val_nat_str [of n]] digit_no_break by (auto simp: no_break_def list_all_iff)
  then show ?thesis by (simp add: Itoa_def) (simp add: no_break_def)
qed

lemma syslog_frame_no_break:
  assumes "no_break (syslog_host s p)" and "no_break (syslog_tag s d)" and "no_break (syslog_stamp p d)"
  shows "no_break (syslog_frame s p d pri (syslogMessage m f resolved))"
proof -
  have "no_break ''<''" "no_break ''>''" "no_break '' ''" "no_break ''[''" "no_break '']: ''" by (simp_all add: no_break_def)
  then show ?thesis using assms Itoa_no_break syslogMessage_ok unfolding syslog_frame_def no_break_append by blast
qed

lemma digest_frames_ok:
  assumes "no_break (syslog_host s p)" and "no_break (syslog_tag s d)" and "no_break (syslog_stamp p d)"
  shows "list_all no_break (digest_frames s p d)"
  using syslog_frame_no_break [OF assms] by (auto simp: digest_frames_def list_all_iff)

lemma Split_lines:
  "list_all no_break fs \<Longrightarrow> Split (concat (map (\<lambda>f. f @ newline) fs)) (CHR 0x0A) = fs @ ['''']"
proof (induction fs)
  case Nil
  then show ?case by (simp add: Split_def)
next
  case (Cons f fs)
  then have "\<forall>c \<in> set f. \<not> c = CHR 0x0A" by (simp add: no_break_def list_all_iff)
  then have "split_by (\<lambda>c. c = CHR 0x0A) (f @ CHR 0x0A # concat (map (\<lambda>f. f @ newline) fs)) =
      f # split_by (\<lambda>c. c = CHR 0x0A) (concat (map (\<lambda>f. f @ newline) fs))"
    by (intro split_by_append_sep) auto
  then show ?case using Cons by (simp add: Split_def newline_def)
qed

section \<open>The connection\<close>

text \<open>\<open>sent\<close> is what has been written to the connection: a new one is empty, and a write that gives no error appends its bytes.\<close>

definition connection :: "'w Outlet \<Rightarrow> ('w \<Rightarrow> string) \<Rightarrow> bool" where
  "connection ou sent \<longleftrightarrow>
     (\<forall>network addr w w'. ou_Dial ou network addr w = (None, w') \<longrightarrow> sent w' = '''') \<and>
     (\<forall>s w w'. ou_Write ou s w = (None, w') \<longrightarrow> sent w' = sent w @ s)"

lemma write_lines_sent:
  assumes "connection ou sent" and "write_lines ou ls w = (None, w')"
  shows "sent w' = sent w @ concat ls"
  using assms(2)
proof (induction ls arbitrary: w)
  case (Cons line ls)
  obtain err w1 where w1: "ou_Write ou line w = (err, w1)" by (cases "ou_Write ou line w")
  with Cons.prems have "err = None" "write_lines ou ls w1 = (None, w')" by (simp_all split: option.splits)
  then show ?case using Cons.IH w1 assms(1) by (simp add: connection_def)
qed simp

text \<open>C16: When the syslog channel sends a digest without an error, a collector that splits the stream at newlines reads exactly one
  frame for each finding, opened ones first, whatever bytes the findings hold; no frame has a control character that ends a line, and
  the message of each is at most 1603 bytes.\<close>

theorem syslog_one_frame_per_finding:
  assumes "connection ou sent" and "syslog_Send ou p s d w = (None, w')" and "\<not> Empty d"
    and "no_break (syslog_host s p)" and "no_break (syslog_tag s d)" and "no_break (syslog_stamp p d)"
  shows "Split (sent w') (CHR 0x0A) = digest_frames s p d @ [''''] \<and>
    length (digest_frames s p d) = length (dg_Opened d) + length (dg_Resolved d) \<and> list_all no_break (digest_frames s p d) \<and>
    (\<forall>m f resolved. length (syslogMessage m (f :: Finding) resolved) \<le> 1603)"
proof -
  let ?network = "if sy_Network s = '''' then ''udp'' else sy_Network s"
  obtain err w1 where w1: "ou_Dial ou ?network (sy_Addr s) w = (err, w1)" by (cases "ou_Dial ou ?network (sy_Addr s) w")
  with assms(2,3) have "err = None" "write_lines ou (syslog_lines s p d) w1 = (None, w')"
    by (simp_all add: syslog_Send_def Let_def split: option.splits)
  then have sent: "sent w' = concat (map (\<lambda>f. f @ newline) (digest_frames s p d))"
    using write_lines_sent [OF assms(1)] w1 assms(1) by (simp add: connection_def syslog_lines_frames)
  note frames = digest_frames_ok [OF assms(4-6)]
  have "length (digest_frames s p d) = length (dg_Opened d) + length (dg_Resolved d)" by (simp add: digest_frames_def)
  then show ?thesis unfolding sent Split_lines [OF frames] using frames syslogMessage_ok by blast
qed

section \<open>An example\<close>

text \<open>A connection that keeps what is written, and a finding whose title tries to start a line of its own.\<close>

definition ex_outlet :: "string Outlet" where
  "ex_outlet = \<lparr>ou_MarshalPayload = (\<lambda>_. Inl ''''), ou_MarshalMap = (\<lambda>_. Inl ''''), ou_BadURL = (\<lambda>_. None),
     ou_Do = (\<lambda>_ w. (Inl '''', w)), ou_Dial = (\<lambda>_ _ w. (None, '''')), ou_Write = (\<lambda>s w. (None, w @ s))\<rparr>"

definition ex_process :: Process where
  "ex_process = \<lparr>pr_Hostname = Inr ''fw1'', pr_Getpid = 7, pr_Now = 1, pr_Stamp = (\<lambda>_. ''Jan  2 03:04:05'')\<rparr>"

definition ex_syslog :: SyslogChannel where
  "ex_syslog = \<lparr>sy_Addr = ''127.0.0.1:5514'', sy_Network = ''tcp'', sy_Hostname = '''', sy_Tag = '''', sy_Facility = 0\<rparr>"

definition ex_hostile :: Finding where
  "ex_hostile = \<lparr>f_Fingerprint = ''f'', f_Target = ''edge'', f_Check = ''any'', f_Title = ''a'' @ newline @ ''<9>b'',
     f_Severity = SeverityHigh, f_Remediation = ''r'', f_Evidence = None, f_ID = ''i'', f_Module = ''rulehawk'',
     f_Status = ''open'', f_GroupID = None, f_FirstSeen = 1, f_LastSeen = 1, f_ResolvedAt = None\<rparr>"

definition ex_hostile_digest :: Digest where
  "ex_hostile_digest = \<lparr>dg_Module = ''rulehawk'', dg_Opened = [ex_hostile], dg_Resolved = [], dg_At = 5\<rparr>"

theorem syslog_one_frame_per_finding_witness:
  "\<exists>w' frame. syslog_Send ex_outlet ex_process ex_syslog ex_hostile_digest '''' = (None, w') \<and>
    Split w' (CHR 0x0A) = [frame, ''''] \<and> no_break frame"
proof -
  have conn: "connection ex_outlet (\<lambda>w. w)" by (simp add: connection_def ex_outlet_def)
  have writes: "\<exists>w'. write_lines ex_outlet ls w = (None, w')" for ls w
    by (induction ls arbitrary: w) (simp_all add: ex_outlet_def)
  have ne: "\<not> Empty ex_hostile_digest" by (simp add: Empty_def ex_hostile_digest_def)
  obtain w' where run: "syslog_Send ex_outlet ex_process ex_syslog ex_hostile_digest '''' = (None, w')"
    using writes [of "syslog_lines ex_syslog ex_process ex_hostile_digest" "''''"] ne
    by (auto simp: syslog_Send_def ex_outlet_def)
  have "no_break (syslog_host ex_syslog ex_process)" "no_break (syslog_tag ex_syslog ex_hostile_digest)"
    "no_break (syslog_stamp ex_process ex_hostile_digest)"
    by (simp_all add: no_break_def syslog_host_def syslog_tag_def syslog_stamp_def ex_syslog_def ex_process_def
        ex_hostile_digest_def)
  from syslog_one_frame_per_finding [OF conn run ne this] have
    "Split w' (CHR 0x0A) = digest_frames ex_syslog ex_process ex_hostile_digest @ ['''']"
    "length (digest_frames ex_syslog ex_process ex_hostile_digest) = 1"
    "list_all no_break (digest_frames ex_syslog ex_process ex_hostile_digest)"
    by (simp_all add: ex_hostile_digest_def)
  then show ?thesis using run by (cases "digest_frames ex_syslog ex_process ex_hostile_digest") auto
qed

text \<open>Fields are not kept apart as frames are: a title can state a source of its own, which a collector reads.\<close>

lemma title_forges_source:
  "syslogMessage ''rulehawk'' (ex_hostile\<lparr>f_Title := ''x src=10.0.0.1''\<rparr>) False =
     ''x src=10.0.0.1 | product=rulehawk severity=high check=any target=edge status=open''"
  by code_simp

end
