(* ===== verification/ChannelFlags.thy ===== *)
theory ChannelFlags
  imports Channels
begin

text \<open>
  Program \<open>cmd/rulehawk\<close>, file \<open>channels.go\<close>: the alert and export settings and the channels that are built of them. The
  packages \<open>sink\<close> and \<open>hfs\<close> of \<open>hexward-core\<close> are parameters, as are reading a file and splitting an address.
\<close>

section \<open>Settings\<close>

record channelFlags =
  cf_webhook :: string
  cf_webhookFormat :: string
  cf_webhookSecretFile :: string
  cf_syslogAddr :: string
  cf_syslogNetwork :: string
  cf_syslogFormat :: string
  cf_syslogRFC :: int
  cf_syslogCAFile :: string
  cf_exportFile :: string
  cf_hecURL :: string
  cf_hecTokenFile :: string
  cf_hecIndex :: string
  cf_hecCAFile :: string
  cf_evidence :: string

text \<open>The settings before any flag is read.\<close>

definition registerChannelFlags :: channelFlags where
  "registerChannelFlags =
     \<lparr>cf_webhook = '''', cf_webhookFormat = ''v1'', cf_webhookSecretFile = '''', cf_syslogAddr = '''', cf_syslogNetwork = ''udp'',
      cf_syslogFormat = ''kv'', cf_syslogRFC = 5424, cf_syslogCAFile = '''', cf_exportFile = '''', cf_hecURL = '''',
      cf_hecTokenFile = '''', cf_hecIndex = '''', cf_hecCAFile = '''', cf_evidence = ''redacted''\<rparr>"

section \<open>Channels\<close>

datatype 'tls Sink =
    SinkWebhook string string
  | SinkSyslog string string string int "'tls option"
  | SinkFile string
  | SinkHEC string string string "'tls option"

datatype ('tls, 'mode) Channel =
    ChWebhook WebhookChannel
  | ChSyslog SyslogChannel
  | ChHFS "'tls Sink" Meta 'mode

record ('tls, 'mode) Core =
  co_ParseEvidenceMode :: "string \<Rightarrow> 'mode \<times> bool"
  co_FormatJSON :: string
  co_FormatCEF :: string
  co_ReadSecretFile :: "string \<Rightarrow> string + string"
  co_TLSConfig :: "string \<Rightarrow> string \<Rightarrow> string + 'tls"
  co_HostOf :: "string \<Rightarrow> string"
  co_Validate :: "'tls Sink \<Rightarrow> string option"
  co_Endpoint :: "'tls Sink \<Rightarrow> string option"
  co_quoted :: "string \<Rightarrow> string"

text \<open>The four parts of \<open>build\<close>, each for one setting: no channel when it is not set.\<close>

definition webhook_secret :: "('tls, 'mode) Core \<Rightarrow> channelFlags \<Rightarrow> string + string" where
  "webhook_secret co c =
     (if cf_webhookSecretFile c = '''' then Inr ''''
      else (case co_ReadSecretFile co (cf_webhookSecretFile c) of
          Inl err \<Rightarrow> Inl (''-webhook-secret-file: '' @ err)
        | Inr s \<Rightarrow> Inr s))"

definition build_webhook :: "('tls, 'mode) Core \<Rightarrow> channelFlags \<Rightarrow> Meta \<Rightarrow> 'mode \<Rightarrow> string + ('tls, 'mode) Channel list" where
  "build_webhook co c meta mode =
     (if cf_webhook c = '''' then Inr []
      else (case webhook_secret co c of
          Inl err \<Rightarrow> Inl err
        | Inr secret \<Rightarrow>
            if cf_webhookFormat c = '''' \<or> cf_webhookFormat c = ''v1''
            then Inr [ChWebhook \<lparr>wh_URL = cf_webhook c, wh_Secret = secret\<rparr>]
            else if cf_webhookFormat c = ''v2'' then Inr [ChHFS (SinkWebhook (cf_webhook c) secret) meta mode]
            else Inl (''-webhook-format '' @ co_quoted co (cf_webhookFormat c) @ '': want v1 or v2'')))"

definition syslog_tls :: "('tls, 'mode) Core \<Rightarrow> channelFlags \<Rightarrow> string + 'tls option" where
  "syslog_tls co c =
     (if cf_syslogNetwork c = ''tls'' then
        (case co_TLSConfig co (cf_syslogCAFile c) (co_HostOf co (cf_syslogAddr c)) of
           Inl err \<Rightarrow> Inl (''-syslog-ca-file: '' @ err)
         | Inr tc \<Rightarrow> Inr (Some tc))
      else Inr None)"

definition build_syslog :: "('tls, 'mode) Core \<Rightarrow> channelFlags \<Rightarrow> Meta \<Rightarrow> 'mode \<Rightarrow> string + ('tls, 'mode) Channel list" where
  "build_syslog co c meta mode =
     (if cf_syslogAddr c = '''' then Inr []
      else if cf_syslogFormat c = '''' \<or> cf_syslogFormat c = ''kv'' then
        (if cf_syslogNetwork c \<noteq> ''udp'' \<and> cf_syslogNetwork c \<noteq> ''tcp''
         then Inl (''-syslog-network '' @ co_quoted co (cf_syslogNetwork c) @
           '' with -syslog-format kv: want udp or tcp (tls needs json or cef)'')
         else Inr [ChSyslog \<lparr>sy_Addr = cf_syslogAddr c, sy_Network = cf_syslogNetwork c, sy_Hostname = '''', sy_Tag = '''',
           sy_Facility = 0\<rparr>])
      else if cf_syslogFormat c = co_FormatJSON co \<or> cf_syslogFormat c = co_FormatCEF co then
        (case syslog_tls co c of
           Inl err \<Rightarrow> Inl err
         | Inr tls \<Rightarrow>
             (let s = SinkSyslog (cf_syslogAddr c) (cf_syslogNetwork c) (cf_syslogFormat c) (cf_syslogRFC c) tls in
              case co_Validate co s of
                Some err \<Rightarrow> Inl err
              | None \<Rightarrow> Inr [ChHFS s meta mode]))
      else Inl (''-syslog-format '' @ co_quoted co (cf_syslogFormat c) @ '': want kv, json or cef''))"

definition build_file :: "channelFlags \<Rightarrow> Meta \<Rightarrow> 'mode \<Rightarrow> ('tls, 'mode) Channel list" where
  "build_file c meta mode = (if cf_exportFile c = '''' then [] else [ChHFS (SinkFile (cf_exportFile c)) meta mode])"

definition build_hec :: "('tls, 'mode) Core \<Rightarrow> channelFlags \<Rightarrow> Meta \<Rightarrow> 'mode \<Rightarrow> string + ('tls, 'mode) Channel list" where
  "build_hec co c meta mode =
     (if cf_hecURL c = '''' then Inr []
      else if cf_hecTokenFile c = '''' then Inl ''-hec-url needs -hec-token-file''
      else (case co_ReadSecretFile co (cf_hecTokenFile c) of
          Inl err \<Rightarrow> Inl (''-hec-token-file: '' @ err)
        | Inr tok \<Rightarrow>
            (case co_Endpoint co (SinkHEC (cf_hecURL c) tok (cf_hecIndex c) None) of
               Some err \<Rightarrow> Inl (''-hec-url: '' @ err)
             | None \<Rightarrow>
                 if cf_hecCAFile c = '''' then Inr [ChHFS (SinkHEC (cf_hecURL c) tok (cf_hecIndex c) None) meta mode]
                 else (case co_TLSConfig co (cf_hecCAFile c) '''' of
                     Inl err \<Rightarrow> Inl (''-hec-ca-file: '' @ err)
                   | Inr tc \<Rightarrow> Inr [ChHFS (SinkHEC (cf_hecURL c) tok (cf_hecIndex c) (Some tc)) meta mode]))))"

definition build :: "('tls, 'mode) Core \<Rightarrow> channelFlags \<Rightarrow> Meta \<Rightarrow> string + ('tls, 'mode) Channel list" where
  "build co c meta =
     (case co_ParseEvidenceMode co (cf_evidence c) of
        (mode, False) \<Rightarrow> Inl (''-export-evidence '' @ co_quoted co (cf_evidence c) @ '': want redacted or none'')
      | (mode, True) \<Rightarrow>
          (case build_webhook co c meta mode of
             Inl err \<Rightarrow> Inl err
           | Inr out \<Rightarrow>
               (case build_syslog co c meta mode of
                  Inl err \<Rightarrow> Inl err
                | Inr out2 \<Rightarrow>
                    (let out = out @ out2 @ build_file c meta mode in
                     case build_hec co c meta mode of
                       Inl err \<Rightarrow> Inl err
                     | Inr out4 \<Rightarrow> Inr (out @ out4)))))"

definition evidenceMode :: "('tls, 'mode) Core \<Rightarrow> channelFlags \<Rightarrow> 'mode" where
  "evidenceMode co c = fst (co_ParseEvidenceMode co (cf_evidence c))"

section \<open>The dispatcher of the program\<close>

fun channel_Name :: "('tls Sink \<Rightarrow> string) \<Rightarrow> ('tls, 'mode) Channel \<Rightarrow> string" where
  "channel_Name sink_Name (ChWebhook w) = ''webhook''"
| "channel_Name sink_Name (ChSyslog s) = ''syslog''"
| "channel_Name sink_Name (ChHFS s meta mode) = sink_Name s"

text \<open>No dispatcher runs without a channel; an error of the settings ends the program.\<close>

definition main_notify ::
  "('tls, 'mode) Core \<Rightarrow> ('tls Sink \<Rightarrow> string) \<Rightarrow> channelFlags \<Rightarrow> string \<Rightarrow> string \<Rightarrow> string \<Rightarrow> string + Dispatcher option" where
  "main_notify co sink_Name c modID version hostname =
     (let exportMeta = \<lparr>me_Product = modID, me_Version = version, me_Host = hostname\<rparr> in
      case build co c exportMeta of
        Inl err \<Rightarrow> Inl (''rulehawk: '' @ err)
      | Inr channels \<Rightarrow>
          Inr (if length channels > 0
            then Some (NewDispatcher \<lparr>nc_FlushInterval = 0, nc_MaxBatch = 0, nc_MinSeverity = '''', nc_Retries = 0, nc_RetryDelay = 0\<rparr>
              (map (channel_Name sink_Name) channels))
            else None))"

section \<open>Nothing set is dropped\<close>

text \<open>Where a channel delivers to.\<close>

fun sink_destination :: "'tls Sink \<Rightarrow> string" where
  "sink_destination (SinkWebhook url secret) = url"
| "sink_destination (SinkSyslog addr network fmt rfc tls) = addr"
| "sink_destination (SinkFile path) = path"
| "sink_destination (SinkHEC url tok index tls) = url"

fun destination :: "('tls, 'mode) Channel \<Rightarrow> string" where
  "destination (ChWebhook w) = wh_URL w"
| "destination (ChSyslog s) = sy_Addr s"
| "destination (ChHFS s meta mode) = sink_destination s"

text \<open>A channel that encrypts nothing, or one whose transport its sink has checked, under the given identity and evidence mode.\<close>

fun proper :: "('tls, 'mode) Core \<Rightarrow> Meta \<Rightarrow> 'mode \<Rightarrow> ('tls, 'mode) Channel \<Rightarrow> bool" where
  "proper co meta mode (ChWebhook w) = True"
| "proper co meta mode (ChSyslog s) = (sy_Network s = ''udp'' \<or> sy_Network s = ''tcp'')"
| "proper co meta mode (ChHFS s m md) = (m = meta \<and> md = mode \<and>
     (case s of
        SinkSyslog addr network fmt rfc tls \<Rightarrow> co_Validate co s = None \<and> (network = ''tls'' \<longrightarrow> tls \<noteq> None)
      | SinkHEC url tok index tls \<Rightarrow> co_Endpoint co (SinkHEC url tok index None) = None
      | _ \<Rightarrow> True))"

lemma build_webhook_ok:
  "build_webhook co c meta mode = Inr out \<Longrightarrow>
    map destination out = filter (\<lambda>x. x \<noteq> '''') [cf_webhook c] \<and> list_all (proper co meta mode) out"
  by (auto simp: build_webhook_def split: if_splits sum.splits)

lemma build_syslog_ok:
  "build_syslog co c meta mode = Inr out \<Longrightarrow>
    map destination out = filter (\<lambda>x. x \<noteq> '''') [cf_syslogAddr c] \<and> list_all (proper co meta mode) out"
  by (auto simp: build_syslog_def syslog_tls_def Let_def split: if_splits sum.splits option.splits)

lemma build_file_ok:
  fixes co :: "('tls, 'mode) Core"
  shows "map destination (build_file c meta mode :: ('tls, 'mode) Channel list) = filter (\<lambda>x. x \<noteq> '''') [cf_exportFile c] \<and>
    list_all (proper co meta mode) (build_file c meta mode)"
  by (simp add: build_file_def)

lemma build_hec_ok:
  "build_hec co c meta mode = Inr out \<Longrightarrow>
    map destination out = filter (\<lambda>x. x \<noteq> '''') [cf_hecURL c] \<and> list_all (proper co meta mode) out"
  by (auto simp: build_hec_def split: if_splits sum.splits option.splits)

lemma build_destinations:
  assumes "build co c meta = Inr out"
  shows "map destination out = filter (\<lambda>x. x \<noteq> '''') [cf_webhook c, cf_syslogAddr c, cf_exportFile c, cf_hecURL c]"
    and "list_all (proper co meta (evidenceMode co c)) out"
proof -
  define mode where "mode = evidenceMode co c"
  have "co_ParseEvidenceMode co (cf_evidence c) = (mode, True)"
    using assms by (auto simp: build_def mode_def evidenceMode_def split: prod.splits bool.splits)
  with assms obtain ws ss hs where out: "out = ws @ ss @ build_file c meta mode @ hs"
    and parts: "build_webhook co c meta mode = Inr ws" "build_syslog co c meta mode = Inr ss" "build_hec co c meta mode = Inr hs"
    by (auto simp: build_def Let_def split: sum.splits)
  note ok = build_webhook_ok [OF parts(1)] build_syslog_ok [OF parts(2)] build_file_ok [of c meta mode co] build_hec_ok [OF parts(3)]
  show "map destination out = filter (\<lambda>x. x \<noteq> '''') [cf_webhook c, cf_syslogAddr c, cf_exportFile c, cf_hecURL c]"
    using ok unfolding out by simp
  show "list_all (proper co meta (evidenceMode co c)) out" using ok unfolding out mode_def [symmetric] by simp
qed

text \<open>C18: When the settings are accepted, every destination that is set has exactly one channel, in the order of the settings, and
  there is no other channel; a plain syslog channel is over UDP or TCP only, an exporting one has passed its check and has the
  identity and the evidence mode of the program.\<close>

theorem build_covers_settings:
  assumes "build co c meta = Inr out"
  shows "map destination out = filter (\<lambda>x. x \<noteq> '''') [cf_webhook c, cf_syslogAddr c, cf_exportFile c, cf_hecURL c] \<and>
    list_all (proper co meta (evidenceMode co c)) out"
  using build_destinations [OF assms] by blast

definition ex_core :: "(unit, bool) Core" where
  "ex_core = \<lparr>co_ParseEvidenceMode = (\<lambda>s. (s = ''redacted'', s = ''redacted'' \<or> s = ''none'')), co_FormatJSON = ''json'',
     co_FormatCEF = ''cef'', co_ReadSecretFile = (\<lambda>_. Inr ''s''), co_TLSConfig = (\<lambda>_ _. Inr ()), co_HostOf = (\<lambda>a. a),
     co_Validate = (\<lambda>_. None), co_Endpoint = (\<lambda>_. None), co_quoted = (\<lambda>s. s)\<rparr>"

definition ex_flags :: channelFlags where
  "ex_flags = registerChannelFlags\<lparr>cf_webhook := ''http://hook'', cf_syslogAddr := ''h:1'', cf_syslogNetwork := ''tls'',
     cf_syslogFormat := ''cef''\<rparr>"

theorem build_covers_settings_witness:
  "\<exists>out. build ex_core ex_flags \<lparr>me_Product = ''rulehawk'', me_Version = '''', me_Host = ''''\<rparr> = Inr out \<and>
    map destination out = [''http://hook'', ''h:1'']"
proof -
  let ?meta = "\<lparr>me_Product = ''rulehawk'', me_Version = '''', me_Host = ''''\<rparr>"
  obtain out where run: "build ex_core ex_flags ?meta = Inr out"
    by (simp add: build_def build_webhook_def build_syslog_def build_file_def build_hec_def webhook_secret_def syslog_tls_def
        ex_core_def ex_flags_def registerChannelFlags_def Let_def)
  from build_covers_settings [OF run] run show ?thesis by (simp add: ex_flags_def registerChannelFlags_def)
qed

text \<open>So the program runs without a dispatcher only when no destination is set, and else the dispatcher serves all of them.\<close>

lemma main_notify_serves_all:
  assumes "main_notify co sink_Name c modID version hostname = Inr res"
  shows "case res of
      None \<Rightarrow> cf_webhook c = '''' \<and> cf_syslogAddr c = '''' \<and> cf_exportFile c = '''' \<and> cf_hecURL c = ''''
    | Some d \<Rightarrow> length (ds_channels d) =
        length (filter (\<lambda>x. x \<noteq> '''') [cf_webhook c, cf_syslogAddr c, cf_exportFile c, cf_hecURL c])"
proof -
  let ?meta = "\<lparr>me_Product = modID, me_Version = version, me_Host = hostname\<rparr>"
    and ?set = "filter (\<lambda>x. x \<noteq> '''') [cf_webhook c, cf_syslogAddr c, cf_exportFile c, cf_hecURL c]"
  obtain out where out: "build co c ?meta = Inr out"
    using assms by (auto simp: main_notify_def Let_def split: sum.splits)
  then have res: "res = (if length out > 0 then Some (NewDispatcher \<lparr>nc_FlushInterval = 0, nc_MaxBatch = 0, nc_MinSeverity = '''',
      nc_Retries = 0, nc_RetryDelay = 0\<rparr> (map (channel_Name sink_Name) out)) else None)"
    using assms by (simp add: main_notify_def Let_def)
  have "length (map destination out) = length ?set" unfolding build_destinations(1) [OF out] ..
  then have len: "length out = length ?set" unfolding length_map .
  show ?thesis
  proof (cases "out = []")
    case True
    have "length ?set = 0" unfolding len [symmetric] True by (rule list.size(3))
    then have "?set = []" by (simp only: length_0_conv)
    then have "cf_webhook c = '''' \<and> cf_syslogAddr c = '''' \<and> cf_exportFile c = '''' \<and> cf_hecURL c = ''''"
      unfolding filter_empty_conv by simp
    then show ?thesis using True unfolding res by simp
  next
    case False
    then have "res = Some (NewDispatcher \<lparr>nc_FlushInterval = 0, nc_MaxBatch = 0, nc_MinSeverity = '''', nc_Retries = 0,
        nc_RetryDelay = 0\<rparr> (map (channel_Name sink_Name) out))" unfolding res by simp
    then show ?thesis unfolding len [symmetric] by (simp only: option.case NewDispatcher_def Dispatcher.simps length_map)
  qed
qed

end
