(* ===== verification/Spec2Isabelle.thy ===== *)
theory Spec2Isabelle
  imports FwProperties ParseProperties StoreProperties RulehawkSpec Ulid NotifySpec SchedSpec WebSpec AiEvidenceSpec AiGuardSpec AiGuardMeaning WebAiSpec SqlConfig ConsoleTargets OwnershipSpec ChannelsSpec ChannelFlags
begin

text \<open>
  RuleHawk audits firewall configurations: an uploaded config is parsed into rules, analysed for rules that can never match, that
  are too wide or that drifted from a baseline, and what is found is kept as findings with a life cycle, shown in a dashboard and
  announced over channels. This library models the program's Go code and proves what makes each part, and the parts together,
  correct. All paths below are relative to \<open>src/\<close>; definitions keep the names of the code, with a prefix where a name would clash.

  \<^bold>\<open>How the parts interact.\<close> The console (\<open>rulehawk/console.go\<close>) stores a config and makes it a target of the scheduler
  (\<open>sched\<close>). A sweep of the scheduler scans the targets that are due: the collector (\<open>rulehawk/rulehawk.go\<close>) parses the
  config (\<open>fwparse\<close>), runs the analysers (\<open>fwrule\<close>) and turns their issues into findings (\<open>core\<close>). The reconcile engine
  (\<open>store/reconcile.go\<close>) merges them into a store and reports what opened and what was resolved; the dispatcher
  (\<open>notify\<close>) batches that into digests for the channels. The dashboard (\<open>web\<close>) reads and changes the same store, under the limits
  of a license (\<open>license\<close>), and may ask a sidecar to explain a finding (\<open>internal/aiclient\<close>). \<open>cmd/rulehawk\<close> puts it together.

  \<^bold>\<open>Which theory models what.\<close>

  \<^item> \<open>Prelude\<close>: shared facts. \<open>GoStrings\<close>, \<open>NetIP\<close>, \<open>Json\<close>, \<open>Sha256\<close>: what the source uses of Go's
  \<open>strings\<close>, \<open>strconv\<close>, \<open>net\<close>, \<open>encoding/json\<close>, \<open>crypto/sha256\<close> and \<open>encoding/hex\<close>.

  \<^item> \<open>FwRule\<close>, \<open>NetContain\<close>: \<open>fwrule/rule.go\<close>, the record \<open>Rule\<close> and when one covers another. \<open>CoverIndex\<close>:
  \<open>fwrule/coverindex.go\<close>, posting lists in six dimensions, the segment tree over ports and the leapfrog join. \<open>FwAnalyze\<close>:
  \<open>fwrule/analyze.go\<close>. \<open>PostingDim\<close> states the contract of a dimension as a locale, \<open>CoverDims\<close> and \<open>PortDims\<close>
  interpret it on the code's dimensions, \<open>ShadowCorrect\<close> and \<open>FwSemantics\<close> (the first-match semantics of a rule base, which is the
  specification) lead to the properties in \<open>FwProperties\<close>: the index gives what the quadratic scan gives, and deleting the
  reported rules changes no decision.

  \<^item> \<open>ParseBase\<close>, \<open>Iptables\<close>, \<open>AsaObjects\<close>, \<open>AsaParse\<close>, \<open>VendorParse\<close>: \<open>fwparse\<close>. \<open>ParseProperties\<close>: round trip of iptables
  lines, exactness of the expansion of nested and cyclic ASA groups, and that the rules of any parser are numbered apart.

  \<^item> \<open>CoreFinding\<close>: \<open>core\<close>. \<open>Store\<close>: \<open>store/memory.go\<close>, \<open>store/store.go\<close> and \<open>store/reconcile.go\<close>, the engine being
  a function of the store's operations. \<open>StoreSpec\<close>: the contract of a findings store as a locale, the life cycle as the predicate
  \<open>transition\<close>, and the engine proved against them once. \<open>StoreProperties\<close>: its consequences over the in-memory store.

  \<^item> \<open>Sql\<close>: the SQL statements that the code sends as a datatype, with their meaning on tables of rows; the driver is a
  parameter and \<open>faithful\<close> says that a call which returns no error does what the statement means. \<open>SqlStore\<close>:
  \<open>store/sqlite.go\<close>. \<open>SqlSpec\<close>: it refines the list of the records that its rows hold and meets the contract of \<open>StoreSpec\<close>.
  \<open>SqlTable\<close>: tables with a key, as a locale. \<open>SqlConfig\<close>: \<open>rulehawk/sqlite.go\<close> against the contract of \<open>RulehawkSpec\<close>.

  \<^item> \<open>Rulehawk\<close>: \<open>rulehawk/memstore.go\<close>, \<open>rulehawk.go\<close> and \<open>console.go\<close>. \<open>RulehawkSpec\<close>: the contract of a config store, and
  that what the console accepts can be audited and keeps the tier's limit.

  \<^item> \<open>Ulid\<close>: \<open>store/ulid.go\<close>. \<open>License\<close>: \<open>license/license.go\<close>. \<open>Sched\<close>, \<open>SchedSpec\<close>: \<open>sched/scheduler.go\<close> as steps of one
  state, with the invariants of every reachable state: the semaphore counts the running scans, and the backoff of a target
  follows its own failures.

  \<^item> \<open>Notify\<close>, \<open>NotifySpec\<close>: \<open>notify/notify.go\<close> and \<open>bridge.go\<close>, the dispatcher as steps, and that no accepted event is lost or sent
  twice. \<open>Channels\<close>, \<open>ChannelsSpec\<close>: \<open>notify/channels.go\<close>, \<open>format.go\<close>, \<open>hfs.go\<close> and \<open>hfsbridge\<close>, and that a collector reads one
  syslog frame per finding. \<open>ChannelFlags\<close>: \<open>cmd/rulehawk/channels.go\<close>, and that no destination that is set is dropped.

  \<^item> \<open>Web\<close>, \<open>Program\<close>, \<open>WebSpec\<close>: \<open>web/server.go\<close> and \<open>cmd/rulehawk/main.go\<close>, the handlers as functions of a world (scheduler,
  store, license file) that call the store through the record \<open>StoreOps\<close>, whose operations may fail; the boot sequence, and what
  holds across restarts. \<open>ConsoleTargets\<close>: the console over the SQLite store of configs and the scheduler, as \<open>main.go\<close> wires them.

  \<^item> \<open>AiEvidence\<close>, \<open>AiGuard\<close>, \<open>AiClient\<close>, \<open>WebAi\<close> with their \<open>Spec\<close> theories: \<open>internal/aiclient\<close> and \<open>web/ai.go\<close>: what leaves the
  process, how often, and what may be shown of the answer. \<open>AiGuardMeaning\<close> says without the guard's expression what a statement of
  a severity is, and that the expression finds exactly these.

  \<^item> \<open>Ownership\<close>, \<open>OwnershipStore\<close>, \<open>OwnershipSpec\<close>: \<open>verify\<close>, \<open>store/verify_sqlite.go\<close> and the dashboard's list of challenges.

  \<^bold>\<open>State and errors.\<close> A struct is a record, an operation on it a function from the old state to the new. An error is the \<open>Inl\<close> of a
  sum or the \<open>Some\<close> of an optional message, and an index out of range a value of its own (\<open>IndexPanic\<close>). Addresses, masks,
  durations of the backoff, hashes and identifiers are words or wrap at 64 bits; other integers are \<open>int\<close>. Strings are lists of bytes. A
  method under a lock is one step; the code between two locks of a goroutine is a step of its own, so that steps of
  different goroutines interleave in the reachable states. A sweep is taken as one step with one reading of the clock, although it
  asks for the time once for every target.

  \<^bold>\<open>Termination.\<close> Every loop is structural recursion or a \<open>function\<close> with a proved measure: the join by the posting lists left, the
  segment tree by the upper node, the binary search by the interval, the ASA resolver by the groups not yet on the path, the retries by the
  attempts left. There is no fuel. Constants are those of the code: 65536 ports and a tree of twice as many nodes, 256
  members of an ASA group, 500 shown findings, 24 keys, 12 items, 400 runes and 3 levels of evidence, 1600 bytes of a syslog message.

  \<^bold>\<open>Parameters and their laws.\<close> What is not in the repository is an argument: the SQL driver (\<open>faithful\<close>, and \<open>reliable\<close> where a
  claim is that a call succeeds), the signature scheme, the XML decoder, encoders and decoders of JSON other than that of evidence,
  the network (\<open>connection\<close> is the law of a stream), randomness, the clock, and the sinks of \<open>hexward-core\<close>. Each law is shown to
  hold of a concrete instance in the witness of a theorem that assumes it.

  \<^bold>\<open>Not modelled.\<close> The HTTP mux and the static files; the parsing of flags and the exit codes of the program; \<open>cmd/rhscale\<close>, which only
  measures; the payload types of \<open>internal/aiclient/types.go\<close> that nothing builds; deadlines, jitter and the durations in results of scans;
  letters outside ASCII in case folding; floating-point numbers in evidence. SQL constraints that make a statement fail are covered by the
  driver's errors, not by tables. The scans of the scheduler reconcile over the in-memory store; the dashboard calls any operations on its state
  (\<open>StoreOps\<close>), and a claim that needs them not to fail says so; the engine, the console and the stores themselves are also proved over
  SQLite.
\<close>

end
